theory Spec2Isabelle
  imports Main "HOL-Library.Word" "HOL-Library.AList"
begin

section \<open>Scan planner: index keys and index points\<close>

type_synonym byte = "8 word"

text \<open>
  An \<open>IndexKey\<close> is an interface value in the source. The planner compares it by
  identity against the two sentinels \<open>MinIndexKey\<close> and \<open>MaxIndexKey\<close>
  and otherwise reads its bytes; the sentinels are the two nullary constructors.
\<close>

datatype IndexKey = MinIndexKey | MaxIndexKey | Key "byte list"

fun Bytes :: "IndexKey \<Rightarrow> byte list" where
  "Bytes (Key bs) = bs"
| "Bytes MinIndexKey = []"
| "Bytes MaxIndexKey = []"

text \<open>Go's \<open>bytes.Compare\<close>: lexicographic order on unsigned bytes, as -1, 0 or 1.\<close>

fun bytes_Compare :: "byte list \<Rightarrow> byte list \<Rightarrow> int" where
  "bytes_Compare [] [] = 0"
| "bytes_Compare [] (y # ys) = -1"
| "bytes_Compare (x # xs) [] = 1"
| "bytes_Compare (x # xs) (y # ys) =
     (if x < y then -1 else if y < x then 1 else bytes_Compare xs ys)"

text \<open>
  Modelled from the spec: \<open>ComparePrefixIndexKey\<close> is a method of the key types, which
  are not among the source files. The spec calls it the "prefix comparator on composite
  keys": the receiver is compared with the argument on their common length.
  \<open>IndexPointLessThan\<close> below takes the comparator as a parameter, so the general
  theorems hold for every comparator; this one is used at concrete inputs.
\<close>

definition ComparePrefixIndexKey :: "IndexKey \<Rightarrow> IndexKey \<Rightarrow> int" where
  "ComparePrefixIndexKey a b =
     (let n = min (length (Bytes a)) (length (Bytes b))
      in bytes_Compare (take n (Bytes a)) (take n (Bytes b)))"

record IndexPoint =
  Value :: IndexKey
  FilterId :: int
  Type :: string

definition minlen :: "IndexPoint \<Rightarrow> IndexPoint \<Rightarrow> IndexPoint" where
  "minlen x y = (if length (Bytes (Value x)) < length (Bytes (Value y)) then x else y)"

text \<open>
  \<open>IndexPointLessThan\<close>, the \<open>Less\<close> of \<open>sort.Sort(IndexPoints(points))\<close> in
  \<open>fillScans\<close>. The \<open>switch\<close> on the type of the shorter point falls through to
  \<open>return false\<close> when neither case returns.
\<close>

definition IndexPointLessThan ::
  "(IndexKey \<Rightarrow> IndexKey \<Rightarrow> int) \<Rightarrow> IndexPoint \<Rightarrow> IndexPoint \<Rightarrow> bool" where
  "IndexPointLessThan cmp x y =
     (let a = Value x; b = Value y in
      if a = MinIndexKey then True
      else if a = MaxIndexKey then False
      else if b = MinIndexKey then False
      else if b = MaxIndexKey then True
      else if cmp a b < 0 then True
      else if cmp a b = 0 then
        (if length (Bytes a) = length (Bytes b) then
           (if Type x = ''low'' \<and> Type y = ''high'' then True else False)
         else
           (let inclusiveKey = minlen x y in
            if Type inclusiveKey = ''low'' then (if inclusiveKey = x then True else False)
            else if Type inclusiveKey = ''high'' then (if inclusiveKey = y then True else False)
            else False))
      else False)"

section \<open>Storage manager: timestamps, snapshots and the manager's state\<close>

text \<open>
  Sequence numbers, vbuuids and checksums are unsigned 64-bit integers in the source.
  They are only stored and compared, never added, so they are natural numbers here.
\<close>

type_synonym IndexInstId = nat
type_synonym PartitionId = int
type_synonym SliceId = nat
type_synonym Timestamp = "nat list"

text \<open>
  The stream ids are an enumeration of package \<open>common\<close>, which is not among the source
  files; these are the ones the source names.
\<close>

datatype StreamId = INIT_STREAM | MAINT_STREAM | ALL_STREAMS

text \<open>
  Modelled from the spec: the enumeration of snapshot types lives in package
  \<open>common\<close>, which is not among the source files. These are the six types the spec
  lists and the source names.
\<close>

datatype SnapType =
  NO_SNAP | NO_SNAP_OSO | DISK_SNAP | DISK_SNAP_OSO | FORCE_COMMIT | FORCE_COMMIT_MERGE

record TsVbuuid =
  Bucket :: string
  Seqnos :: Timestamp
  Vbuuids :: "nat list"
  Crc64 :: nat
  SnapType :: SnapType

text \<open>
  Modelled from the spec: \<open>NewTimestamp\<close> and \<open>NewTsVbuuid\<close> are constructors of
  absent files. They allocate zeroed vectors of the given width; the source says of the
  timestamp of a nil snapshot that it "should have ZERO Crc64".
\<close>

definition NewTimestamp :: "nat \<Rightarrow> Timestamp" where
  "NewTimestamp numVbuckets = replicate numVbuckets 0"

definition NewTsVbuuid :: "string \<Rightarrow> nat \<Rightarrow> TsVbuuid" where
  "NewTsVbuuid bucket numVbuckets =
     \<lparr>Bucket = bucket, Seqnos = replicate numVbuckets 0,
      Vbuuids = replicate numVbuckets 0, Crc64 = 0, SnapType = NO_SNAP\<rparr>"

text \<open>
  Modelled from the spec: \<open>Timestamp.GreaterThan\<close> is not among the source files. The
  spec reads \<open>ts.seqnos > prior.seqnos\<close> as "pointwise, at least one strict".
\<close>

definition GreaterThan :: "Timestamp \<Rightarrow> Timestamp \<Rightarrow> bool" where
  "GreaterThan ts ts1 =
     (list_all (\<lambda>(t, t1). t1 \<le> t) (zip ts ts1) \<and> list_ex (\<lambda>(t, t1). t1 < t) (zip ts ts1))"

text \<open>
  Modelled from the spec: \<open>TsVbuuid.EqualOrGreater\<close> is not among the source files. The
  spec has \<open>a \<ge> b\<close> "iff componentwise for sequence numbers"; the source calls it with
  the second argument \<open>false\<close>.
\<close>

definition EqualOrGreater :: "TsVbuuid \<Rightarrow> TsVbuuid \<Rightarrow> bool \<Rightarrow> bool" where
  "EqualOrGreater a b strict = list_all2 (\<lambda>x y. y \<le> x) (Seqnos a) (Seqnos b)"

text \<open>
  A storage snapshot is an object of the storage engine with a reference count. The
  model gives each one an address; the counts live in the manager's state.
\<close>

record Snapshot =
  addr :: nat
  Timestamp :: TsVbuuid

record SnapshotInfo =
  infoTimestamp :: TsVbuuid
  IsOSOSnap :: bool

record sliceSnapshot =
  sliceId :: SliceId
  snap :: Snapshot

text \<open>
  The maps of a snapshot tree are Go maps. They are association lists here, so that the
  loops over them are recursions over the list; a loop visits the entries in some order,
  which is the order of the list.
\<close>

record partitionSnapshot =
  partnId :: PartitionId
  slices :: "(SliceId \<times> sliceSnapshot) list"

text \<open>The fields \<open>snapId\<close> and \<open>creationTime\<close>, kept for debugging, are left out.\<close>

record indexSnapshot =
  instId :: IndexInstId
  ts :: TsVbuuid
  partns :: "(PartitionId \<times> partitionSnapshot) list"
  epoch :: bool

record IndexSnapshotContainer =
  csnap :: indexSnapshot
  deleted :: bool

datatype error =
  ErrScanTimedOut | ErrIndexRollback | ErrIndexNotFound | errStorageCorrupted
  | SliceError string

text \<open>
  A slice is a capability of the storage engine. Its record holds what its methods
  answer: the dirty bit, what \<open>NewSnapshot\<close> and \<open>OpenSnapshot\<close> return for their
  arguments, the snapshot infos that \<open>GetSnapshots\<close> lists (newest first), the last
  rollback timestamp, and what \<open>Rollback\<close> and \<open>RollbackToZero\<close> return (\<open>None\<close> is
  a nil error).
\<close>

record Slice =
  Id :: SliceId
  IsDirty :: bool
  NewSnapshot :: "TsVbuuid \<Rightarrow> bool \<Rightarrow> error + SnapshotInfo"
  OpenSnapshot :: "SnapshotInfo \<Rightarrow> error + Snapshot"
  GetSnapshots :: "error + SnapshotInfo list"
  LastRollbackTs :: "TsVbuuid option"
  Rollback :: "SnapshotInfo \<Rightarrow> error option"
  RollbackToZero :: "error option"

text \<open>
  Of a partition instance the manager reads \<open>Defn.GetPartitionId()\<close> and
  \<open>Sc.GetAllSlices()\<close>.
\<close>

record PartitionInst =
  GetPartitionId :: PartitionId
  GetAllSlices :: "Slice list"

datatype IndexState =
  INDEX_STATE_INITIAL | INDEX_STATE_PENDING | INDEX_STATE_LOADING
  | INDEX_STATE_ACTIVE | INDEX_STATE_DELETED

text \<open>
  Of an index instance the manager reads the id, the bucket, the stream, the state and
  the keyspace id that \<open>Defn.KeyspaceId(Stream)\<close> computes.
\<close>

record IndexInst =
  InstId :: IndexInstId
  DefnBucket :: string
  KeyspaceId :: string
  Stream :: StreamId
  State :: IndexState

datatype Consistency =
  AnyConsistency | SessionConsistency | QueryConsistency | AbsoluteConsistency

text \<open>
  A waiter. The channel \<open>wch\<close> is its number; \<open>expired\<close> is an instant.
\<close>

record snapshotWaiter =
  wch :: nat
  wts :: "TsVbuuid option"
  cons :: Consistency
  waiterInstId :: IndexInstId
  expired :: nat

datatype reply = ReplySnapshot indexSnapshot | ReplyError error

datatype notification = SnapshotCreated indexSnapshot | SnapshotDeleted IndexInstId

datatype errCode = ERROR_STORAGE_MGR_MERGE_SNAPSHOT_FAIL

datatype severity = FATAL

datatype category = STORAGE_MGR

text \<open>The three causes that \<open>handleIndexMergeSnapshot\<close> formats into its error.\<close>

datatype cause =
  TimestampMismatch TsVbuuid TsVbuuid
  | MissingPartitions IndexInstId "PartitionId list"
  | DuplicatePartition PartitionId IndexInstId IndexInstId

text \<open>
  \<open>MsgSnapDone\<close> is the \<open>MsgMutMgrFlushDone\<close> of type \<open>STORAGE_SNAP_DONE\<close> with its
  stream, keyspace, timestamp and abort flag; \<open>MsgRollbackDone\<close> carries the stream, the
  keyspace, the restart timestamp, the error and the session id.
\<close>

datatype Message =
  MsgSuccess
  | MsgError errCode severity category cause
  | MsgSnapDone StreamId string TsVbuuid bool
  | MsgRollbackDone StreamId string "TsVbuuid option" "error option" nat

text \<open>
  The operations the manager invokes on slices, in the order of the calls, each with its
  arguments and, where the manager reads it, with what the slice returned.
\<close>

datatype sliceCall =
  CallIsDirty SliceId
  | CallFlushDone SliceId
  | CallSetLastRollbackTs SliceId "TsVbuuid option"
  | CallNewSnapshot SliceId TsVbuuid bool "error + SnapshotInfo"
  | CallOpenSnapshot SliceId SnapshotInfo "error + Snapshot"
  | CallRollback SliceId SnapshotInfo "error option"
  | CallRollbackToZero SliceId "error option"

text \<open>
  The state of the storage manager: its published maps (the partition map of an instance
  is the list of its partition instances, in the order a loop visits them), the reference count of every
  storage snapshot, and what it has sent: notifications of snapshots, replies to waiters
  (channel and message), messages on the supervisor's two channels, the calls on
  slices and the errors logged; the instance list of every stream and keyspace; the
  two entries of \<open>config\<close> that the modelled functions read; and whether the logger
  has its debug level enabled (\<open>logging.IsEnabled(logging.Debug)\<close>), on which one call
  of a slice depends.
\<close>

record storageMgr =
  indexInstMap :: "IndexInstId \<rightharpoonup> IndexInst"
  indexPartnMap :: "IndexInstId \<rightharpoonup> PartitionInst list"
  indexSnapMap :: "IndexInstId \<rightharpoonup> IndexSnapshotContainer"
  waitersMap :: "IndexInstId \<rightharpoonup> snapshotWaiter list"
  refcount :: "nat \<Rightarrow> nat"
  snapshotNotifych :: "notification list"
  waiterReplies :: "(nat \<times> reply) list"
  supvCmdch :: "Message list"
  supvRespch :: "Message list"
  sliceCalls :: "sliceCall list"
  errorLog :: "(SliceId \<times> error) list"
  streamKeyspaceIdInstList :: "StreamId \<Rightarrow> string \<Rightarrow> IndexInstId list"
  numVbuckets :: nat
  numSnapshotWorkers :: int
  debugLogging :: bool

text \<open>
  Modelled from the spec: \<open>Snapshot.Open\<close>, \<open>Snapshot.Close\<close>, \<open>CloneIndexSnapshot\<close>
  and \<open>DestroyIndexSnapshot\<close> are not among the source files. By the spec, "cloning a
  snapshot bumps every slice refcount" and "destroying a snapshot decrements every slice
  refcount", each slice snapshot exactly once.
\<close>

definition Open :: "Snapshot \<Rightarrow> storageMgr \<Rightarrow> storageMgr" where
  "Open sn s = s\<lparr>refcount := (refcount s)(addr sn := refcount s (addr sn) + 1)\<rparr>"

definition Close :: "Snapshot \<Rightarrow> storageMgr \<Rightarrow> storageMgr" where
  "Close sn s = s\<lparr>refcount := (refcount s)(addr sn := refcount s (addr sn) - 1)\<rparr>"

definition sliceSnapshots :: "indexSnapshot \<Rightarrow> Snapshot list" where
  "sliceSnapshots is = concat (map (\<lambda>(pid, ps). map (\<lambda>(sid, ss). snap ss) (slices ps)) (partns is))"

definition CloneIndexSnapshot :: "indexSnapshot \<Rightarrow> storageMgr \<Rightarrow> storageMgr" where
  "CloneIndexSnapshot is s = fold Open (sliceSnapshots is) s"

definition DestroyIndexSnapshot :: "indexSnapshot \<Rightarrow> storageMgr \<Rightarrow> storageMgr" where
  "DestroyIndexSnapshot is s = fold Close (sliceSnapshots is) s"

subsection \<open>Publishing a snapshot and notifying the waiters\<close>

text \<open>
  \<open>initSnapshotContainerForInst\<close> with a snapshot at hand (\<open>is\<close> not nil): no container
  for a missing or deleted instance; the present container if there is one; otherwise a
  new container holding \<open>is\<close>. The second component is \<open>updated\<close>.
\<close>

definition initSnapshotContainerForInst ::
  "IndexInstId \<Rightarrow> indexSnapshot \<Rightarrow> storageMgr \<Rightarrow> (IndexSnapshotContainer option \<times> bool) \<times> storageMgr" where
  "initSnapshotContainerForInst i is s =
     (case indexInstMap s i of
        None \<Rightarrow> ((None, False), s)
      | Some inst \<Rightarrow>
          if State inst = INDEX_STATE_DELETED then ((None, False), s)
          else (case indexSnapMap s i of
                  Some sc \<Rightarrow> ((Some sc, False), s)
                | None \<Rightarrow>
                    (let sc = \<lparr>csnap = is, deleted = False\<rparr>
                     in ((Some sc, True), s\<lparr>indexSnapMap := (indexSnapMap s)(i \<mapsto> sc)\<rparr>))))"

definition initSnapshotWaitersForInst ::
  "IndexInstId \<Rightarrow> storageMgr \<Rightarrow> snapshotWaiter list option \<times> storageMgr" where
  "initSnapshotWaitersForInst i s =
     (case indexInstMap s i of
        None \<Rightarrow> (None, s)
      | Some inst \<Rightarrow>
          if State inst = INDEX_STATE_DELETED then (None, s)
          else (case waitersMap s i of
                  Some ws \<Rightarrow> (Some ws, s)
                | None \<Rightarrow> (Some [], s\<lparr>waitersMap := (waitersMap s)(i \<mapsto> [])\<rparr>)))"

text \<open>The receiver of the channel owns the clone it is sent.\<close>

definition notifySnapshotCreation :: "indexSnapshot \<Rightarrow> storageMgr \<Rightarrow> storageMgr" where
  "notifySnapshotCreation is s =
     (let s1 = CloneIndexSnapshot is s
      in s1\<lparr>snapshotNotifych := snapshotNotifych s1 @ [SnapshotCreated is]\<rparr>)"

text \<open>Go's \<open>time.Time\<close>: an instant is a natural number, the zero instant is 0.\<close>

definition IsZero :: "nat \<Rightarrow> bool" where
  "IsZero t = (t = 0)"

definition After :: "nat \<Rightarrow> nat \<Rightarrow> bool" where
  "After t u = (u < t)"

text \<open>
  The loop over the waiters in \<open>updateSnapMapAndNotify\<close>. \<open>t\<close> is \<open>time.Now()\<close>,
  \<open>newWaiters\<close> the list built so far. \<open>isSnapshotConsistent\<close> is not among the source
  files and is the parameter \<open>consistent\<close>.
\<close>

fun notifyWaiters ::
  "(indexSnapshot \<Rightarrow> Consistency \<Rightarrow> TsVbuuid option \<Rightarrow> bool) \<Rightarrow> nat \<Rightarrow> indexSnapshot \<Rightarrow>
   snapshotWaiter list \<Rightarrow> snapshotWaiter list \<Rightarrow> storageMgr \<Rightarrow> snapshotWaiter list \<times> storageMgr" where
  "notifyWaiters consistent t is [] newWaiters s = (newWaiters, s)"
| "notifyWaiters consistent t is (w # waiters) newWaiters s =
     (if \<not> IsZero (expired w) \<and> After t (expired w) then
        notifyWaiters consistent t is waiters newWaiters
          (s\<lparr>waiterReplies := waiterReplies s @ [(wch w, ReplyError ErrScanTimedOut)]\<rparr>)
      else if consistent is (cons w) (wts w) then
        (let s1 = CloneIndexSnapshot is s
         in notifyWaiters consistent t is waiters newWaiters
              (s1\<lparr>waiterReplies := waiterReplies s1 @ [(wch w, ReplySnapshot is)]\<rparr>))
      else notifyWaiters consistent t is waiters (newWaiters @ [w]) s)"

definition updateSnapMapAndNotify ::
  "(indexSnapshot \<Rightarrow> Consistency \<Rightarrow> TsVbuuid option \<Rightarrow> bool) \<Rightarrow> nat \<Rightarrow> indexSnapshot \<Rightarrow>
   storageMgr \<Rightarrow> storageMgr" where
  "updateSnapMapAndNotify consistent t is s =
     (let ((snapC, updated), s1) =
            (case indexSnapMap s (instId is) of
               Some sc \<Rightarrow> ((Some sc, False), s)
             | None \<Rightarrow> initSnapshotContainerForInst (instId is) is s)
      in case snapC of
           None \<Rightarrow> s1
         | Some sc \<Rightarrow>
             (let s2 = (if updated = False then
                          (let d = DestroyIndexSnapshot (csnap sc) s1
                           in d\<lparr>indexSnapMap := (indexSnapMap d)(instId is \<mapsto> sc\<lparr>csnap := is\<rparr>)\<rparr>)
                        else s1);
                  s3 = notifySnapshotCreation is s2;
                  (waitersContainer, s4) =
                    (case waitersMap s3 (instId is) of
                       Some ws \<Rightarrow> (Some ws, s3)
                     | None \<Rightarrow> initSnapshotWaitersForInst (instId is) s3)
              in case waitersContainer of
                   None \<Rightarrow> s4
                 | Some waiters \<Rightarrow>
                     (let (newWaiters, s5) = notifyWaiters consistent t is waiters [] s4
                      in s5\<lparr>waitersMap := (waitersMap s5)(instId is \<mapsto> newWaiters)\<rparr>)))"

subsection \<open>Creating snapshots after a flush\<close>

definition called :: "sliceCall \<Rightarrow> storageMgr \<Rightarrow> storageMgr" where
  "called c s = s\<lparr>sliceCalls := sliceCalls s @ [c]\<rparr>"

definition Errorf :: "SliceId \<Rightarrow> error \<Rightarrow> storageMgr \<Rightarrow> storageMgr" where
  "Errorf sid err s = s\<lparr>errorLog := errorLog s @ [(sid, err)]\<rparr>"

text \<open>
  How an iteration of a loop ends: it goes on to the next one, the function returns, or
  the goroutine panics.
\<close>

datatype flow = Continue | Return | Panic

text \<open>The local variables of \<open>createSnapshotForIndex\<close> that its loops assign.\<close>

record loopVars =
  needsCommit :: bool
  isSnapCreated :: bool
  hasNewSnapshot :: bool
  sliceSnaps :: "(SliceId \<times> sliceSnapshot) list"
  partnSnaps :: "(PartitionId \<times> partitionSnapshot) list"

text \<open>
  The body of the loop over the slices of a partition. \<open>common.CrashOnError\<close> is not among
  the source files: the parameter \<open>CrashOnError\<close> says for which errors it does not
  return. Looking up a slice that the last partition snapshot does not have yields a nil
  \<open>SliceSnapshot\<close>, whose method call panics. When there is a latest snapshot the
  condition calls \<open>slice.IsDirty()\<close>, whatever \<open>needsCommit\<close> is; when the snapshot is
  kept, the debug log calls it once more.
\<close>

definition createSnapshotForSlice ::
  "(error \<Rightarrow> bool) \<Rightarrow> nat \<Rightarrow> TsVbuuid \<Rightarrow> bool \<Rightarrow> bool \<Rightarrow> bool \<Rightarrow> partitionSnapshot option \<Rightarrow>
   Slice \<Rightarrow> loopVars \<Rightarrow> storageMgr \<Rightarrow> flow \<times> loopVars \<times> storageMgr" where
  "createSnapshotForSlice CrashOnError numVbs tsVbuuid hasAllSB flushWasAborted forceCommit
     lastPartnSnap slc v s =
     (if flushWasAborted then (Return, v, called (CallIsDirty (Id slc)) s)
      else
        let s1 = (if hasAllSB then called (CallSetLastRollbackTs (Id slc) None) s else s) in
        case (case lastPartnSnap of
                None \<Rightarrow> Some None
              | Some ps \<Rightarrow> (case map_of (slices ps) (Id slc) of
                             None \<Rightarrow> None
                           | Some lastSliceSnap \<Rightarrow> Some (Some (snap lastSliceSnap)))) of
          None \<Rightarrow> (Panic, v, s1)
        | Some latestSnapshot \<Rightarrow>
            let snapTs = (case latestSnapshot of
                            Some l \<Rightarrow> Seqnos (Timestamp l)
                          | None \<Rightarrow> NewTimestamp numVbs);
                ts = Seqnos tsVbuuid;
                sd = (if latestSnapshot = None then s1 else called (CallIsDirty (Id slc)) s1)
            in
            if latestSnapshot = None
               \<or> ((IsDirty slc \<or> needsCommit v) \<and> GreaterThan ts snapTs)
               \<or> forceCommit
            then
              let v1 = (if forceCommit then v\<lparr>needsCommit := forceCommit\<rparr> else v);
                  s2 = called (CallFlushDone (Id slc)) sd;
                  r = NewSnapshot slc tsVbuuid (needsCommit v1);
                  s3 = called (CallNewSnapshot (Id slc) tsVbuuid (needsCommit v1) r) s2
              in
              case r of
                Inl err \<Rightarrow>
                  (if CrashOnError err then Panic else Continue,
                   v1\<lparr>isSnapCreated := False\<rparr>, Errorf (Id slc) err s3)
              | Inr info \<Rightarrow>
                  let v2 = v1\<lparr>hasNewSnapshot := True\<rparr>;
                      r2 = OpenSnapshot slc info;
                      s4 = called (CallOpenSnapshot (Id slc) info r2) s3
                  in
                  (case r2 of
                     Inl err \<Rightarrow>
                       (if CrashOnError err then Panic else Continue,
                        v2\<lparr>isSnapCreated := False\<rparr>, Errorf (Id slc) err s4)
                   | Inr newSnapshot \<Rightarrow>
                       (Continue,
                        v2\<lparr>sliceSnaps := AList.update (Id slc)
                              \<lparr>sliceId = Id slc, snap = newSnapshot\<rparr> (sliceSnaps v2)\<rparr>,
                        Open newSnapshot s4))
            else
              (case latestSnapshot of
                 Some l \<Rightarrow>
                   (Continue,
                    v\<lparr>sliceSnaps := AList.update (Id slc)
                         \<lparr>sliceId = Id slc, snap = l\<rparr> (sliceSnaps v)\<rparr>,
                    if debugLogging sd then called (CallIsDirty (Id slc)) (Open l sd)
                    else Open l sd)
               | None \<Rightarrow> (Panic, v, sd)))"

fun createSnapshotForSlices ::
  "(error \<Rightarrow> bool) \<Rightarrow> nat \<Rightarrow> TsVbuuid \<Rightarrow> bool \<Rightarrow> bool \<Rightarrow> bool \<Rightarrow> partitionSnapshot option \<Rightarrow>
   Slice list \<Rightarrow> loopVars \<Rightarrow> storageMgr \<Rightarrow> flow \<times> loopVars \<times> storageMgr" where
  "createSnapshotForSlices CrashOnError numVbs tsVbuuid hasAllSB flushWasAborted forceCommit
     lastPartnSnap [] v s = (Continue, v, s)"
| "createSnapshotForSlices CrashOnError numVbs tsVbuuid hasAllSB flushWasAborted forceCommit
     lastPartnSnap (slc # rest) v s =
     (case createSnapshotForSlice CrashOnError numVbs tsVbuuid hasAllSB flushWasAborted
             forceCommit lastPartnSnap slc v s of
        (Continue, v', s') \<Rightarrow>
          createSnapshotForSlices CrashOnError numVbs tsVbuuid hasAllSB flushWasAborted
            forceCommit lastPartnSnap rest v' s'
      | r \<Rightarrow> r)"

text \<open>The loop over the partitions of the instance; \<open>sliceSnaps\<close> is made anew for each.\<close>

fun createSnapshotForPartitions ::
  "(error \<Rightarrow> bool) \<Rightarrow> nat \<Rightarrow> TsVbuuid \<Rightarrow> bool \<Rightarrow> bool \<Rightarrow> bool \<Rightarrow> indexSnapshot \<Rightarrow>
   PartitionInst list \<Rightarrow> loopVars \<Rightarrow> storageMgr \<Rightarrow> flow \<times> loopVars \<times> storageMgr" where
  "createSnapshotForPartitions CrashOnError numVbs tsVbuuid hasAllSB flushWasAborted forceCommit
     lastIndexSnap [] v s = (Continue, v, s)"
| "createSnapshotForPartitions CrashOnError numVbs tsVbuuid hasAllSB flushWasAborted forceCommit
     lastIndexSnap (partnInst # rest) v s =
     (let partnId = GetPartitionId partnInst;
          lastPartnSnap = (if length (partns lastIndexSnap) \<noteq> 0
                           then map_of (partns lastIndexSnap) partnId else None)
      in case createSnapshotForSlices CrashOnError numVbs tsVbuuid hasAllSB flushWasAborted
                forceCommit lastPartnSnap (GetAllSlices partnInst) (v\<lparr>sliceSnaps := []\<rparr>) s of
           (Continue, v', s') \<Rightarrow>
             createSnapshotForPartitions CrashOnError numVbs tsVbuuid hasAllSB flushWasAborted
               forceCommit lastIndexSnap rest
               (v'\<lparr>partnSnaps := AList.update partnId
                      \<lparr>partnId = partnId, slices = sliceSnaps v'\<rparr> (partnSnaps v')\<rparr>) s'
         | r \<Rightarrow> r)"

text \<open>How a call ends: it returns, or a panic ends the process.\<close>

datatype outcome = Done | Crashed

text \<open>
  \<open>createSnapshotForIndex\<close>. An instance missing from the instance map reads as the zero
  \<open>IndexInst\<close>, which belongs to no flushed keyspace; a missing snapshot container is a nil
  pointer, and locking it panics. The deferred \<open>DestroyIndexSnapshot(lastIndexSnap)\<close>
  runs however the body ends. The statistics are left out.
\<close>

definition createSnapshotForIndex ::
  "(error \<Rightarrow> bool) \<Rightarrow> (indexSnapshot \<Rightarrow> Consistency \<Rightarrow> TsVbuuid option \<Rightarrow> bool) \<Rightarrow> nat \<Rightarrow>
   StreamId \<Rightarrow> string \<Rightarrow> IndexInstId \<Rightarrow> TsVbuuid \<Rightarrow> bool \<Rightarrow> bool \<Rightarrow> bool \<Rightarrow> bool \<Rightarrow>
   storageMgr \<Rightarrow> outcome \<times> storageMgr" where
  "createSnapshotForIndex CrashOnError consistent now streamId keyspaceId idxInstId tsVbuuid
     hasAllSB flushWasAborted needsCommit0 forceCommit s =
     (case indexInstMap s idxInstId of
        None \<Rightarrow> (Done, s)
      | Some idxInst \<Rightarrow>
          if KeyspaceId idxInst \<noteq> keyspaceId \<or> Stream idxInst \<noteq> streamId
             \<or> State idxInst = INDEX_STATE_DELETED
          then (Done, s)
          else
            (case indexSnapMap s idxInstId of
               None \<Rightarrow> (Crashed, s)
             | Some snapC \<Rightarrow>
                 let lastIndexSnap = csnap snapC;
                     s1 = CloneIndexSnapshot lastIndexSnap s;
                     partnMap = (case indexPartnMap s1 idxInstId of None \<Rightarrow> [] | Some pm \<Rightarrow> pm);
                     v0 = \<lparr>needsCommit = needsCommit0, isSnapCreated = True,
                           hasNewSnapshot = False, sliceSnaps = [], partnSnaps = []\<rparr>
                 in
                 case createSnapshotForPartitions CrashOnError (numVbuckets s1) tsVbuuid hasAllSB
                        flushWasAborted forceCommit lastIndexSnap partnMap v0 s1 of
                   (Panic, v, s2) \<Rightarrow> (Crashed, DestroyIndexSnapshot lastIndexSnap s2)
                 | (Return, v, s2) \<Rightarrow> (Done, DestroyIndexSnapshot lastIndexSnap s2)
                 | (Continue, v, s2) \<Rightarrow>
                     let is = \<lparr>instId = idxInstId, ts = tsVbuuid, partns = partnSnaps v,
                               epoch = False\<rparr>;
                         s3 = (if isSnapCreated v then updateSnapMapAndNotify consistent now is s2
                               else DestroyIndexSnapshot is s2)
                     in (Done, DestroyIndexSnapshot lastIndexSnap s3)))"

text \<open>
  \<open>getStreamKeyspaceIdInstsPerWorker\<close> for one stream and keyspace: the instances are
  dealt to the workers in turn. The manager caches the result and recomputes it when the
  number of workers has changed, so what it uses is always this value.
\<close>

definition getNumSnapshotWorkers :: "storageMgr \<Rightarrow> nat" where
  "getNumSnapshotWorkers s =
     (if numSnapshotWorkers s < 1 then 10000 else nat (numSnapshotWorkers s))"

definition instsPerWorker :: "IndexInstId list \<Rightarrow> nat \<Rightarrow> IndexInstId list list" where
  "instsPerWorker instList n =
     map (\<lambda>index. map snd (filter (\<lambda>(i, idxInstId). i mod n = index) (enumerate 0 instList)))
       [0..<n]"

text \<open>
  \<open>createSnapshotWorker\<close> starts one goroutine for each worker and waits for all of them;
  here the workers run one after the other, each over its instances in order, and a panic
  ends the process. It then reports \<open>STORAGE_SNAP_DONE\<close>.
\<close>

fun createSnapshotForInsts ::
  "(error \<Rightarrow> bool) \<Rightarrow> (indexSnapshot \<Rightarrow> Consistency \<Rightarrow> TsVbuuid option \<Rightarrow> bool) \<Rightarrow> nat \<Rightarrow>
   StreamId \<Rightarrow> string \<Rightarrow> TsVbuuid \<Rightarrow> bool \<Rightarrow> bool \<Rightarrow> bool \<Rightarrow> bool \<Rightarrow>
   IndexInstId list \<Rightarrow> storageMgr \<Rightarrow> outcome \<times> storageMgr" where
  "createSnapshotForInsts CrashOnError consistent now streamId keyspaceId tsVbuuid hasAllSB
     flushWasAborted needsCommit0 forceCommit [] s = (Done, s)"
| "createSnapshotForInsts CrashOnError consistent now streamId keyspaceId tsVbuuid hasAllSB
     flushWasAborted needsCommit0 forceCommit (idxInstId # rest) s =
     (case createSnapshotForIndex CrashOnError consistent now streamId keyspaceId idxInstId
             tsVbuuid hasAllSB flushWasAborted needsCommit0 forceCommit s of
        (Done, s') \<Rightarrow>
          createSnapshotForInsts CrashOnError consistent now streamId keyspaceId tsVbuuid
            hasAllSB flushWasAborted needsCommit0 forceCommit rest s'
      | (Crashed, s') \<Rightarrow> (Crashed, s'))"

text \<open>The flags \<open>needsCommit\<close> and \<open>forceCommit\<close> that \<open>createSnapshotWorker\<close> sets.\<close>

definition commitFlags :: "SnapType \<Rightarrow> bool \<times> bool" where
  "commitFlags snapType =
     (if snapType = DISK_SNAP \<or> snapType = DISK_SNAP_OSO then (True, False)
      else if snapType = FORCE_COMMIT \<or> snapType = FORCE_COMMIT_MERGE then (False, True)
      else (False, False))"

definition createSnapshotWorker ::
  "(error \<Rightarrow> bool) \<Rightarrow> (indexSnapshot \<Rightarrow> Consistency \<Rightarrow> TsVbuuid option \<Rightarrow> bool) \<Rightarrow> nat \<Rightarrow>
   StreamId \<Rightarrow> string \<Rightarrow> TsVbuuid \<Rightarrow> IndexInstId list list \<Rightarrow> bool \<Rightarrow> bool \<Rightarrow>
   storageMgr \<Rightarrow> outcome \<times> storageMgr" where
  "createSnapshotWorker CrashOnError consistent now streamId keyspaceId tsVbuuid perWorker
     flushWasAborted hasAllSB s =
     (case commitFlags (SnapType tsVbuuid) of
        (needsCommit0, forceCommit) \<Rightarrow>
          (case createSnapshotForInsts CrashOnError consistent now streamId keyspaceId tsVbuuid
                  hasAllSB flushWasAborted needsCommit0 forceCommit (concat perWorker) s of
             (Done, s') \<Rightarrow>
               (Done, s'\<lparr>supvRespch := supvRespch s' @
                          [MsgSnapDone streamId keyspaceId tsVbuuid flushWasAborted]\<rparr>)
           | (Crashed, s') \<Rightarrow> (Crashed, s')))"

text \<open>
  \<open>flushDone\<close>, for a flush that owes no snapshot. Whether the slices are told
  \<open>FlushDone\<close> depends on the storage mode, a setting and the clock: the parameter
  \<open>tuning\<close>. The loops call slices only.
\<close>

definition matchingSlices :: "StreamId \<Rightarrow> string \<Rightarrow> storageMgr \<Rightarrow> IndexInstId \<Rightarrow> Slice list" where
  "matchingSlices streamId keyspaceId s idxInstId =
     (case indexInstMap s idxInstId of
        None \<Rightarrow> []
      | Some idxInst \<Rightarrow>
          if KeyspaceId idxInst = keyspaceId \<and> Stream idxInst = streamId
             \<and> State idxInst \<noteq> INDEX_STATE_DELETED
          then concat (map GetAllSlices
                 (case indexPartnMap s idxInstId of None \<Rightarrow> [] | Some pm \<Rightarrow> pm))
          else [])"

definition flushDone ::
  "bool \<Rightarrow> IndexInstId list \<Rightarrow> StreamId \<Rightarrow> string \<Rightarrow> IndexInstId list \<Rightarrow> TsVbuuid \<Rightarrow> bool \<Rightarrow> bool \<Rightarrow>
   storageMgr \<Rightarrow> storageMgr" where
  "flushDone tuning partnMapKeys streamId keyspaceId instIdList tsVbuuid flushWasAborted hasAllSB s =
     (let s1 = (if tuning
                then fold (\<lambda>slc. called (CallFlushDone (Id slc)))
                       (concat (map (matchingSlices streamId keyspaceId s) instIdList)) s
                else s);
          s2 = (if hasAllSB
                then fold (\<lambda>slc. called (CallSetLastRollbackTs (Id slc) None))
                       (concat (map (matchingSlices streamId keyspaceId s) partnMapKeys)) s1
                else s1)
      in s2\<lparr>supvRespch := supvRespch s2 @
               [MsgSnapDone streamId keyspaceId tsVbuuid flushWasAborted]\<rparr>)"

text \<open>
  \<open>handleCreateSnapshot\<close>. \<open>common.HashVbuuid\<close> is not among the source files and is the
  parameter \<open>HashVbuuid\<close>. \<open>partnMapKeys\<close> is the order in which \<open>flushDone\<close> ranges over
  the partition map.
\<close>

definition handleCreateSnapshot ::
  "(nat list \<Rightarrow> nat) \<Rightarrow> (error \<Rightarrow> bool) \<Rightarrow> (indexSnapshot \<Rightarrow> Consistency \<Rightarrow> TsVbuuid option \<Rightarrow> bool) \<Rightarrow>
   nat \<Rightarrow> bool \<Rightarrow> IndexInstId list \<Rightarrow> StreamId \<Rightarrow> string \<Rightarrow> TsVbuuid \<Rightarrow> bool \<Rightarrow> bool \<Rightarrow>
   storageMgr \<Rightarrow> outcome \<times> storageMgr" where
  "handleCreateSnapshot HashVbuuid CrashOnError consistent now tuning partnMapKeys
     streamId keyspaceId tsVbuuid0 flushWasAborted hasAllSB s0 =
     (let s = s0\<lparr>supvCmdch := supvCmdch s0 @ [MsgSuccess]\<rparr>;
          snapType = SnapType tsVbuuid0;
          tsVbuuid = tsVbuuid0\<lparr>Crc64 := HashVbuuid (Vbuuids tsVbuuid0)\<rparr>;
          instIdList = streamKeyspaceIdInstList s streamId keyspaceId;
          perWorker = instsPerWorker instIdList (getNumSnapshotWorkers s)
      in if snapType = NO_SNAP \<or> snapType = NO_SNAP_OSO
         then (Done, flushDone tuning partnMapKeys streamId keyspaceId instIdList tsVbuuid
                       flushWasAborted hasAllSB s)
         else createSnapshotWorker CrashOnError consistent now streamId keyspaceId tsVbuuid
                perWorker flushWasAborted hasAllSB s)"

text \<open>
  \<open>addNilSnapshot\<close>: an instance without a snapshot container gets one that holds the
  epoch snapshot, with a fresh timestamp.
\<close>

definition addNilSnapshot :: "IndexInstId \<Rightarrow> string \<Rightarrow> storageMgr \<Rightarrow> storageMgr" where
  "addNilSnapshot idxInstId bucket s =
     (case indexSnapMap s idxInstId of
        Some sc \<Rightarrow> s
      | None \<Rightarrow>
          let ts = NewTsVbuuid bucket (numVbuckets s);
              snap = \<lparr>instId = idxInstId, ts = ts, partns = [], epoch = True\<rparr>;
              s1 = s\<lparr>indexSnapMap := (indexSnapMap s)(idxInstId \<mapsto> \<lparr>csnap = snap, deleted = False\<rparr>)\<rparr>
          in notifySnapshotCreation snap s1)"

subsection \<open>Merge and prune\<close>

text \<open>
  \<open>deepCloneIndexSnapshot\<close>: the loop over the slice snapshots of a partition that is
  cloned, the loop over the partition snapshots, and the function. Each slice snapshot
  that is cloned is opened.
\<close>

fun deepCloneSlices ::
  "(SliceId \<times> sliceSnapshot) list \<Rightarrow> (SliceId \<times> sliceSnapshot) list \<Rightarrow> storageMgr \<Rightarrow>
   (SliceId \<times> sliceSnapshot) list \<times> storageMgr" where
  "deepCloneSlices [] psSlices s = (psSlices, s)"
| "deepCloneSlices ((sid, sliceSnap) # rest) psSlices s =
     deepCloneSlices rest
       (AList.update sid \<lparr>sliceId = sliceId sliceSnap, snap = snap sliceSnap\<rparr> psSlices)
       (Open (snap sliceSnap) s)"

fun deepClonePartns ::
  "bool \<Rightarrow> PartitionId list \<Rightarrow> (PartitionId \<times> partitionSnapshot) list \<Rightarrow>
   (PartitionId \<times> partitionSnapshot) list \<Rightarrow> storageMgr \<Rightarrow>
   (PartitionId \<times> partitionSnapshot) list \<times> storageMgr" where
  "deepClonePartns doPrune keepPartnIds [] clonePartns s = (clonePartns, s)"
| "deepClonePartns doPrune keepPartnIds ((pid, partnSnap) # rest) clonePartns s =
     (let doClone = (if \<not> doPrune then True
                     else list_ex (\<lambda>keepPartnId. pid = keepPartnId) keepPartnIds)
      in if doClone then
           (case deepCloneSlices (slices partnSnap) [] s of
              (psSlices, s') \<Rightarrow>
                deepClonePartns doPrune keepPartnIds rest
                  (AList.update pid \<lparr>partnId = pid, slices = psSlices\<rparr> clonePartns) s')
         else deepClonePartns doPrune keepPartnIds rest clonePartns s)"

definition deepCloneIndexSnapshot ::
  "indexSnapshot \<Rightarrow> bool \<Rightarrow> PartitionId list \<Rightarrow> storageMgr \<Rightarrow> indexSnapshot \<times> storageMgr" where
  "deepCloneIndexSnapshot is doPrune keepPartnIds s =
     (case deepClonePartns doPrune keepPartnIds (partns is) [] s of
        (clonePartns, s') \<Rightarrow>
          (\<lparr>instId = instId is, ts = ts is, partns = clonePartns, epoch = False\<rparr>, s'))"

definition reply :: "Message \<Rightarrow> storageMgr \<Rightarrow> storageMgr" where
  "reply m s = s\<lparr>supvCmdch := supvCmdch s @ [m]\<rparr>"

text \<open>
  \<open>handleIndexPruneSnapshot\<close>. The request lists partitions; the function keeps the
  partition snapshots that the list does not name.
\<close>

definition handleIndexPruneSnapshot ::
  "(indexSnapshot \<Rightarrow> Consistency \<Rightarrow> TsVbuuid option \<Rightarrow> bool) \<Rightarrow> nat \<Rightarrow> IndexInstId \<Rightarrow>
   PartitionId list \<Rightarrow> storageMgr \<Rightarrow> storageMgr" where
  "handleIndexPruneSnapshot consistent now i partitions s =
     (case indexSnapMap s i of
        None \<Rightarrow> reply MsgSuccess s
      | Some snapC \<Rightarrow>
          let snapshot = csnap snapC;
              kept = map (\<lambda>(pid, sp). partnId sp)
                       (filter (\<lambda>(pid, sp). \<not> list_ex (\<lambda>p. p = partnId sp) partitions)
                          (partns snapshot))
          in case deepCloneIndexSnapshot snapshot True kept s of
               (newSnapshot, s1) \<Rightarrow>
                 reply MsgSuccess (updateSnapMapAndNotify consistent now newSnapshot s1))"

text \<open>
  \<open>handleIndexMergeSnapshot\<close>. \<open>mergeSnapshots\<close> is the end of its validation, after the
  three checks: the target is cloned whole, the source is cloned for the listed
  partitions, and these are moved into the clone of the target.
\<close>

definition mergeSnapshots ::
  "indexSnapshot \<Rightarrow> indexSnapshot \<Rightarrow> PartitionId list \<Rightarrow> storageMgr \<Rightarrow> indexSnapshot \<times> storageMgr" where
  "mergeSnapshots source target partitions s =
     (case deepCloneIndexSnapshot target False [] s of
        (target', s1) \<Rightarrow>
          if length partitions \<noteq> 0 then
            (case deepCloneIndexSnapshot source True partitions s1 of
               (source', s2) \<Rightarrow>
                 (target'\<lparr>partns := fold (\<lambda>(pid, sp). AList.update (partnId sp) sp)
                                      (partns source') (partns target')\<rparr>, s2))
          else (target', s1))"

definition handleIndexMergeSnapshot ::
  "(indexSnapshot \<Rightarrow> Consistency \<Rightarrow> TsVbuuid option \<Rightarrow> bool) \<Rightarrow> nat \<Rightarrow> IndexInstId \<Rightarrow> IndexInstId \<Rightarrow>
   PartitionId list \<Rightarrow> storageMgr \<Rightarrow> storageMgr" where
  "handleIndexMergeSnapshot consistent now srcInstId tgtInstId partitions s =
     (case indexSnapMap s srcInstId of
        None \<Rightarrow> reply MsgSuccess s
      | Some sourceC \<Rightarrow>
          let source = csnap sourceC in
          case indexSnapMap s tgtInstId of
            None \<Rightarrow>
              (case deepCloneIndexSnapshot source False [] s of
                 (target, s1) \<Rightarrow>
                   reply MsgSuccess (updateSnapMapAndNotify consistent now target s1))
          | Some targetC \<Rightarrow>
              let target = csnap targetC in
              if \<not> EqualOrGreater (ts source) (ts target) False then
                reply (MsgError ERROR_STORAGE_MGR_MERGE_SNAPSHOT_FAIL FATAL STORAGE_MGR
                         (TimestampMismatch (ts target) (ts source))) s
              else if length (partns source) \<noteq> 0
                      \<and> (let count = length (filter (\<lambda>p. list_ex (\<lambda>(pid, sp). p = partnId sp)
                                                          (partns source)) partitions)
                         in count \<noteq> length partitions \<or> count \<noteq> length (partns source))
              then
                reply (MsgError ERROR_STORAGE_MGR_MERGE_SNAPSHOT_FAIL FATAL STORAGE_MGR
                         (MissingPartitions srcInstId partitions)) s
              else
                (case (if length (partns source) \<noteq> 0
                       then find (\<lambda>(pid, sp). list_ex (\<lambda>(tid, tp). partnId tp = partnId sp)
                                                (partns target)) (partns source)
                       else None) of
                   Some (pid, sp) \<Rightarrow>
                     reply (MsgError ERROR_STORAGE_MGR_MERGE_SNAPSHOT_FAIL FATAL STORAGE_MGR
                              (DuplicatePartition (partnId sp) srcInstId tgtInstId)) s
                 | None \<Rightarrow>
                     (case mergeSnapshots source target partitions s of
                        (merged, s2) \<Rightarrow>
                          reply MsgSuccess (updateSnapMapAndNotify consistent now merged s2))))"

subsection \<open>Rollback\<close>

text \<open>
  Modelled from the spec: \<open>HasZeroSeqNum\<close>, \<open>Equal\<close> and the snapshot info container
  (\<open>List\<close>, \<open>GetLatest\<close>, \<open>GetOlderThanTS\<close>) are not among the source files. By the
  spec a rollback timestamp has a zero sequence number when the upstream "asked for
  complete rewind of some vb"; timestamps are vectors of sequence number and vbuuid; the
  container lists the infos newest first, and \<open>GetOlderThanTS\<close> picks "the newest info
  with \<open>info.ts \<le> rollbackTs\<close>" on every vb.
\<close>

definition HasZeroSeqNum :: "TsVbuuid \<Rightarrow> bool" where
  "HasZeroSeqNum t = list_ex (\<lambda>seq. seq = 0) (Seqnos t)"

definition Equal :: "TsVbuuid \<Rightarrow> TsVbuuid \<Rightarrow> bool" where
  "Equal a b = (Seqnos a = Seqnos b \<and> Vbuuids a = Vbuuids b)"

definition GetLatest :: "SnapshotInfo list \<Rightarrow> SnapshotInfo option" where
  "GetLatest infos = (case infos of [] \<Rightarrow> None | info # rest \<Rightarrow> Some info)"

definition olderThanTS :: "TsVbuuid \<Rightarrow> SnapshotInfo \<Rightarrow> bool" where
  "olderThanTS t info = list_all2 (\<lambda>x y. x \<le> y) (Seqnos (infoTimestamp info)) (Seqnos t)"

definition GetOlderThanTS :: "SnapshotInfo list \<Rightarrow> TsVbuuid \<Rightarrow> SnapshotInfo option" where
  "GetOlderThanTS infos t = find (olderThanTS t) infos"

datatype 'a orPanic = Panics | Returns 'a

text \<open>
  The loop of \<open>findRollbackSnapshot\<close> over the infos when the slice has a last rollback
  timestamp: the info after the one used last, if there is one.
\<close>

fun nextAfterLastUsed :: "TsVbuuid \<Rightarrow> SnapshotInfo list \<Rightarrow> SnapshotInfo option" where
  "nextAfterLastUsed lastRollbackTs [] = None"
| "nextAfterLastUsed lastRollbackTs (si # rest) =
     (if Equal lastRollbackTs (infoTimestamp si)
      then (case rest of [] \<Rightarrow> None | nxt # older \<Rightarrow> Some nxt)
      else nextAfterLastUsed lastRollbackTs rest)"

definition findRollbackSnapshot :: "Slice \<Rightarrow> TsVbuuid \<Rightarrow> SnapshotInfo option orPanic" where
  "findRollbackSnapshot slc rollbackTs =
     (case GetSnapshots slc of
        Inl err \<Rightarrow> Panics
      | Inr infos \<Rightarrow>
          if list_ex IsOSOSnap infos then Returns None
          else if HasZeroSeqNum rollbackTs then
            (let lastRollbackTs = LastRollbackTs slc;
                 latestSnapInfo = GetLatest infos
             in case (latestSnapInfo, lastRollbackTs) of
                  (Some latest, Some lastTs) \<Rightarrow> Returns (nextAfterLastUsed lastTs infos)
                | other \<Rightarrow> Returns latestSnapInfo)
          else Returns (GetOlderThanTS infos rollbackTs))"

text \<open>\<open>rollbackToSnapshot\<close> returns the restart timestamp and the error.\<close>

definition rollbackToSnapshot ::
  "Slice \<Rightarrow> SnapshotInfo option \<Rightarrow> bool \<Rightarrow> storageMgr \<Rightarrow>
   (TsVbuuid option \<times> error option) \<times> storageMgr" where
  "rollbackToSnapshot slc snapInfo markAsUsed s =
     (case snapInfo of
        Some info \<Rightarrow>
          (let err = Rollback slc info;
               s1 = called (CallRollback (Id slc) info err) s
           in case err of
                None \<Rightarrow>
                  (let restartTs = infoTimestamp info
                   in ((Some restartTs, None),
                       if markAsUsed
                       then called (CallSetLastRollbackTs (Id slc) (Some restartTs)) s1
                       else s1))
              | Some e \<Rightarrow> ((None, Some e), s1))
      | None \<Rightarrow>
          (let err = RollbackToZero slc;
               s1 = called (CallRollbackToZero (Id slc) err) s
           in case err of
                None \<Rightarrow> ((None, None), called (CallSetLastRollbackTs (Id slc) None) s1)
              | Some e \<Rightarrow> ((None, Some e), s1)))"

text \<open>
  What \<open>rollbackIndex\<close> does for one slice: it searches the snapshot to roll back to and
  rolls the slice back to it.
\<close>

definition rollbackSlice ::
  "Slice \<Rightarrow> TsVbuuid \<Rightarrow> bool \<Rightarrow> storageMgr \<Rightarrow>
   (TsVbuuid option \<times> error option) orPanic \<times> storageMgr" where
  "rollbackSlice slc rollbackTs markAsUsed s =
     (case findRollbackSnapshot slc rollbackTs of
        Panics \<Rightarrow> (Panics, s)
      | Returns snapInfo \<Rightarrow>
          (case rollbackToSnapshot slc snapInfo markAsUsed s of
             (r, s') \<Rightarrow> (Returns r, s')))"



text \<open>\<open>rollbackAllToZero\<close>: every slice of every instance of the keyspace and stream.\<close>

fun rollbackSlicesToZero :: "Slice list \<Rightarrow> storageMgr \<Rightarrow> error option \<times> storageMgr" where
  "rollbackSlicesToZero [] s = (None, s)"
| "rollbackSlicesToZero (slc # rest) s =
     (case rollbackToSnapshot slc None False s of
        ((restartTs, Some err), s') \<Rightarrow> (Some err, s')
      | ((restartTs, None), s') \<Rightarrow> rollbackSlicesToZero rest s')"


definition partnMapOf :: "storageMgr \<Rightarrow> IndexInstId \<Rightarrow> PartitionInst list" where
  "partnMapOf s idxInstId = (case indexPartnMap s idxInstId of None \<Rightarrow> [] | Some pm \<Rightarrow> pm)"



subsection \<open>Rebuilding the snapshot containers, and the end of a rollback\<close>

definition notifySnapshotDeletion :: "IndexInstId \<Rightarrow> storageMgr \<Rightarrow> storageMgr" where
  "notifySnapshotDeletion i s = s\<lparr>snapshotNotifych := snapshotNotifych s @ [SnapshotDeleted i]\<rparr>"

text \<open>
  The loop of \<open>openSnapshot\<close> over the snapshot infos of slice 0: the first one that
  opens is used; a corrupted one is passed over, any other error panics.
\<close>

fun openFirstUsable ::
  "Slice \<Rightarrow> SnapshotInfo list \<Rightarrow> storageMgr \<Rightarrow>
   (SnapshotInfo \<times> Snapshot) option orPanic \<times> storageMgr" where
  "openFirstUsable slc [] s = (Returns None, s)"
| "openFirstUsable slc (snapInfo # rest) s =
     (let r = OpenSnapshot slc snapInfo;
          s1 = called (CallOpenSnapshot (Id slc) snapInfo r) s
      in case r of
           Inl err \<Rightarrow> if err = errStorageCorrupted then openFirstUsable slc rest s1
                      else (Panics, s1)
         | Inr usableSnapshot \<Rightarrow>
             (Returns (Some (snapInfo, usableSnapshot)), Open usableSnapshot s1))"

text \<open>
  \<open>openSnapshot\<close> returns the partition snapshot map (\<open>None\<close> is the nil map), the
  timestamp and the error. \<open>GetSliceById(0)\<close> on a container without slice 0 is nil, and
  the call on it panics.
\<close>

definition openSnapshot ::
  "PartitionInst \<Rightarrow> (PartitionId \<times> partitionSnapshot) list \<Rightarrow> storageMgr \<Rightarrow>
   ((PartitionId \<times> partitionSnapshot) list option \<times> TsVbuuid option \<times> error option) orPanic
   \<times> storageMgr" where
  "openSnapshot partnInst partnSnapMap s =
     (let pid = GetPartitionId partnInst in
      case find (\<lambda>slc. Id slc = 0) (GetAllSlices partnInst) of
        None \<Rightarrow> (Panics, s)
      | Some slc \<Rightarrow>
          (case GetSnapshots slc of
             Inl err \<Rightarrow> (Panics, s)
           | Inr allSnapShots \<Rightarrow>
               (case openFirstUsable slc allSnapShots s of
                  (Panics, s') \<Rightarrow> (Panics, s')
                | (Returns (Some (snapInfo, usableSnapshot)), s') \<Rightarrow>
                    (Returns
                       (Some (AList.update pid
                                \<lparr>partnId = pid,
                                 slices = [(0, \<lparr>sliceId = 0, snap = usableSnapshot\<rparr>)]\<rparr>
                                partnSnapMap),
                        Some (infoTimestamp snapInfo), None), s')
                | (Returns None, s') \<Rightarrow>
                    if allSnapShots = [] then (Returns (None, None, None), s')
                    else (Returns (Some partnSnapMap, None, Some errStorageCorrupted), s'))))"

text \<open>
  The loop of \<open>updateIndexSnapMapForIndex\<close> over the partitions; \<open>partnMap\<close> is the whole
  map, for the rollback to zero that an OSO snapshot brings about.
\<close>

fun openPartitions ::
  "PartitionInst list \<Rightarrow> PartitionInst list \<Rightarrow> (PartitionId \<times> partitionSnapshot) list \<Rightarrow>
   TsVbuuid option \<Rightarrow> bool \<Rightarrow> storageMgr \<Rightarrow>
   ((PartitionId \<times> partitionSnapshot) list option \<times> TsVbuuid option \<times> bool) orPanic
   \<times> storageMgr" where
  "openPartitions partnMap [] partnSnapMap tsVbuuid needRestart s =
     (Returns (Some partnSnapMap, tsVbuuid, needRestart), s)"
| "openPartitions partnMap (partnInst # rest) partnSnapMap tsVbuuid needRestart s =
     (case openSnapshot partnInst partnSnapMap s of
        (Panics, s') \<Rightarrow> (Panics, s')
      | (Returns (m, tsVbuuid', Some err), s') \<Rightarrow>
          if err = errStorageCorrupted then
            (case m of
               None \<Rightarrow> (Returns (None, tsVbuuid', True), s')
             | Some partnSnapMap' \<Rightarrow>
                 openPartitions partnMap rest partnSnapMap' tsVbuuid' True s')
          else (Panics, s')
      | (Returns (None, tsVbuuid', None), s') \<Rightarrow> (Returns (None, tsVbuuid', needRestart), s')
      | (Returns (Some partnSnapMap', None, None), s') \<Rightarrow>
          openPartitions partnMap rest partnSnapMap' None needRestart s'
      | (Returns (Some partnSnapMap', Some t, None), s') \<Rightarrow>
          if SnapType t = DISK_SNAP_OSO then
            (case rollbackSlicesToZero (concat (map GetAllSlices partnMap)) s' of
               (Some err, s'') \<Rightarrow> (Panics, s'')
             | (None, s'') \<Rightarrow> (Returns (None, Some t, needRestart), s''))
          else openPartitions partnMap rest partnSnapMap' (Some t) needRestart s')"

text \<open>
  \<open>updateIndexSnapMapForIndex\<close>. \<open>SplitKeyspaceId\<close> is not among the source files; its
  first result is the parameter \<open>bucket\<close>. When a partition has no usable snapshot the
  source installs what it has and ends the process with \<open>os.Exit(1)\<close>: the model ends
  there. Without that, a map with entries comes with a timestamp.
\<close>

definition updateIndexSnapMapForIndex ::
  "string \<Rightarrow> IndexInstId \<Rightarrow> IndexInst \<Rightarrow> PartitionInst list \<Rightarrow> StreamId \<Rightarrow> string \<Rightarrow>
   storageMgr \<Rightarrow> outcome \<times> storageMgr" where
  "updateIndexSnapMapForIndex bucket i idxInst partnMap streamId keyspaceId s =
     (if keyspaceId \<noteq> [] \<and> streamId \<noteq> ALL_STREAMS
         \<and> (KeyspaceId idxInst \<noteq> keyspaceId \<or> Stream idxInst \<noteq> streamId
            \<or> State idxInst = INDEX_STATE_DELETED)
      then (Done, s)
      else
        let snapC = indexSnapMap s i;
            s1 = (case snapC of
                    None \<Rightarrow> s
                  | Some sc \<Rightarrow>
                      (let d = DestroyIndexSnapshot (csnap sc) s
                       in notifySnapshotDeletion i
                            (d\<lparr>indexSnapMap := (indexSnapMap d)(i := None)\<rparr>)))
        in case openPartitions partnMap partnMap [] None False s1 of
             (Panics, s2) \<Rightarrow> (Crashed, s2)
           | (Returns (m, tsVbuuid, needRestart), s2) \<Rightarrow>
               if needRestart then (Crashed, s2)
               else
                 (case (m, tsVbuuid) of
                    (Some (e # es), Some t) \<Rightarrow>
                      (let is = \<lparr>instId = i, ts = t, partns = e # es, epoch = False\<rparr>;
                           newC = (case snapC of
                                     None \<Rightarrow> \<lparr>csnap = is, deleted = False\<rparr>
                                   | Some sc \<Rightarrow> sc\<lparr>csnap := is\<rparr>)
                       in (Done, notifySnapshotCreation is
                                   (s2\<lparr>indexSnapMap := (indexSnapMap s2)(i \<mapsto> newC)\<rparr>)))
                  | other \<Rightarrow> (Done, addNilSnapshot i bucket s2)))"

text \<open>
  The end of \<open>handleRollback\<close>. After the slices are rolled back the function starts a
  goroutine that sends \<open>ErrIndexRollback\<close> to the waiters of the instances of the
  keyspace and stream, and itself goes on to \<open>updateIndexSnapMap\<close> and to the
  \<open>MsgRollbackDone\<close> for the supervisor; it does not wait for the goroutine. A step is
  what one of the two does for one instance under the lock it holds: the goroutine
  empties the waiter container of an instance, the function rebuilds the snapshot
  container of an instance. The two never take the same lock, so a run is a list of
  steps in which the steps of each keep their order.
\<close>

datatype step = Drain IndexInstId | Reconstruct IndexInstId | RollbackDone

definition drainWaiters :: "StreamId \<Rightarrow> string \<Rightarrow> IndexInstId \<Rightarrow> storageMgr \<Rightarrow> storageMgr" where
  "drainWaiters streamId keyspaceId i s =
     (case (waitersMap s i, indexInstMap s i) of
        (Some waiters, Some idxInst) \<Rightarrow>
          if KeyspaceId idxInst = keyspaceId \<and> Stream idxInst = streamId then
            s\<lparr>waiterReplies := waiterReplies s @
                  map (\<lambda>w. (wch w, ReplyError ErrIndexRollback)) waiters,
              waitersMap := (waitersMap s)(i \<mapsto> [])\<rparr>
          else s
      | other \<Rightarrow> s)"

text \<open>
  An instance that the instance map does not have reads as the zero \<open>IndexInst\<close>, which
  is of no keyspace that is rolled back.
\<close>

definition runStep ::
  "(string \<Rightarrow> string) \<Rightarrow> Message \<Rightarrow> StreamId \<Rightarrow> string \<Rightarrow> step \<Rightarrow> storageMgr \<Rightarrow>
   outcome \<times> storageMgr" where
  "runStep SplitKeyspaceId done streamId keyspaceId st s =
     (case st of
        Drain i \<Rightarrow> (Done, drainWaiters streamId keyspaceId i s)
      | Reconstruct i \<Rightarrow>
          (case indexInstMap s i of
             None \<Rightarrow> (Done, s)
           | Some idxInst \<Rightarrow>
               updateIndexSnapMapForIndex (SplitKeyspaceId keyspaceId) i idxInst
                 (partnMapOf s i) streamId keyspaceId s)
      | RollbackDone \<Rightarrow> (Done, s\<lparr>supvRespch := supvRespch s @ [done]\<rparr>))"

fun runSteps ::
  "(string \<Rightarrow> string) \<Rightarrow> Message \<Rightarrow> StreamId \<Rightarrow> string \<Rightarrow> step list \<Rightarrow> storageMgr \<Rightarrow>
   outcome \<times> storageMgr" where
  "runSteps SplitKeyspaceId done streamId keyspaceId [] s = (Done, s)"
| "runSteps SplitKeyspaceId done streamId keyspaceId (st # rest) s =
     (case runStep SplitKeyspaceId done streamId keyspaceId st s of
        (Done, s') \<Rightarrow> runSteps SplitKeyspaceId done streamId keyspaceId rest s'
      | (Crashed, s') \<Rightarrow> (Crashed, s'))"





subsection \<open>Reading the record of the calls\<close>

text \<open>
  The error that a call of \<open>NewSnapshot\<close> or \<open>OpenSnapshot\<close> returned, with the slice;
  and what a function leaves alone when it only counts references, calls slices and
  logs errors.
\<close>

fun returnedError :: "sliceCall \<Rightarrow> (SliceId \<times> error) option" where
  "returnedError (CallNewSnapshot sid t commit (Inl err)) = Some (sid, err)"
| "returnedError (CallOpenSnapshot sid info (Inl err)) = Some (sid, err)"
| "returnedError c = None"

definition publishedAlike :: "storageMgr \<Rightarrow> storageMgr \<Rightarrow> bool" where
  "publishedAlike s s' =
     (indexInstMap s' = indexInstMap s \<and> indexPartnMap s' = indexPartnMap s
      \<and> indexSnapMap s' = indexSnapMap s \<and> waitersMap s' = waitersMap s
      \<and> snapshotNotifych s' = snapshotNotifych s \<and> waiterReplies s' = waiterReplies s
      \<and> supvCmdch s' = supvCmdch s \<and> supvRespch s' = supvRespch s
      \<and> numVbuckets s' = numVbuckets s)"

text \<open>
  What a part of a creation pass does, from the variables \<open>v\<close> and the state \<open>s\<close> to
  \<open>v'\<close> and \<open>s'\<close>, ending in the flow \<open>f\<close>: it calls slices; it logs exactly the errors
  that \<open>NewSnapshot\<close> and \<open>OpenSnapshot\<close> returned; \<open>isSnapCreated\<close> stays true as long as
  there were none; an aborted flush calls neither; only an aborted flush returns early;
  and the published maps and channels stay as they are.
\<close>

definition sliceInv ::
  "bool \<Rightarrow> loopVars \<Rightarrow> storageMgr \<Rightarrow> flow \<Rightarrow> loopVars \<Rightarrow> storageMgr \<Rightarrow> bool" where
  "sliceInv aborted v s f v' s' =
     (\<exists>new. sliceCalls s' = sliceCalls s @ new
        \<and> errorLog s' = errorLog s @ List.map_filter returnedError new
        \<and> isSnapCreated v' = (isSnapCreated v \<and> List.map_filter returnedError new = [])
        \<and> (aborted \<longrightarrow> List.map_filter returnedError new = [])
        \<and> (f = Return \<longrightarrow> aborted)
        \<and> publishedAlike s s')"

text \<open>
  What \<open>CrashOnError\<close> does to a part of a creation pass: when it does not return for an
  error that a call of a slice returned, the part ends there in a panic, and that call
  is the last call of a slice.
\<close>

definition crashInv :: "(error \<Rightarrow> bool) \<Rightarrow> storageMgr \<Rightarrow> flow \<Rightarrow> storageMgr \<Rightarrow> bool" where
  "crashInv CrashOnError s f s' =
     (\<exists>new. sliceCalls s' = sliceCalls s @ new
        \<and> (\<forall>c \<in> set new. \<forall>sid err.
              returnedError c = Some (sid, err) \<and> CrashOnError err \<longrightarrow>
                f = Panic \<and> (\<exists>before. new = before @ [c])))"

text \<open>
  A snapshot tree is well formed when its association lists are maps as the Go maps are
  (no key twice) and every partition snapshot is filed under its own id, as all the
  functions that build snapshots file them.
\<close>

definition wellFormed :: "indexSnapshot \<Rightarrow> bool" where
  "wellFormed is =
     (distinct (map fst (partns is))
      \<and> list_all (\<lambda>(pid, sp). partnId sp = pid \<and> distinct (map fst (slices sp))) (partns is))"

text \<open>
  The invariant of claim C8 for the hash \<open>HashVbuuid\<close>: in every snapshot container the
  checksum of the timestamp of the snapshot is the hash of its vbuuids.
\<close>

definition crcInvariant :: "(nat list \<Rightarrow> nat) \<Rightarrow> storageMgr \<Rightarrow> bool" where
  "crcInvariant HashVbuuid s =
     (\<forall>sc \<in> ran (indexSnapMap s).
        Crc64 (ts (csnap sc)) = HashVbuuid (Vbuuids (ts (csnap sc))))"


fun drainsOf :: "step list \<Rightarrow> IndexInstId list" where
  "drainsOf [] = []"
| "drainsOf (Drain i # rest) = i # drainsOf rest"
| "drainsOf (st # rest) = drainsOf rest"


definition waitersAlike :: "storageMgr \<Rightarrow> storageMgr \<Rightarrow> bool" where
  "waitersAlike s s' =
     (waitersMap s' = waitersMap s \<and> waiterReplies s' = waiterReplies s
      \<and> indexInstMap s' = indexInstMap s)"

section \<open>Scan planner: composing the scans of a request\<close>

text \<open>
  The inclusions and the scan types. The type \<open>Inclusion\<close> and its values belong to a
  file that is not among the sources; these four are the ones the source names, and the
  zero value, which \<open>getScanAll\<close> leaves in its scan, is taken to be the first of the
  inclusion matrix, \<open>Neither\<close>. A \<open>ScanFilterType\<close> is a string.
\<close>

datatype Inclusion = Neither | Low | High | Both

type_synonym ScanFilterType = string

definition AllReq :: ScanFilterType where
  "AllReq = ''scanAll''"

definition LookupReq :: ScanFilterType where
  "LookupReq = ''lookup''"

definition RangeReq :: ScanFilterType where
  "RangeReq = ''range''"

definition FilterRangeReq :: ScanFilterType where
  "FilterRangeReq = ''filterRange''"

text \<open>
  The structs of the planner. The keys of a \<open>Scan\<close> can be nil: \<open>getScanAll\<close> sets
  none, and \<open>getEmptyScan\<close> drops the error of \<open>newKey\<close>. The keys of a filter are set
  wherever the planner builds one. The fields \<open>Low\<close>, \<open>High\<close> and \<open>Inclusion\<close>, which
  several structs share, carry the initials of their struct.
\<close>

record CompositeElementFilter =
  cefLow :: IndexKey
  cefHigh :: IndexKey
  cefInclusion :: Inclusion

record Filter =
  CompositeFilters :: "CompositeElementFilter list"
  fLow :: IndexKey
  fHigh :: IndexKey
  fInclusion :: Inclusion
  fScanType :: ScanFilterType

record Scan =
  sLow :: "IndexKey option"
  sHigh :: "IndexKey option"
  Incl :: Inclusion
  ScanType :: ScanFilterType
  Filters :: "Filter list"
  Equals :: "IndexKey option"

text \<open>
  The request as the client sent it: a \<open>protobuf.Scan\<close> has filters and equals, whose
  keys are byte slices that can be nil.
\<close>

record protoFilter =
  pLow :: "byte list option"
  pHigh :: "byte list option"
  pInclusion :: Inclusion

record protoScan =
  pFilters :: "protoFilter list"
  pEquals :: "byte list option list"

text \<open>
  What \<open>fillScans\<close> reads of the \<open>ScanRequest\<close>: whether the index is primary, the keys
  and the range of a request without scans, and of the index definition which of its
  keys are descending.
\<close>

record ScanRequest =
  isPrimary :: bool
  Keys :: "IndexKey list"
  rLow :: "IndexKey option"
  rHigh :: "IndexKey option"
  rIncl :: Inclusion
  HasDescending :: bool
  Desc :: "bool list"

text \<open>
  The errors of planning: \<open>newKey\<close> refuses a nil key, the key constructors and the
  collation codec return errors of their own, and \<open>fmt.Errorf\<close> wraps an error in a
  message that names the key.
\<close>

datatype planError =
  KeyIsNull
  | CodecError string
  | InvalidKey string "byte list option" planError
  | ErrorInForming string planError
  | ErrorInJoining planError

text \<open>
  The code that the planner calls and that is not among the sources: the constructors
  of primary and secondary keys, which return the bytes of the key or an error; the
  collation codec, which joins the bytes of keys and reverses the collation of the
  descending ones; the two comparisons of keys; and \<open>sort.Sort\<close> of the Go library, for
  the filters with \<open>FilterLessThan\<close> and for the index points with
  \<open>IndexPointLessThan\<close>.
\<close>

record externals =
  NewPrimaryKey :: "byte list \<Rightarrow> planError + byte list"
  NewSecondaryKey :: "byte list \<Rightarrow> planError + byte list"
  JoinArray :: "byte list list \<Rightarrow> planError + byte list"
  ReverseCollate :: "byte list \<Rightarrow> bool list \<Rightarrow> planError + byte list"
  CompareIndexKey :: "IndexKey \<Rightarrow> IndexKey \<Rightarrow> int"
  ComparePrefix :: "IndexKey \<Rightarrow> IndexKey \<Rightarrow> int"
  sortFilters :: "Filter list \<Rightarrow> Filter list"
  sortPoints :: "IndexPoint list \<Rightarrow> IndexPoint list"

definition isNil :: "ScanRequest \<Rightarrow> byte list option \<Rightarrow> bool" where
  "isNil r k = (k = None \<or> (\<not> isPrimary r \<and> k = Some [0x5B, 0x5D]))"

definition newKey :: "externals \<Rightarrow> ScanRequest \<Rightarrow> byte list option \<Rightarrow> planError + IndexKey" where
  "newKey c r k =
     (case k of
        None \<Rightarrow> Inl KeyIsNull
      | Some bs \<Rightarrow>
          (case (if isPrimary r then NewPrimaryKey c bs else NewSecondaryKey c bs) of
             Inl e \<Rightarrow> Inl e
           | Inr enc \<Rightarrow> Inr (Key enc)))"

definition newLowKey :: "externals \<Rightarrow> ScanRequest \<Rightarrow> byte list option \<Rightarrow> planError + IndexKey" where
  "newLowKey c r k = (if isNil r k then Inr MinIndexKey else newKey c r k)"

definition newHighKey :: "externals \<Rightarrow> ScanRequest \<Rightarrow> byte list option \<Rightarrow> planError + IndexKey" where
  "newHighKey c r k = (if isNil r k then Inr MaxIndexKey else newKey c r k)"

definition areFiltersNil :: "ScanRequest \<Rightarrow> protoScan \<Rightarrow> bool" where
  "areFiltersNil r ps = list_all (\<lambda>f. isNil r (pLow f) \<and> isNil r (pHigh f)) (pFilters ps)"

definition getEmptyScan :: "externals \<Rightarrow> ScanRequest \<Rightarrow> Scan" where
  "getEmptyScan c r =
     (let key = (case newKey c r (Some []) of Inl e \<Rightarrow> None | Inr k \<Rightarrow> Some k)
      in \<lparr>sLow = key, sHigh = key, Incl = Neither, ScanType = RangeReq, Filters = [],
          Equals = None\<rparr>)"

definition getScanAll :: Scan where
  "getScanAll =
     \<lparr>sLow = None, sHigh = None, Incl = Neither, ScanType = AllReq, Filters = [],
      Equals = None\<rparr>"

definition IndexKeyLessThan :: "IndexKey \<Rightarrow> IndexKey \<Rightarrow> bool" where
  "IndexKeyLessThan a b =
     (if a = MinIndexKey then True
      else if a = MaxIndexKey then False
      else if b = MinIndexKey then False
      else if b = MaxIndexKey then True
      else bytes_Compare (Bytes a) (Bytes b) < 0)"

definition FilterLessThan :: "(IndexKey \<Rightarrow> IndexKey \<Rightarrow> int) \<Rightarrow> Filter \<Rightarrow> Filter \<Rightarrow> bool" where
  "FilterLessThan cmp x y =
     (let a = fLow x; b = fLow y in
      if a = MinIndexKey then True
      else if a = MaxIndexKey then False
      else if b = MinIndexKey then False
      else if b = MaxIndexKey then True
      else if cmp a b < 0 then True
      else False)"

definition flipInclusion :: "Inclusion \<Rightarrow> bool list \<Rightarrow> Inclusion" where
  "flipInclusion incl desc =
     (if desc \<noteq> [] \<and> hd desc then
        (if incl = Low then High else if incl = High then Low else incl)
      else incl)"

subsection \<open>The overall keys of a filter\<close>

text \<open>
  \<open>fillFilterLowHigh\<close> returns an error or stores the overall low and high key in the
  filter; here it returns the two keys. Without descending keys it reads the first
  composite filter, which panics when there is none. With descending keys it reads
  \<open>Desc[i]\<close> for every composite filter before it joins anything, which panics when
  \<open>Desc\<close> is shorter than the filters are. \<open>joinKeys\<close> and \<open>getReverseCollatedIndexKey\<close>
  are the two steps of \<open>reverseJoined\<close>.
\<close>

definition joined :: "externals \<Rightarrow> string \<Rightarrow> byte list list \<Rightarrow> planError + IndexKey" where
  "joined c which keys =
     (case JoinArray c keys of
        Inl e \<Rightarrow> Inl (ErrorInForming which e)
      | Inr bs \<Rightarrow> Inr (Key bs))"

definition reverseJoined :: "externals \<Rightarrow> ScanRequest \<Rightarrow> IndexKey list \<Rightarrow> planError + IndexKey" where
  "reverseJoined c r ks =
     (case JoinArray c (map Bytes ks) of
        Inl e \<Rightarrow> Inl (ErrorInJoining e)
      | Inr bs \<Rightarrow>
          (case ReverseCollate c bs (take (length ks) (Desc r)) of
             Inl e \<Rightarrow> Inl e
           | Inr reversed \<Rightarrow> Inr (Key reversed)))"

definition fillFilterLowHigh ::
  "externals \<Rightarrow> ScanRequest \<Rightarrow> CompositeElementFilter list \<Rightarrow>
   (planError + IndexKey \<times> IndexKey) orPanic" where
  "fillFilterLowHigh c r compFilters =
     (if \<not> HasDescending r then
        (case compFilters of
           [] \<Rightarrow> Panics
         | first # others \<Rightarrow>
             (case (if cefLow first = MinIndexKey then Inr MinIndexKey
                    else joined c ''low''
                           (map (\<lambda>f. Bytes (cefLow f))
                              (takeWhile (\<lambda>f. cefLow f \<noteq> MinIndexKey) compFilters))) of
                Inl e \<Rightarrow> Returns (Inl e)
              | Inr low \<Rightarrow>
                  (case (if cefHigh first = MaxIndexKey then Inr MaxIndexKey
                         else joined c ''high''
                                (map (\<lambda>f. Bytes (cefHigh f))
                                   (takeWhile (\<lambda>f. cefHigh f \<noteq> MaxIndexKey) compFilters))) of
                     Inl e \<Rightarrow> Returns (Inl e)
                   | Inr high \<Rightarrow> Returns (Inr (low, high)))))
      else if length (Desc r) < length compFilters then Panics
      else
        (let lows2 = map (\<lambda>(d, f). if d then cefHigh f else cefLow f) (zip (Desc r) compFilters);
             highs2 = map (\<lambda>(d, f). if d then cefLow f else cefHigh f) (zip (Desc r) compFilters);
             lows3 = takeWhile (\<lambda>k. k \<noteq> MinIndexKey \<and> k \<noteq> MaxIndexKey) lows2;
             highs3 = takeWhile (\<lambda>k. k \<noteq> MinIndexKey \<and> k \<noteq> MaxIndexKey) highs2
         in (case (if lows3 \<noteq> [] then reverseJoined c r lows3 else Inr MinIndexKey) of
               Inl e \<Rightarrow> Returns (Inl e)
             | Inr lowKey \<Rightarrow>
                 (case (if highs3 \<noteq> [] then reverseJoined c r highs3 else Inr MaxIndexKey) of
                    Inl e \<Rightarrow> Returns (Inl e)
                  | Inr highKey \<Rightarrow> Returns (Inr (lowKey, highKey))))))"

text \<open>
  \<open>fillFilterEquals\<close>: the lookup filter of a scan with equals. With descending keys it
  slices \<open>Desc\<close> to the number of the keys, which panics when \<open>Desc\<close> is shorter (its
  capacity is taken to be its length).
\<close>

fun equalKeys :: "externals \<Rightarrow> ScanRequest \<Rightarrow> byte list option list \<Rightarrow> planError + byte list list" where
  "equalKeys c r [] = Inr []"
| "equalKeys c r (k # ks) =
     (case newKey c r k of
        Inl e \<Rightarrow> Inl (InvalidKey ''equal'' k e)
      | Inr key \<Rightarrow>
          (case equalKeys c r ks of
             Inl e \<Rightarrow> Inl e
           | Inr rest \<Rightarrow> Inr (Bytes key # rest)))"

definition lookupFilter :: "byte list list \<Rightarrow> byte list \<Rightarrow> Filter" where
  "lookupFilter equals eqKey =
     \<lparr>CompositeFilters =
        map (\<lambda>k. \<lparr>cefLow = Key k, cefHigh = Key k, cefInclusion = Both\<rparr>) equals,
      fLow = Key eqKey, fHigh = Key eqKey, fInclusion = Both, fScanType = LookupReq\<rparr>"

definition fillFilterEquals ::
  "externals \<Rightarrow> ScanRequest \<Rightarrow> protoScan \<Rightarrow> (planError + Filter) orPanic" where
  "fillFilterEquals c r ps =
     (case equalKeys c r (pEquals ps) of
        Inl e \<Rightarrow> Returns (Inl e)
      | Inr equals \<Rightarrow>
          (case JoinArray c equals of
             Inl e \<Rightarrow> Returns (Inl (ErrorInForming ''equals'' e))
           | Inr equalsKey \<Rightarrow>
               if \<not> HasDescending r then Returns (Inr (lookupFilter equals equalsKey))
               else if length (Desc r) < length equals then Panics
               else
                 (case ReverseCollate c equalsKey (take (length equals) (Desc r)) of
                    Inl e \<Rightarrow> Returns (Inl e)
                  | Inr eqReverse \<Rightarrow> Returns (Inr (lookupFilter equals eqReverse)))))"

subsection \<open>Scans of a secondary index from the sorted index points\<close>

text \<open>
  A nil key has no method and no bytes: comparing one panics. \<open>filtersAt\<close> is
  \<open>filters[fl]\<close> for the ids of the list, which panics out of range.
\<close>

definition comparePrefix ::
  "externals \<Rightarrow> IndexKey option \<Rightarrow> IndexKey option \<Rightarrow> int orPanic" where
  "comparePrefix c a b =
     (case (a, b) of
        (Some x, Some y) \<Rightarrow> Returns (ComparePrefix c x y)
      | other \<Rightarrow> Panics)"

definition filtersAt :: "Filter list \<Rightarrow> int list \<Rightarrow> Filter list option" where
  "filtersAt filters ids =
     (if list_all (\<lambda>i. 0 \<le> i \<and> i < int (length filters)) ids
      then Some (map (\<lambda>i. filters ! nat i) ids) else None)"

text \<open>
  One round of the loop of \<open>composeScans\<close> over the points, on the scans so far, the
  ids in \<open>filtersMap\<close>, \<open>filtersList\<close> and \<open>low\<close>.
\<close>

definition composePoint ::
  "externals \<Rightarrow> Filter list \<Rightarrow> IndexPoint \<Rightarrow>
   Scan list \<times> int list \<times> int list \<times> IndexKey option \<Rightarrow>
   (Scan list \<times> int list \<times> int list \<times> IndexKey option) orPanic" where
  "composePoint c filters p st =
     (case st of (scans, filtersMap, filtersList, low0) \<Rightarrow>
        (let low = (if filtersMap = [] then Some (Value p) else low0);
             filterid = FilterId p
         in if filterid \<in> set filtersMap then
              (let filtersMap' = removeAll filterid filtersMap
               in if filtersMap' = [] then
                    (case filtersAt filters filtersList of
                       None \<Rightarrow> Panics
                     | Some fs \<Rightarrow>
                         (let scan = \<lparr>sLow = low, sHigh = Some (Value p), Incl = Both,
                                      ScanType = FilterRangeReq, Filters = fs, Equals = None\<rparr>
                          in if scans \<noteq> [] then
                               (case comparePrefix c (sHigh (last scans)) low of
                                  Panics \<Rightarrow> Panics
                                | Returns n \<Rightarrow>
                                    if n = 0 then
                                      Returns (butlast scans @
                                                 [(last scans)\<lparr>Filters := Filters (last scans) @ fs,
                                                               sHigh := Some (Value p)\<rparr>],
                                               filtersMap', [], low)
                                    else Returns (scans @ [scan], filtersMap', [], low))
                             else Returns (scans @ [scan], filtersMap', [], low)))
                  else Returns (scans, filtersMap', filtersList, low))
            else Returns (scans, filtersMap @ [filterid], filtersList @ [filterid], low)))"

fun composePoints ::
  "externals \<Rightarrow> Filter list \<Rightarrow> IndexPoint list \<Rightarrow>
   Scan list \<times> int list \<times> int list \<times> IndexKey option \<Rightarrow>
   (Scan list \<times> int list \<times> int list \<times> IndexKey option) orPanic" where
  "composePoints c filters [] st = Returns st"
| "composePoints c filters (p # ps) st =
     (case composePoint c filters p st of
        Panics \<Rightarrow> Panics
      | Returns st' \<Rightarrow> composePoints c filters ps st')"

definition finishScan :: "ScanRequest \<Rightarrow> Scan \<Rightarrow> Scan" where
  "finishScan r sc =
     (let sc1 = (if length (Filters sc) = 1 \<and> fScanType (hd (Filters sc)) = LookupReq
                 then sc\<lparr>Equals := sLow sc, ScanType := LookupReq\<rparr> else sc)
      in if ScanType sc1 = FilterRangeReq \<and> length (Filters sc1) = 1
            \<and> length (CompositeFilters (hd (Filters sc1))) = 1
         then sc1\<lparr>Incl := flipInclusion
                             (cefInclusion (hd (CompositeFilters (hd (Filters sc1))))) (Desc r),
                  ScanType := RangeReq\<rparr>
         else sc1)"

definition composeScans ::
  "externals \<Rightarrow> ScanRequest \<Rightarrow> IndexPoint list \<Rightarrow> Filter list \<Rightarrow> Scan list orPanic" where
  "composeScans c r points filters =
     (case composePoints c filters points ([], [], [], None) of
        Panics \<Rightarrow> Panics
      | Returns (scans, filtersMap, filtersList, low) \<Rightarrow> Returns (map (finishScan r) scans))"

subsection \<open>Scans of a primary index from the sorted filters\<close>

definition lowInclude :: "Inclusion list \<Rightarrow> nat" where
  "lowInclude lowInclusions = (if list_ex (\<lambda>incl. incl = Low \<or> incl = Both) lowInclusions then 1 else 0)"

definition highInclude :: "Inclusion list \<Rightarrow> nat" where
  "highInclude highInclusions =
     (if list_ex (\<lambda>incl. incl = High \<or> incl = Both) highInclusions then 1 else 0)"

definition inclusionMatrix :: "Inclusion list list" where
  "inclusionMatrix = [[Neither, High], [Low, Both]]"

definition getNewScans :: "Scan list \<Rightarrow> Filter \<Rightarrow> Scan list" where
  "getNewScans scans f =
     scans @ [\<lparr>sLow = Some (fLow f), sHigh = Some (fHigh f), Incl = fInclusion f,
               ScanType = RangeReq, Filters = [], Equals = None\<rparr>]"

definition MergeFiltersForPrimary :: "externals \<Rightarrow> Scan list \<Rightarrow> Filter \<Rightarrow> Scan list orPanic" where
  "MergeFiltersForPrimary c scans f2 =
     (if scans \<noteq> [] then
        (let f1 = last scans in
         case (sLow f1, sHigh f1) of
           (Some l1, Some h1) \<Rightarrow>
             (let i1 = Incl f1; l2 = fLow f2; h2 = fHigh f2; i2 = fInclusion f2 in
              if ComparePrefix c l2 h1 > 0 then Returns (getNewScans scans f2)
              else if ComparePrefix c h1 l2 = 0
                      \<and> \<not> (i1 = High \<or> i1 = Both \<or> i2 = Low \<or> i2 = Both)
              then Returns (getNewScans scans f2)
              else
                (let (low, inclLow) =
                       (if ComparePrefix c l1 l2 = 0 then (l1, lowInclude [i1, i2])
                        else if ComparePrefix c l1 l2 < 0 then (l1, lowInclude [i1])
                        else (l2, lowInclude [i2]));
                     (high, inclHigh) =
                       (if ComparePrefix c h1 h2 = 0 then (h1, highInclude [i1, i2])
                        else if ComparePrefix c h1 h2 > 0 then (h1, highInclude [i1])
                        else (h2, highInclude [i2]))
                 in Returns (butlast scans @
                              [f1\<lparr>sLow := Some low, sHigh := Some high,
                                  Incl := inclusionMatrix ! inclLow ! inclHigh\<rparr>])))
         | other \<Rightarrow> Panics)
      else Returns (getNewScans scans f2))"

fun mergeFilters :: "externals \<Rightarrow> Filter list \<Rightarrow> Scan list \<Rightarrow> Scan list orPanic" where
  "mergeFilters c [] scans = Returns scans"
| "mergeFilters c (f # fs) scans =
     (case MergeFiltersForPrimary c scans f of
        Panics \<Rightarrow> Panics
      | Returns scans' \<Rightarrow> mergeFilters c fs scans')"

subsection \<open>\<open>fillScans\<close>\<close>

text \<open>
  How a loop over the scans of the request ends: \<open>fillScans\<close> returns from inside it
  with an error, or with the single scan of \<open>getScanAll\<close>, or it panics, or the loop
  comes to its end with the scans, filters and points it has built.
\<close>

datatype 's looped = ReturnedError planError | ReturnedScanAll | Panicked | Finished 's

definition lowPoint :: "Filter list \<Rightarrow> IndexPoint" where
  "lowPoint filters =
     \<lparr>Value = fLow (last filters), FilterId = int (length filters) - 1, Type = ''low''\<rparr>"

definition highPoint :: "Filter list \<Rightarrow> IndexPoint" where
  "highPoint filters =
     \<lparr>Value = fHigh (last filters), FilterId = int (length filters) - 1, Type = ''high''\<rparr>"

text \<open>
  One round of the loop for a primary index. Of the filters of a scan it reads the
  first one only.
\<close>

definition primaryScan ::
  "externals \<Rightarrow> ScanRequest \<Rightarrow> protoScan \<Rightarrow> Scan list \<times> Filter list \<times> IndexPoint list \<Rightarrow>
   (Scan list \<times> Filter list \<times> IndexPoint list) looped" where
  "primaryScan c r ps st =
     (case st of (scans, filters, points) \<Rightarrow>
        if pEquals ps \<noteq> [] then
          (case newKey c r (hd (pEquals ps)) of
             Inl e \<Rightarrow> ReturnedError (InvalidKey ''equal'' (hd (pEquals ps)) e)
           | Inr key \<Rightarrow>
               (let filters' = filters @ [\<lparr>CompositeFilters = [], fLow = key, fHigh = key,
                                           fInclusion = Both, fScanType = []\<rparr>]
                in Finished (scans, filters',
                             points @ [lowPoint filters', highPoint filters'])))
        else if pFilters ps = [] then ReturnedScanAll
        else if areFiltersNil r ps then ReturnedScanAll
        else
          (let fl = hd (pFilters ps) in
           case newLowKey c r (pLow fl) of
             Inl e \<Rightarrow> ReturnedError (InvalidKey ''low'' (pLow fl) e)
           | Inr l \<Rightarrow>
               (case newHighKey c r (pHigh fl) of
                  Inl e \<Rightarrow> ReturnedError (InvalidKey ''high'' (pHigh fl) e)
                | Inr h \<Rightarrow>
                    if IndexKeyLessThan h l then
                      Finished (scans @ [getEmptyScan c r], filters, points)
                    else if CompareIndexKey c l h = 0 \<and> pInclusion fl \<noteq> Both then
                      Finished (scans @ [getEmptyScan c r], filters, points)
                    else
                      (let compfil = \<lparr>cefLow = l, cefHigh = h, cefInclusion = pInclusion fl\<rparr>;
                           flt = \<lparr>CompositeFilters = [compfil], fLow = l, fHigh = h,
                                  fInclusion = cefInclusion compfil, fScanType = []\<rparr>
                       in Finished (scans, filters @ [flt], points)))))"

fun primaryScans ::
  "externals \<Rightarrow> ScanRequest \<Rightarrow> protoScan list \<Rightarrow> Scan list \<times> Filter list \<times> IndexPoint list \<Rightarrow>
   (Scan list \<times> Filter list \<times> IndexPoint list) looped" where
  "primaryScans c r [] st = Finished st"
| "primaryScans c r (ps # rest) st =
     (case primaryScan c r ps st of
        Finished st' \<Rightarrow> primaryScans c r rest st'
      | ReturnedError e \<Rightarrow> ReturnedError e
      | ReturnedScanAll \<Rightarrow> ReturnedScanAll
      | Panicked \<Rightarrow> Panicked)"

text \<open>
  The loop over the filters of one scan of a secondary index: an error, or the composite
  filters, or none when \<open>skipScan\<close> is set.
\<close>

fun encodeFilters ::
  "externals \<Rightarrow> ScanRequest \<Rightarrow> protoFilter list \<Rightarrow> CompositeElementFilter list \<Rightarrow>
   planError + CompositeElementFilter list option" where
  "encodeFilters c r [] compFilters = Inr (Some compFilters)"
| "encodeFilters c r (fl # rest) compFilters =
     (case newLowKey c r (pLow fl) of
        Inl e \<Rightarrow> Inl (InvalidKey ''low'' (pLow fl) e)
      | Inr l \<Rightarrow>
          (case newHighKey c r (pHigh fl) of
             Inl e \<Rightarrow> Inl (InvalidKey ''high'' (pHigh fl) e)
           | Inr h \<Rightarrow>
               if IndexKeyLessThan h l then Inr None
               else encodeFilters c r rest
                      (compFilters @ [\<lparr>cefLow = l, cefHigh = h, cefInclusion = pInclusion fl\<rparr>])))"

definition secondaryScan ::
  "externals \<Rightarrow> ScanRequest \<Rightarrow> protoScan \<Rightarrow> Filter list \<times> IndexPoint list \<Rightarrow>
   (Filter list \<times> IndexPoint list) looped" where
  "secondaryScan c r ps st =
     (case st of (filters, points) \<Rightarrow>
        if pEquals ps \<noteq> [] then
          (case fillFilterEquals c r ps of
             Panics \<Rightarrow> Panicked
           | Returns (Inl e) \<Rightarrow> ReturnedError e
           | Returns (Inr flt) \<Rightarrow>
               (let filters' = filters @ [flt]
                in Finished (filters', points @ [lowPoint filters', highPoint filters'])))
        else if pFilters ps = [] then ReturnedScanAll
        else if areFiltersNil r ps then ReturnedScanAll
        else
          (case encodeFilters c r (pFilters ps) [] of
             Inl e \<Rightarrow> ReturnedError e
           | Inr None \<Rightarrow> Finished (filters, points)
           | Inr (Some compFilters) \<Rightarrow>
               (case fillFilterLowHigh c r compFilters of
                  Panics \<Rightarrow> Panicked
                | Returns (Inl e) \<Rightarrow> ReturnedError e
                | Returns (Inr (low, high)) \<Rightarrow>
                    (let filters' = filters @ [\<lparr>CompositeFilters = compFilters, fLow = low,
                                                fHigh = high, fInclusion = Both,
                                                fScanType = []\<rparr>]
                     in Finished (filters', points @ [lowPoint filters', highPoint filters'])))))"

fun secondaryScans ::
  "externals \<Rightarrow> ScanRequest \<Rightarrow> protoScan list \<Rightarrow> Filter list \<times> IndexPoint list \<Rightarrow>
   (Filter list \<times> IndexPoint list) looped" where
  "secondaryScans c r [] st = Finished st"
| "secondaryScans c r (ps # rest) st =
     (case secondaryScan c r ps st of
        Finished st' \<Rightarrow> secondaryScans c r rest st'
      | ReturnedError e \<Rightarrow> ReturnedError e
      | ReturnedScanAll \<Rightarrow> ReturnedScanAll
      | Panicked \<Rightarrow> Panicked)"

text \<open>
  What \<open>fillScans\<close> does after its loop: for a primary index it sorts the filters and
  merges them, one by one, into the scans that the loop has built; for a secondary
  index it sorts the points and composes the scans from them.
\<close>

definition primaryResult ::
  "externals \<Rightarrow> (Scan list \<times> Filter list \<times> IndexPoint list) looped \<Rightarrow>
   (planError + Scan list) orPanic" where
  "primaryResult c l =
     (case l of
        ReturnedError e \<Rightarrow> Returns (Inl e)
      | ReturnedScanAll \<Rightarrow> Returns (Inr [getScanAll])
      | Panicked \<Rightarrow> Panics
      | Finished (scans, filters, points) \<Rightarrow>
          (case mergeFilters c (sortFilters c filters) scans of
             Panics \<Rightarrow> Panics
           | Returns scans' \<Rightarrow> Returns (Inr scans')))"

definition secondaryResult ::
  "externals \<Rightarrow> ScanRequest \<Rightarrow> (Filter list \<times> IndexPoint list) looped \<Rightarrow>
   (planError + Scan list) orPanic" where
  "secondaryResult c r l =
     (case l of
        ReturnedError e \<Rightarrow> Returns (Inl e)
      | ReturnedScanAll \<Rightarrow> Returns (Inr [getScanAll])
      | Panicked \<Rightarrow> Panics
      | Finished (filters, points) \<Rightarrow>
          (case composeScans c r (sortPoints c points) filters of
             Panics \<Rightarrow> Panics
           | Returns scans \<Rightarrow> Returns (Inr scans)))"

text \<open>
  \<open>fillScans\<close>: the error it returns, or the scans it leaves in \<open>r.Scans\<close>. A request
  without scans is one of an older client and has the one scan of its keys or range.
\<close>

definition fillScans ::
  "externals \<Rightarrow> ScanRequest \<Rightarrow> protoScan list \<Rightarrow> (planError + Scan list) orPanic" where
  "fillScans c r protoScans =
     (if protoScans = [] then
        (if Keys r \<noteq> [] then
           Returns (Inr [\<lparr>sLow = None, sHigh = None, Incl = Neither, ScanType = LookupReq,
                          Filters = [], Equals = Some (hd (Keys r))\<rparr>])
         else
           Returns (Inr [\<lparr>sLow = rLow r, sHigh = rHigh r, Incl = rIncl r, ScanType = RangeReq,
                          Filters = [], Equals = None\<rparr>]))
      else if isPrimary r then primaryResult c (primaryScans c r protoScans ([], [], []))
      else secondaryResult c r (secondaryScans c r protoScans ([], [])))"

section \<open>Example states\<close>

text \<open>
  Small concrete values at which the theorems below are applied: an instance 1 of
  keyspace \<open>b\<close> on the maintenance stream, with one partition of one slice.
\<close>

definition exInst :: IndexInst where
  "exInst = \<lparr>InstId = 1, DefnBucket = ''b'', KeyspaceId = ''b'', Stream = MAINT_STREAM,
             State = INDEX_STATE_ACTIVE\<rparr>"

definition exTs :: "nat \<Rightarrow> SnapType \<Rightarrow> TsVbuuid" where
  "exTs seq st = \<lparr>Bucket = ''b'', Seqnos = [seq], Vbuuids = [7], Crc64 = 0, SnapType = st\<rparr>"


definition exConsistent :: "indexSnapshot \<Rightarrow> Consistency \<Rightarrow> TsVbuuid option \<Rightarrow> bool" where
  "exConsistent is c t = (c = AnyConsistency)"


definition exHash :: "nat list \<Rightarrow> nat" where
  "exHash vbuuids = sum_list vbuuids + 1"

definition exCrash :: "error \<Rightarrow> bool" where
  "exCrash err = True"

definition exNoCrash :: "error \<Rightarrow> bool" where
  "exNoCrash err = False"

text \<open>
  A slice 0 whose operations succeed or fail as told: a new snapshot gets the address 2.
\<close>

definition exSlice :: "bool \<Rightarrow> bool \<Rightarrow> Slice" where
  "exSlice dirty failing =
     \<lparr>Id = 0, IsDirty = dirty,
      NewSnapshot = (\<lambda>t commit. if failing then Inl (SliceError ''disk full'')
                                 else Inr \<lparr>infoTimestamp = t, IsOSOSnap = False\<rparr>),
      OpenSnapshot = (\<lambda>info. Inr \<lparr>addr = 2, Timestamp = infoTimestamp info\<rparr>),
      GetSnapshots = Inr [],
      LastRollbackTs = None,
      Rollback = (\<lambda>info. None),
      RollbackToZero = None\<rparr>"

definition exPartnSnap :: partitionSnapshot where
  "exPartnSnap =
     \<lparr>partnId = 0,
      slices = [(0, \<lparr>sliceId = 0, snap = \<lparr>addr = 1, Timestamp = exTs 3 DISK_SNAP\<rparr>\<rparr>)]\<rparr>"

definition exSnapshot :: indexSnapshot where
  "exSnapshot = \<lparr>instId = 1, ts = exTs 3 DISK_SNAP, partns = [(0, exPartnSnap)], epoch = False\<rparr>"

definition exSnapshot2 :: indexSnapshot where
  "exSnapshot2 =
     \<lparr>instId = 1, ts = exTs 3 DISK_SNAP,
      partns = [(0, exPartnSnap),
                (1, \<lparr>partnId = 1,
                     slices = [(0, \<lparr>sliceId = 0,
                                    snap = \<lparr>addr = 3, Timestamp = exTs 3 DISK_SNAP\<rparr>\<rparr>)]\<rparr>)],
      epoch = False\<rparr>"

definition exPartnInst :: "Slice \<Rightarrow> PartitionInst" where
  "exPartnInst slc = \<lparr>GetPartitionId = 0, GetAllSlices = [slc]\<rparr>"

text \<open>
  A slice with snapshot infos at the sequence numbers 30, 20 and 10, whose \<open>Rollback\<close>
  returns the given error.
\<close>

definition exInfo :: "nat \<Rightarrow> SnapshotInfo" where
  "exInfo seq = \<lparr>infoTimestamp = exTs seq DISK_SNAP, IsOSOSnap = False\<rparr>"

definition exRollbackSlice :: "error option \<Rightarrow> Slice" where
  "exRollbackSlice err =
     (exSlice False False)\<lparr>GetSnapshots := Inr [exInfo 30, exInfo 20, exInfo 10],
                            Rollback := (\<lambda>info. err)\<rparr>"

definition exVars :: loopVars where
  "exVars = \<lparr>needsCommit = True, isSnapCreated = True, hasNewSnapshot = False,
             sliceSnaps = [], partnSnaps = []\<rparr>"

definition exMgr :: "indexSnapshot \<Rightarrow> PartitionInst list \<Rightarrow> snapshotWaiter list \<Rightarrow> storageMgr" where
  "exMgr is partnMap waiters =
     \<lparr>indexInstMap = [1 \<mapsto> exInst],
      indexPartnMap = [1 \<mapsto> partnMap],
      indexSnapMap = [1 \<mapsto> \<lparr>csnap = is, deleted = False\<rparr>],
      waitersMap = [1 \<mapsto> waiters],
      refcount = (\<lambda>a. 1),
      snapshotNotifych = [], waiterReplies = [], supvCmdch = [], supvRespch = [],
      sliceCalls = [], errorLog = [],
      streamKeyspaceIdInstList = (\<lambda>st ks. if st = MAINT_STREAM \<and> ks = ''b'' then [1] else []),
      numVbuckets = 1, numSnapshotWorkers = 1, debugLogging = False\<rparr>"

text \<open>A second instance 2, whose snapshot is at sequence number 5.\<close>

definition exMgr2 :: storageMgr where
  "exMgr2 = (exMgr exSnapshot [] [])
     \<lparr>indexSnapMap :=
        [1 \<mapsto> \<lparr>csnap = exSnapshot, deleted = False\<rparr>,
         2 \<mapsto> \<lparr>csnap = \<lparr>instId = 2, ts = exTs 5 DISK_SNAP, partns = [], epoch = False\<rparr>,
               deleted = False\<rparr>]\<rparr>"

text \<open>A manager without snapshot containers, and one whose snapshot has its checksum.\<close>

definition exMgr0 :: storageMgr where
  "exMgr0 = (exMgr exSnapshot [] [])\<lparr>indexSnapMap := Map.empty\<rparr>"

definition exMgrCrc :: storageMgr where
  "exMgrCrc = exMgr (exSnapshot\<lparr>ts := (exTs 3 DISK_SNAP)\<lparr>Crc64 := 8\<rparr>\<rparr>)
                [exPartnInst (exSlice True False)] []"









text \<open>
  For the planner: a codec that takes every key as it is, joins keys end to end and
  leaves the collation alone; the comparison of the bytes of two keys; and insertion
  sort as the library sort. The byte 97 is the letter a.
\<close>

fun insertBy :: "('a \<Rightarrow> 'a \<Rightarrow> bool) \<Rightarrow> 'a \<Rightarrow> 'a list \<Rightarrow> 'a list" where
  "insertBy lt x [] = [x]"
| "insertBy lt x (y # ys) = (if lt x y then x # y # ys else y # insertBy lt x ys)"

definition exSort :: "('a \<Rightarrow> 'a \<Rightarrow> bool) \<Rightarrow> 'a list \<Rightarrow> 'a list" where
  "exSort lt xs = foldr (insertBy lt) xs []"

definition exCompare :: "IndexKey \<Rightarrow> IndexKey \<Rightarrow> int" where
  "exCompare a b = bytes_Compare (Bytes a) (Bytes b)"

definition exExternals :: externals where
  "exExternals =
     \<lparr>NewPrimaryKey = Inr, NewSecondaryKey = Inr,
      JoinArray = (\<lambda>keys. Inr (concat keys)),
      ReverseCollate = (\<lambda>bs desc. Inr bs),
      CompareIndexKey = exCompare, ComparePrefix = exCompare,
      sortFilters = exSort (FilterLessThan exCompare),
      sortPoints = exSort (IndexPointLessThan exCompare)\<rparr>"

definition exRequest :: "bool \<Rightarrow> ScanRequest" where
  "exRequest primary =
     \<lparr>isPrimary = primary, Keys = [], rLow = None, rHigh = None, rIncl = Both,
      HasDescending = False, Desc = [False]\<rparr>"

definition exRange :: "byte \<Rightarrow> byte \<Rightarrow> protoFilter" where
  "exRange lo hi = \<lparr>pLow = Some [lo], pHigh = Some [hi], pInclusion = Both\<rparr>"

definition exScan :: "protoFilter list \<Rightarrow> protoScan" where
  "exScan fls = \<lparr>pFilters = fls, pEquals = []\<rparr>"

section \<open>Properties of the index point order\<close>

lemma minlen_eq_left:
  "length (Bytes (Value x)) \<noteq> length (Bytes (Value y)) \<Longrightarrow>
   (minlen x y = x) = (length (Bytes (Value x)) < length (Bytes (Value y)))"
  by (auto simp: minlen_def)

lemma minlen_eq_right:
  "length (Bytes (Value x)) \<noteq> length (Bytes (Value y)) \<Longrightarrow>
   (minlen x y = y) = (length (Bytes (Value y)) < length (Bytes (Value x)))"
  by (auto simp: minlen_def)

text \<open>
  Claim C9, as the code has it. For two points whose values are proper keys (neither
  sentinel) and whose types are \<open>low\<close> or \<open>high\<close>: a point with the smaller value comes
  first; of two points with values equal under the prefix comparator and of equal byte
  length, a low point comes before a high point; of two such points of different byte
  length, the shorter one comes first when it is a low point and the longer one comes
  first when the shorter one is a high point.
\<close>

theorem IndexPointLessThan_order:
  assumes "Value x = Key a" and "Value y = Key b"
    and "Type x \<in> {''low'', ''high''}" and "Type y \<in> {''low'', ''high''}"
  shows "IndexPointLessThan cmp x y =
     (cmp (Key a) (Key b) < 0 \<or>
      (cmp (Key a) (Key b) = 0 \<and>
        (if length a = length b then Type x = ''low'' \<and> Type y = ''high''
         else if length a < length b then Type x = ''low''
         else Type y = ''high'')))"
proof (cases "length a = length b")
  case True
  with assms show ?thesis
    by (simp add: IndexPointLessThan_def Let_def)
next
  case False
  have ne: "length (Bytes (Value x)) \<noteq> length (Bytes (Value y))"
    using False assms(1,2) by simp
  have l: "(minlen x y = x) = (length a < length b)"
    using minlen_eq_left [OF ne] assms(1,2) by simp
  have r: "(minlen x y = y) = (length b < length a)"
    using minlen_eq_right [OF ne] assms(1,2) by simp
  show ?thesis
  proof (cases "length a < length b")
    case True
    then have m: "minlen x y = x" using l by simp
    from True have nr: "x \<noteq> y" using assms(1,2) by auto
    show ?thesis using assms True False m nr
      by (auto simp: IndexPointLessThan_def Let_def)
  next
    case gt: False
    then have "length b < length a" using False by simp
    then have m: "minlen x y = y" using r by simp
    have nr: "y \<noteq> x" using False assms(1,2) by auto
    show ?thesis using assms gt False m nr
      by (auto simp: IndexPointLessThan_def Let_def)
  qed
qed

theorem IndexPointLessThan_order_witness:
  "IndexPointLessThan ComparePrefixIndexKey
     \<lparr>Value = Key [1], FilterId = 0, Type = ''low''\<rparr>
     \<lparr>Value = Key [1, 2], FilterId = 1, Type = ''low''\<rparr>"
  using IndexPointLessThan_order [of "\<lparr>Value = Key [1], FilterId = 0, Type = ''low''\<rparr>" "[1]"
      "\<lparr>Value = Key [1, 2], FilterId = 1, Type = ''low''\<rparr>" "[1, 2]" ComparePrefixIndexKey]
  by (simp add: ComparePrefixIndexKey_def)

text \<open>
  Claim C9 as stated says that points with equal values and different byte lengths are
  ordered by length. The point \<open>[1]\<close> of type high and the point \<open>[1, 2]\<close> are equal under
  the prefix comparator and the first is shorter, yet the longer one sorts first; with
  the shorter point of type low the shorter one sorts first.
\<close>

theorem IndexPointLessThan_length_counterexample:
  "ComparePrefixIndexKey (Key [1]) (Key [1, 2]) = 0
   \<and> length [1 :: byte] < length [1, 2 :: byte]
   \<and> \<not> IndexPointLessThan ComparePrefixIndexKey
        \<lparr>Value = Key [1], FilterId = 0, Type = ''high''\<rparr>
        \<lparr>Value = Key [1, 2], FilterId = 1, Type = ''high''\<rparr>
   \<and> IndexPointLessThan ComparePrefixIndexKey
        \<lparr>Value = Key [1, 2], FilterId = 1, Type = ''high''\<rparr>
        \<lparr>Value = Key [1], FilterId = 0, Type = ''high''\<rparr>"
  by (simp add: IndexPointLessThan_def ComparePrefixIndexKey_def minlen_def)

section \<open>Properties of the storage manager\<close>

subsection \<open>Reference counts touch nothing else\<close>

lemma fold_Open_refcount:
  "fold Open xs s = s\<lparr>refcount := fold (\<lambda>sn r. r(addr sn := r (addr sn) + 1)) xs (refcount s)\<rparr>"
  by (induction xs arbitrary: s) (simp_all add: Open_def)

lemma fold_Close_refcount:
  "fold Close xs s = s\<lparr>refcount := fold (\<lambda>sn r. r(addr sn := r (addr sn) - 1)) xs (refcount s)\<rparr>"
  by (induction xs arbitrary: s) (simp_all add: Close_def)

lemma CloneIndexSnapshot_others [simp]:
  "waiterReplies (CloneIndexSnapshot is s) = waiterReplies s"
  "waitersMap (CloneIndexSnapshot is s) = waitersMap s"
  "indexSnapMap (CloneIndexSnapshot is s) = indexSnapMap s"
  "indexInstMap (CloneIndexSnapshot is s) = indexInstMap s"
  "indexPartnMap (CloneIndexSnapshot is s) = indexPartnMap s"
  "snapshotNotifych (CloneIndexSnapshot is s) = snapshotNotifych s"
  "supvCmdch (CloneIndexSnapshot is s) = supvCmdch s"
  "supvRespch (CloneIndexSnapshot is s) = supvRespch s"
  "sliceCalls (CloneIndexSnapshot is s) = sliceCalls s"
  "errorLog (CloneIndexSnapshot is s) = errorLog s"
  "numVbuckets (CloneIndexSnapshot is s) = numVbuckets s"
  by (simp_all add: CloneIndexSnapshot_def fold_Open_refcount)

lemma DestroyIndexSnapshot_others [simp]:
  "waiterReplies (DestroyIndexSnapshot is s) = waiterReplies s"
  "waitersMap (DestroyIndexSnapshot is s) = waitersMap s"
  "indexSnapMap (DestroyIndexSnapshot is s) = indexSnapMap s"
  "indexInstMap (DestroyIndexSnapshot is s) = indexInstMap s"
  "indexPartnMap (DestroyIndexSnapshot is s) = indexPartnMap s"
  "snapshotNotifych (DestroyIndexSnapshot is s) = snapshotNotifych s"
  "supvCmdch (DestroyIndexSnapshot is s) = supvCmdch s"
  "supvRespch (DestroyIndexSnapshot is s) = supvRespch s"
  "sliceCalls (DestroyIndexSnapshot is s) = sliceCalls s"
  "errorLog (DestroyIndexSnapshot is s) = errorLog s"
  "numVbuckets (DestroyIndexSnapshot is s) = numVbuckets s"
  by (simp_all add: DestroyIndexSnapshot_def fold_Close_refcount)

lemma refcount_fold_Open:
  "refcount (fold Open xs s) a = refcount s a + count_list (map addr xs) a"
  by (induction xs arbitrary: s) (auto simp: Open_def)

lemma refcount_CloneIndexSnapshot:
  "refcount (CloneIndexSnapshot is s) a = refcount s a + count_list (map addr (sliceSnapshots is)) a"
  by (simp add: CloneIndexSnapshot_def refcount_fold_Open)

lemma notifySnapshotCreation_others [simp]:
  "waiterReplies (notifySnapshotCreation is s) = waiterReplies s"
  "waitersMap (notifySnapshotCreation is s) = waitersMap s"
  "indexSnapMap (notifySnapshotCreation is s) = indexSnapMap s"
  "indexInstMap (notifySnapshotCreation is s) = indexInstMap s"
  "indexPartnMap (notifySnapshotCreation is s) = indexPartnMap s"
  "supvCmdch (notifySnapshotCreation is s) = supvCmdch s"
  "supvRespch (notifySnapshotCreation is s) = supvRespch s"
  "sliceCalls (notifySnapshotCreation is s) = sliceCalls s"
  "errorLog (notifySnapshotCreation is s) = errorLog s"
  by (simp_all add: notifySnapshotCreation_def Let_def)

subsection \<open>The walk over the waiters\<close>

lemma notifyWaiters_walk:
  "notifyWaiters consistent t is ws nw s = (nw', s') \<Longrightarrow>
   nw' = nw @ filter (\<lambda>w. \<not> (\<not> IsZero (expired w) \<and> After t (expired w))
                          \<and> \<not> consistent is (cons w) (wts w)) ws
   \<and> waiterReplies s' = waiterReplies s @
        map (\<lambda>w. (wch w, if \<not> IsZero (expired w) \<and> After t (expired w)
                          then ReplyError ErrScanTimedOut else ReplySnapshot is))
          (filter (\<lambda>w. (\<not> IsZero (expired w) \<and> After t (expired w))
                        \<or> consistent is (cons w) (wts w)) ws)
   \<and> waitersMap s' = waitersMap s \<and> indexSnapMap s' = indexSnapMap s
   \<and> indexInstMap s' = indexInstMap s \<and> errorLog s' = errorLog s
   \<and> sliceCalls s' = sliceCalls s \<and> supvCmdch s' = supvCmdch s"
proof (induction ws arbitrary: nw s)
  case Nil
  then show ?case by simp
next
  case (Cons w ws)
  let ?to = "\<not> IsZero (expired w) \<and> After t (expired w)"
  consider (timeout) "?to" | (notify) "\<not> ?to" "consistent is (cons w) (wts w)"
    | (keep) "\<not> ?to" "\<not> consistent is (cons w) (wts w)"
    by blast
  then show ?case
  proof cases
    case timeout
    then have
      "notifyWaiters consistent t is ws nw
         (s\<lparr>waiterReplies := waiterReplies s @ [(wch w, ReplyError ErrScanTimedOut)]\<rparr>) = (nw', s')"
      using Cons.prems by auto
    from Cons.IH [OF this] timeout show ?thesis by simp
  next
    case notify
    then have
      "notifyWaiters consistent t is ws nw
           ((CloneIndexSnapshot is s)\<lparr>waiterReplies :=
              waiterReplies (CloneIndexSnapshot is s) @ [(wch w, ReplySnapshot is)]\<rparr>) = (nw', s')"
      using Cons.prems by (auto simp: Let_def)
    from Cons.IH [OF this] notify show ?thesis by auto
  next
    case keep
    then have "notifyWaiters consistent t is ws (nw @ [w]) s = (nw', s')"
      using Cons.prems by auto
    from Cons.IH [OF this] keep show ?thesis by auto
  qed
qed




subsection \<open>The decision for one slice\<close>

text \<open>
  Claim C1, as the code has it. Take a flush that was not aborted and whose timestamp is
  of type \<open>DISK_SNAP\<close> or \<open>DISK_SNAP_OSO\<close>, so that \<open>createSnapshotWorker\<close> sets
  \<open>needsCommit\<close> and not \<open>forceCommit\<close>, and a slice that has a snapshot in the last
  partition snapshot. If the sequence numbers of the flush timestamp are greater than
  those of that snapshot (pointwise at least as large, one strictly larger), the manager
  asks the slice whether it is dirty and, whatever the answer, tells it \<open>FlushDone\<close> and
  calls \<open>NewSnapshot\<close> with \<open>needsCommit\<close> true; when that and \<open>OpenSnapshot\<close> succeed,
  the slice snapshot is the new storage snapshot and these four are all its calls.
  Otherwise it keeps the prior snapshot as the slice snapshot and opens it, which adds
  one to its reference count, calls nothing but \<open>IsDirty\<close> (once, and once more for the
  debug log), and goes on to the next slice.
\<close>

theorem createSnapshotForSlice_disk:
  assumes st: "SnapType tsVbuuid \<in> {DISK_SNAP, DISK_SNAP_OSO}"
    and fl: "(needsCommit v, forceCommit) = commitFlags (SnapType tsVbuuid)"
    and prior: "map_of (slices ps) (Id slc) = Some lastSliceSnap"
    and s1: "s1 = (if hasAllSB then called (CallSetLastRollbackTs (Id slc) None) s else s)"
    and r: "createSnapshotForSlice CrashOnError n tsVbuuid hasAllSB False forceCommit (Some ps)
              slc v s = (f, v', s')"
  shows "(GreaterThan (Seqnos tsVbuuid) (Seqnos (Timestamp (snap lastSliceSnap))) \<longrightarrow>
            (\<exists>rest. sliceCalls s' = sliceCalls s1 @
               CallIsDirty (Id slc)
               # CallFlushDone (Id slc)
               # CallNewSnapshot (Id slc) tsVbuuid True (NewSnapshot slc tsVbuuid True) # rest)
            \<and> (\<forall>info newSnapshot.
                  NewSnapshot slc tsVbuuid True = Inr info \<and> OpenSnapshot slc info = Inr newSnapshot
                  \<longrightarrow> f = Continue
                      \<and> v' = v\<lparr>hasNewSnapshot := True,
                                 sliceSnaps := AList.update (Id slc)
                                   \<lparr>sliceId = Id slc, snap = newSnapshot\<rparr> (sliceSnaps v)\<rparr>
                      \<and> sliceCalls s' = sliceCalls s1 @
                            [CallIsDirty (Id slc), CallFlushDone (Id slc),
                             CallNewSnapshot (Id slc) tsVbuuid True (Inr info),
                             CallOpenSnapshot (Id slc) info (Inr newSnapshot)]))
       \<and> (\<not> GreaterThan (Seqnos tsVbuuid) (Seqnos (Timestamp (snap lastSliceSnap))) \<longrightarrow>
            f = Continue
            \<and> v' = v\<lparr>sliceSnaps := AList.update (Id slc)
                       \<lparr>sliceId = Id slc, snap = snap lastSliceSnap\<rparr> (sliceSnaps v)\<rparr>
            \<and> s' = (if debugLogging s
                     then called (CallIsDirty (Id slc))
                            (Open (snap lastSliceSnap) (called (CallIsDirty (Id slc)) s1))
                     else Open (snap lastSliceSnap) (called (CallIsDirty (Id slc)) s1))
            \<and> (\<forall>c \<in> set (drop (length (sliceCalls s1)) (sliceCalls s')). c = CallIsDirty (Id slc))
            \<and> refcount s' (addr (snap lastSliceSnap)) = refcount s (addr (snap lastSliceSnap)) + 1)"
proof -
  from st fl have nc: "needsCommit v" and fc: "\<not> forceCommit"
    by (auto simp: commitFlags_def)
  show ?thesis
  proof (cases "GreaterThan (Seqnos tsVbuuid) (Seqnos (Timestamp (snap lastSliceSnap)))")
    case True
    with nc fc prior s1 r show ?thesis
      by (auto simp: createSnapshotForSlice_def Let_def called_def Errorf_def Open_def
               split: sum.splits if_splits)
  next
    case False
    with nc fc prior s1 r show ?thesis
      by (auto simp: createSnapshotForSlice_def Let_def Open_def called_def)
  qed
qed

theorem createSnapshotForSlice_disk_witness:
  "fst (createSnapshotForSlice exCrash 1 (exTs 3 DISK_SNAP) False False False (Some exPartnSnap)
          (exSlice True False) exVars (exMgr exSnapshot [] [])) = Continue
   \<and> sliceCalls (snd (snd (createSnapshotForSlice exCrash 1 (exTs 3 DISK_SNAP) False False False
          (Some exPartnSnap) (exSlice True False) exVars (exMgr exSnapshot [] [])))) =
       [CallIsDirty 0]
   \<and> refcount (snd (snd (createSnapshotForSlice exCrash 1 (exTs 3 DISK_SNAP) False False False
          (Some exPartnSnap) (exSlice True False) exVars (exMgr exSnapshot [] [])))) 1 = 2
   \<and> sliceCalls (snd (snd (createSnapshotForSlice exCrash 1 (exTs 5 DISK_SNAP) False False False
          (Some exPartnSnap) (exSlice True False) exVars (exMgr exSnapshot [] [])))) =
       [CallIsDirty 0, CallFlushDone 0,
        CallNewSnapshot 0 (exTs 5 DISK_SNAP) True
          (Inr \<lparr>infoTimestamp = exTs 5 DISK_SNAP, IsOSOSnap = False\<rparr>),
        CallOpenSnapshot 0 \<lparr>infoTimestamp = exTs 5 DISK_SNAP, IsOSOSnap = False\<rparr>
          (Inr \<lparr>addr = 2, Timestamp = exTs 5 DISK_SNAP\<rparr>)]"
proof -
  let ?r = "createSnapshotForSlice exCrash 1 (exTs 3 DISK_SNAP) False False False
              (Some exPartnSnap) (exSlice True False) exVars (exMgr exSnapshot [] [])"
  let ?q = "createSnapshotForSlice exCrash 1 (exTs 5 DISK_SNAP) False False False
              (Some exPartnSnap) (exSlice True False) exVars (exMgr exSnapshot [] [])"
  have st: "SnapType (exTs seq DISK_SNAP) \<in> {DISK_SNAP, DISK_SNAP_OSO}" for seq
    by (simp add: exTs_def)
  have fl: "(needsCommit exVars, False) = commitFlags (SnapType (exTs seq DISK_SNAP))" for seq
    by (simp add: exTs_def exVars_def commitFlags_def)
  have prior: "map_of (slices exPartnSnap) (Id (exSlice True False)) =
                 Some \<lparr>sliceId = 0, snap = \<lparr>addr = 1, Timestamp = exTs 3 DISK_SNAP\<rparr>\<rparr>"
    by (simp add: exPartnSnap_def exSlice_def)
  have s1: "exMgr exSnapshot [] [] =
              (if False then called (CallSetLastRollbackTs (Id (exSlice True False)) None)
                               (exMgr exSnapshot [] [])
               else exMgr exSnapshot [] [])"
    by simp
  have r: "?r = (fst ?r, fst (snd ?r), snd (snd ?r))"
    and q: "?q = (fst ?q, fst (snd ?q), snd (snd ?q))" by simp_all
  have ng: "\<not> GreaterThan (Seqnos (exTs 3 DISK_SNAP))
               (Seqnos (Timestamp (snap \<lparr>sliceId = 0,
                                          snap = \<lparr>addr = 1, Timestamp = exTs 3 DISK_SNAP\<rparr>\<rparr>)))"
    and g: "GreaterThan (Seqnos (exTs 5 DISK_SNAP))
               (Seqnos (Timestamp (snap \<lparr>sliceId = 0,
                                          snap = \<lparr>addr = 1, Timestamp = exTs 3 DISK_SNAP\<rparr>\<rparr>)))"
    by (simp_all add: GreaterThan_def exTs_def)
  from createSnapshotForSlice_disk [OF st fl prior s1 r] ng
  have kept: "fst ?r = Continue"
    "snd (snd ?r) = Open \<lparr>addr = 1, Timestamp = exTs 3 DISK_SNAP\<rparr>
                      (called (CallIsDirty (Id (exSlice True False))) (exMgr exSnapshot [] []))"
    by (simp_all add: exMgr_def)
  from createSnapshotForSlice_disk [OF st fl prior s1 q] g
  have made: "sliceCalls (snd (snd ?q)) =
      [CallIsDirty 0, CallFlushDone 0,
       CallNewSnapshot 0 (exTs 5 DISK_SNAP) True
         (Inr \<lparr>infoTimestamp = exTs 5 DISK_SNAP, IsOSOSnap = False\<rparr>),
       CallOpenSnapshot 0 \<lparr>infoTimestamp = exTs 5 DISK_SNAP, IsOSOSnap = False\<rparr>
         (Inr \<lparr>addr = 2, Timestamp = exTs 5 DISK_SNAP\<rparr>)]"
    by (simp add: exMgr_def exSlice_def)
  from kept made show ?thesis
    by (simp add: Open_def called_def exMgr_def exSlice_def)
qed

text \<open>
  Claim C1 as stated wants the slice to be dirty for a new snapshot. Here the slice is
  clean, its prior snapshot is at sequence number 3 and the flush of type \<open>DISK_SNAP\<close> is
  at 5: the manager asks the slice whether it is dirty and, whatever the answer, calls
  \<open>FlushDone\<close>, \<open>NewSnapshot\<close> and \<open>OpenSnapshot\<close>, and the slice snapshot is the new
  storage snapshot at address 2, not the prior one at address 1.
\<close>

theorem createSnapshotForSlice_clean_counterexample:
  "\<not> IsDirty (exSlice False False)
   \<and> GreaterThan (Seqnos (exTs 5 DISK_SNAP)) (Seqnos (exTs 3 DISK_SNAP))
   \<and> map_of (slices exPartnSnap) (Id (exSlice False False)) =
       Some \<lparr>sliceId = 0, snap = \<lparr>addr = 1, Timestamp = exTs 3 DISK_SNAP\<rparr>\<rparr>
   \<and> commitFlags DISK_SNAP = (True, False)
   \<and> sliceCalls (snd (snd (createSnapshotForSlice exCrash 1 (exTs 5 DISK_SNAP) False False False
          (Some exPartnSnap) (exSlice False False) exVars (exMgr exSnapshot [] [])))) =
       [CallIsDirty 0,
        CallFlushDone 0,
        CallNewSnapshot 0 (exTs 5 DISK_SNAP) True
          (Inr \<lparr>infoTimestamp = exTs 5 DISK_SNAP, IsOSOSnap = False\<rparr>),
        CallOpenSnapshot 0 \<lparr>infoTimestamp = exTs 5 DISK_SNAP, IsOSOSnap = False\<rparr>
          (Inr \<lparr>addr = 2, Timestamp = exTs 5 DISK_SNAP\<rparr>)]
   \<and> sliceSnaps (fst (snd (createSnapshotForSlice exCrash 1 (exTs 5 DISK_SNAP) False False False
          (Some exPartnSnap) (exSlice False False) exVars (exMgr exSnapshot [] [])))) =
       [(0, \<lparr>sliceId = 0, snap = \<lparr>addr = 2, Timestamp = exTs 5 DISK_SNAP\<rparr>\<rparr>)]"
  by (simp add: createSnapshotForSlice_def exTs_def exVars_def exPartnSnap_def exSlice_def
        exMgr_def commitFlags_def GreaterThan_def called_def Open_def Let_def)

subsection \<open>Errors of a slice during a creation pass\<close>

lemma publishedAlike_refl [simp]: "publishedAlike s s"
  by (simp add: publishedAlike_def)

lemma publishedAlike_trans: "publishedAlike s s1 \<Longrightarrow> publishedAlike s1 s2 \<Longrightarrow> publishedAlike s s2"
  by (simp add: publishedAlike_def)

lemma publishedAlike_simps [simp]:
  "publishedAlike s (called c s)"
  "publishedAlike s (Errorf sid err s)"
  "publishedAlike s (Open sn s)"
  "publishedAlike s (CloneIndexSnapshot is s)"
  "publishedAlike s (DestroyIndexSnapshot is s)"
  by (simp_all add: publishedAlike_def called_def Errorf_def Open_def)

lemma map_filter_append [simp]:
  "List.map_filter f (xs @ ys) = List.map_filter f xs @ List.map_filter f ys"
  by (simp add: List.map_filter_def)

lemma createSnapshotForSlice_inv:
  assumes "createSnapshotForSlice C n t h a fc lps slc v s = (f, v', s')"
  shows "sliceInv a v s f v' s'"
proof (cases a)
  case True
  with assms show ?thesis
    by (auto simp: createSnapshotForSlice_def sliceInv_def called_def List.map_filter_def publishedAlike_def)
next
  case False
  with assms show ?thesis
    unfolding sliceInv_def createSnapshotForSlice_def Let_def
    by (auto simp: called_def Errorf_def Open_def List.map_filter_def publishedAlike_def
             split: option.splits sum.splits if_splits)
qed


lemma sliceInv_refl: "sliceInv a v s Continue v s"
  by (auto simp: sliceInv_def List.map_filter_def)

lemma sliceInv_trans:
  assumes "sliceInv a v s Continue v1 s1" and "sliceInv a v1 s1 f v2 s2"
  shows "sliceInv a v s f v2 s2"
proof -
  from assms(1) obtain n1 where 1: "sliceCalls s1 = sliceCalls s @ n1"
    "errorLog s1 = errorLog s @ List.map_filter returnedError n1"
    "isSnapCreated v1 = (isSnapCreated v \<and> List.map_filter returnedError n1 = [])"
    "a \<longrightarrow> List.map_filter returnedError n1 = []" "publishedAlike s s1"
    unfolding sliceInv_def by blast
  from assms(2) obtain n2 where 2: "sliceCalls s2 = sliceCalls s1 @ n2"
    "errorLog s2 = errorLog s1 @ List.map_filter returnedError n2"
    "isSnapCreated v2 = (isSnapCreated v1 \<and> List.map_filter returnedError n2 = [])"
    "a \<longrightarrow> List.map_filter returnedError n2 = []" "f = Return \<longrightarrow> a" "publishedAlike s1 s2"
    unfolding sliceInv_def by blast
  show ?thesis
    unfolding sliceInv_def
    by (rule exI [of _ "n1 @ n2"]) (use 1 2 publishedAlike_trans in auto)
qed

lemma sliceInv_vars:
  "sliceInv a v s f v' s' \<Longrightarrow> isSnapCreated w = isSnapCreated v \<Longrightarrow>
   isSnapCreated w' = isSnapCreated v' \<Longrightarrow> sliceInv a w s f w' s'"
  by (simp add: sliceInv_def)

lemma createSnapshotForSlices_inv:
  "createSnapshotForSlices C n t h a fc lps sls v s = (f, v', s') \<Longrightarrow> sliceInv a v s f v' s'"
proof (induction sls arbitrary: v s)
  case Nil
  then show ?case by (simp add: sliceInv_refl)
next
  case (Cons slc sls)
  obtain f1 v1 s1 where 1: "createSnapshotForSlice C n t h a fc lps slc v s = (f1, v1, s1)"
    by (cases "createSnapshotForSlice C n t h a fc lps slc v s") auto
  note i1 = createSnapshotForSlice_inv [OF 1]
  show ?case
  proof (cases f1)
    case Continue
    with Cons.prems 1 have "createSnapshotForSlices C n t h a fc lps sls v1 s1 = (f, v', s')"
      by simp
    from sliceInv_trans [OF _ Cons.IH [OF this]] i1 Continue show ?thesis by simp
  next
    case Return
    with Cons.prems 1 i1 show ?thesis by simp
  next
    case Panic
    with Cons.prems 1 i1 show ?thesis by simp
  qed
qed

lemma createSnapshotForPartitions_inv:
  "createSnapshotForPartitions C n t h a fc lst ps v s = (f, v', s') \<Longrightarrow> sliceInv a v s f v' s'"
proof (induction ps arbitrary: v s)
  case Nil
  then show ?case by (simp add: sliceInv_refl)
next
  case (Cons p ps)
  let ?lps = "if length (partns lst) \<noteq> 0 then map_of (partns lst) (GetPartitionId p) else None"
  obtain f1 v1 s1 where 1:
    "createSnapshotForSlices C n t h a fc ?lps (GetAllSlices p) (v\<lparr>sliceSnaps := []\<rparr>) s = (f1, v1, s1)"
    by (cases "createSnapshotForSlices C n t h a fc ?lps (GetAllSlices p) (v\<lparr>sliceSnaps := []\<rparr>) s") auto
  have i1: "sliceInv a v s f1 v1 s1"
    by (rule sliceInv_vars [OF createSnapshotForSlices_inv [OF 1]]) simp_all
  show ?case
  proof (cases f1)
    case Continue
    let ?v2 = "v1\<lparr>partnSnaps := AList.update (GetPartitionId p)
                 \<lparr>partnId = GetPartitionId p, slices = sliceSnaps v1\<rparr> (partnSnaps v1)\<rparr>"
    from Continue Cons.prems 1
    have "createSnapshotForPartitions C n t h a fc lst ps ?v2 s1 = (f, v', s')"
      by (simp add: Let_def)
    from Cons.IH [OF this] have "sliceInv a v1 s1 f v' s'"
      by (rule sliceInv_vars) simp_all
    from sliceInv_trans [OF _ this] i1 Continue show ?thesis by simp
  next
    case Return
    with Cons.prems 1 i1 show ?thesis by (simp add: Let_def)
  next
    case Panic
    with Cons.prems 1 i1 show ?thesis by (simp add: Let_def)
  qed
qed


text \<open>
  An error of \<open>NewSnapshot\<close> or \<open>OpenSnapshot\<close> in the round of a slice: it is of that
  slice and is the last call of the round; it is logged; \<open>isSnapCreated\<close> is false; no
  slice snapshot is stored for the slice; and the round ends as \<open>CrashOnError\<close> decides,
  in a panic when it does not return and with the next slice when it does.
\<close>

lemma createSnapshotForSlice_error:
  assumes r: "createSnapshotForSlice C n t h a fc lps slc v s = (f, v', s')"
    and calls: "sliceCalls s' = sliceCalls s @ new"
    and c: "c \<in> set new" and e: "returnedError c = Some (sid, err)"
  shows "sid = Id slc \<and> (\<exists>before. new = before @ [c])
       \<and> f = (if C err then Panic else Continue)
       \<and> sliceSnaps v' = sliceSnaps v \<and> \<not> isSnapCreated v'
       \<and> errorLog s' = errorLog s @ [(sid, err)]"
proof (cases a)
  case True
  with r calls c e show ?thesis
    by (auto simp: createSnapshotForSlice_def called_def)
next
  case False
  define s1 where "s1 = (if h then called (CallSetLastRollbackTs (Id slc) None) s else s)"
  have s1: "sliceCalls s1 = sliceCalls s @ (if h then [CallSetLastRollbackTs (Id slc) None] else [])"
    "errorLog s1 = errorLog s"
    by (simp_all add: s1_def called_def)
  note d = createSnapshotForSlice_def Let_def s1_def [symmetric]
  consider (nilsnap) "\<exists>ps. lps = Some ps \<and> map_of (slices ps) (Id slc) = None"
    | (latest) latestSnapshot where
        "(case lps of None \<Rightarrow> Some None
          | Some ps \<Rightarrow> (case map_of (slices ps) (Id slc) of
                         None \<Rightarrow> None
                       | Some lastSliceSnap \<Rightarrow> Some (Some (snap lastSliceSnap)))) =
         Some latestSnapshot"
  proof (cases lps)
    case None
    then show ?thesis by (simp add: that(2))
  next
    case (Some ps)
    then show ?thesis
      by (cases "map_of (slices ps) (Id slc)") (auto intro: that)
  qed
  then show ?thesis
  proof cases
    case nilsnap
    with r False have "s' = s1" by (auto simp: d)
    with calls s1(1) c e show ?thesis by (auto split: if_splits)
  next
    case latest
    define sd where "sd = (if latestSnapshot = None then s1 else called (CallIsDirty (Id slc)) s1)"
    have sd: "sliceCalls sd = sliceCalls s1 @ (if latestSnapshot = None then [] else [CallIsDirty (Id slc)])"
      "errorLog sd = errorLog s1"
      by (simp_all add: sd_def called_def)
    define tsnap where "tsnap = (case latestSnapshot of Some l \<Rightarrow> Seqnos (Timestamp l)
                                  | None \<Rightarrow> NewTimestamp n)"
    define v1 where "v1 = (if fc then v\<lparr>needsCommit := fc\<rparr> else v)"
    show ?thesis
    proof (cases "latestSnapshot = None
                  \<or> ((IsDirty slc \<or> needsCommit v) \<and> GreaterThan (Seqnos t) tsnap) \<or> fc")
      case keep: False
      then obtain l where l: "latestSnapshot = Some l" by auto
      from r False latest keep l
      have "s' = (if debugLogging sd then called (CallIsDirty (Id slc)) (Open l sd) else Open l sd)"
        by (auto simp: d sd_def tsnap_def split: if_splits)
      then have "sliceCalls s' = sliceCalls sd @ (if debugLogging sd then [CallIsDirty (Id slc)] else [])"
        by (simp add: called_def Open_def)
      with calls sd(1) s1(1) c e show ?thesis by (auto split: if_splits)
    next
      case make: True
      define s2 where "s2 = called (CallFlushDone (Id slc)) sd"
      define s3 where "s3 = called (CallNewSnapshot (Id slc) t (needsCommit v1)
                                      (NewSnapshot slc t (needsCommit v1))) s2"
      have s3: "sliceCalls s3 = sliceCalls sd @ [CallFlushDone (Id slc),
                  CallNewSnapshot (Id slc) t (needsCommit v1) (NewSnapshot slc t (needsCommit v1))]"
        "errorLog s3 = errorLog s"
        by (simp_all add: s3_def s2_def called_def sd s1)
      show ?thesis
      proof (cases "NewSnapshot slc t (needsCommit v1)")
        case (Inl err1)
        from r False latest make Inl
        have res: "f = (if C err1 then Panic else Continue)" "v' = v1\<lparr>isSnapCreated := False\<rparr>"
          "s' = Errorf (Id slc) err1 s3"
          by (simp_all add: d sd_def tsnap_def v1_def s2_def s3_def)
        have "sliceCalls s' = sliceCalls s3" "errorLog s' = errorLog s @ [(Id slc, err1)]"
          using res(3) s3(2) by (simp_all add: Errorf_def)
        with calls s3(1) sd(1) s1(1) c e Inl res(1,2) show ?thesis
          by (auto simp: v1_def split: if_splits)
      next
        case (Inr info)
        define s4 where "s4 = called (CallOpenSnapshot (Id slc) info (OpenSnapshot slc info)) s3"
        have s4: "sliceCalls s4 = sliceCalls s3 @ [CallOpenSnapshot (Id slc) info (OpenSnapshot slc info)]"
          "errorLog s4 = errorLog s"
          by (simp_all add: s4_def called_def s3(2))
        show ?thesis
        proof (cases "OpenSnapshot slc info")
          case (Inl err2)
          from r False latest make Inr Inl
          have res: "f = (if C err2 then Panic else Continue)"
            "v' = v1\<lparr>hasNewSnapshot := True, isSnapCreated := False\<rparr>"
            "s' = Errorf (Id slc) err2 s4"
            by (simp_all add: d sd_def tsnap_def v1_def s2_def s3_def s4_def)
          have "sliceCalls s' = sliceCalls s4" "errorLog s' = errorLog s @ [(Id slc, err2)]"
            using res(3) s4(2) by (simp_all add: Errorf_def)
          with calls s4(1) s3(1) sd(1) s1(1) c e Inr Inl res(1,2) show ?thesis
            by (auto simp: v1_def split: if_splits)
        next
          case ok: (Inr newSnapshot)
          from r False latest make Inr ok
          have "s' = Open newSnapshot s4"
            by (simp add: d sd_def tsnap_def v1_def s2_def s3_def s4_def)
          then have "sliceCalls s' = sliceCalls s4" by (simp add: Open_def)
          with calls s4(1) s3(1) sd(1) s1(1) c e Inr ok show ?thesis
            by (auto split: if_splits)
        qed
      qed
    qed
  qed
qed

lemma createSnapshotForSlice_crash:
  assumes r: "createSnapshotForSlice C n t h a fc lps slc v s = (f, v', s')"
  shows "crashInv C s f s'"
proof -
  from createSnapshotForSlice_inv [OF r] obtain new
    where new: "sliceCalls s' = sliceCalls s @ new"
    unfolding sliceInv_def by blast
  show ?thesis
    unfolding crashInv_def
  proof (rule exI [of _ new], intro conjI ballI allI impI)
    show "sliceCalls s' = sliceCalls s @ new" by (rule new)
  next
    fix c sid err
    assume "c \<in> set new" and "returnedError c = Some (sid, err) \<and> C err"
    with createSnapshotForSlice_error [OF r new, of c sid err]
    show "f = Panic" and "\<exists>before. new = before @ [c]" by simp_all
  qed
qed

lemma crashInv_refl: "crashInv C s Continue s"
  by (simp add: crashInv_def)

lemma crashInv_trans:
  assumes "crashInv C s Continue s1" and "crashInv C s1 f s2"
  shows "crashInv C s f s2"
proof -
  from assms(1) obtain n1 where 1: "sliceCalls s1 = sliceCalls s @ n1"
    "\<forall>c \<in> set n1. \<forall>sid err. returnedError c = Some (sid, err) \<and> C err \<longrightarrow> False"
    unfolding crashInv_def by auto
  from assms(2) obtain n2 where 2: "sliceCalls s2 = sliceCalls s1 @ n2"
    "\<forall>c \<in> set n2. \<forall>sid err. returnedError c = Some (sid, err) \<and> C err \<longrightarrow>
        f = Panic \<and> (\<exists>before. n2 = before @ [c])"
    unfolding crashInv_def by auto
  show ?thesis
    unfolding crashInv_def
  proof (rule exI [of _ "n1 @ n2"], intro conjI ballI allI impI)
    show "sliceCalls s2 = sliceCalls s @ n1 @ n2" using 1(1) 2(1) by simp
  next
    fix c sid err
    assume c: "c \<in> set (n1 @ n2)" and e: "returnedError c = Some (sid, err) \<and> C err"
    with 1(2) have "c \<in> set n2" by auto
    with 2(2) e have "f = Panic" and "\<exists>before. n2 = before @ [c]" by blast+
    then show "f = Panic" and "\<exists>before. n1 @ n2 = before @ [c]" by auto
  qed
qed

lemma createSnapshotForSlices_crash:
  "createSnapshotForSlices C n t h a fc lps sls v s = (f, v', s') \<Longrightarrow> crashInv C s f s'"
proof (induction sls arbitrary: v s)
  case Nil
  then show ?case by (simp add: crashInv_refl)
next
  case (Cons slc sls)
  obtain f1 v1 s1 where 1: "createSnapshotForSlice C n t h a fc lps slc v s = (f1, v1, s1)"
    by (cases "createSnapshotForSlice C n t h a fc lps slc v s") auto
  note i1 = createSnapshotForSlice_crash [OF 1]
  show ?case
  proof (cases f1)
    case Continue
    with Cons.prems 1 have "createSnapshotForSlices C n t h a fc lps sls v1 s1 = (f, v', s')"
      by simp
    from crashInv_trans [OF _ Cons.IH [OF this]] i1 Continue show ?thesis by simp
  next
    case Return
    with Cons.prems 1 i1 show ?thesis by simp
  next
    case Panic
    with Cons.prems 1 i1 show ?thesis by simp
  qed
qed

lemma createSnapshotForPartitions_crash:
  "createSnapshotForPartitions C n t h a fc lst ps v s = (f, v', s') \<Longrightarrow> crashInv C s f s'"
proof (induction ps arbitrary: v s)
  case Nil
  then show ?case by (simp add: crashInv_refl)
next
  case (Cons p ps)
  let ?lps = "if length (partns lst) \<noteq> 0 then map_of (partns lst) (GetPartitionId p) else None"
  obtain f1 v1 s1 where 1:
    "createSnapshotForSlices C n t h a fc ?lps (GetAllSlices p) (v\<lparr>sliceSnaps := []\<rparr>) s = (f1, v1, s1)"
    by (cases "createSnapshotForSlices C n t h a fc ?lps (GetAllSlices p) (v\<lparr>sliceSnaps := []\<rparr>) s") auto
  note i1 = createSnapshotForSlices_crash [OF 1]
  show ?case
  proof (cases f1)
    case Continue
    let ?v2 = "v1\<lparr>partnSnaps := AList.update (GetPartitionId p)
                 \<lparr>partnId = GetPartitionId p, slices = sliceSnaps v1\<rparr> (partnSnaps v1)\<rparr>"
    from Continue Cons.prems 1
    have "createSnapshotForPartitions C n t h a fc lst ps ?v2 s1 = (f, v', s')"
      by (simp add: Let_def)
    from crashInv_trans [OF _ Cons.IH [OF this]] i1 Continue show ?thesis by simp
  next
    case Return
    with Cons.prems 1 i1 show ?thesis by (simp add: Let_def)
  next
    case Panic
    with Cons.prems 1 i1 show ?thesis by (simp add: Let_def)
  qed
qed

lemma initSnapshotContainerForInst_calls:
  "initSnapshotContainerForInst i is s = (r, s') \<Longrightarrow>
   sliceCalls s' = sliceCalls s \<and> errorLog s' = errorLog s"
  by (auto simp: initSnapshotContainerForInst_def Let_def split: option.splits if_splits)

lemma initSnapshotWaitersForInst_calls:
  "initSnapshotWaitersForInst i s = (r, s') \<Longrightarrow>
   sliceCalls s' = sliceCalls s \<and> errorLog s' = errorLog s"
  by (auto simp: initSnapshotWaitersForInst_def split: option.splits if_splits)

lemma notifyWaiters_calls:
  "notifyWaiters consistent t is ws nw s = (nw', s') \<Longrightarrow>
   sliceCalls s' = sliceCalls s \<and> errorLog s' = errorLog s"
  by (drule notifyWaiters_walk) simp

lemma updateSnapMapAndNotify_calls:
  "sliceCalls (updateSnapMapAndNotify consistent t is s) = sliceCalls s
   \<and> errorLog (updateSnapMapAndNotify consistent t is s) = errorLog s"
  unfolding updateSnapMapAndNotify_def Let_def
  by (auto split: option.splits prod.splits
           dest!: initSnapshotContainerForInst_calls initSnapshotWaitersForInst_calls
                  notifyWaiters_calls)

text \<open>
  Claim C3, as the code has it. Suppose that during \<open>createSnapshotForIndex\<close> a call \<open>c\<close>
  of \<open>NewSnapshot\<close> or \<open>OpenSnapshot\<close> returned the error \<open>err\<close>. Then every error so
  returned is logged, with its slice; the snapshot container of the instance, the
  notifications, the replies to waiters and the waiter lists are what they were, so
  nothing is published. The error is handed to \<open>CrashOnError\<close>. If that does not return
  for \<open>err\<close>, the pass ends in a panic and \<open>c\<close> is its last call of a slice. If the pass
  returns, \<open>CrashOnError\<close> has returned for \<open>err\<close>, both loops ran to their end with
  \<open>isSnapCreated\<close> false, and the snapshot built from the partition snapshots collected
  was destroyed, not installed. And in the round of the slice that made the call, the
  error is of that slice, no slice snapshot is stored for it, \<open>isSnapCreated\<close> is set to
  false, the error is logged, and the round ends in a panic or goes on to the next slice
  as \<open>CrashOnError\<close> decides.
\<close>

theorem createSnapshotForIndex_slice_error:
  assumes run: "createSnapshotForIndex C consistent now streamId keyspaceId i t h a nc fc s = (out, s')"
    and calls: "sliceCalls s' = sliceCalls s @ new"
    and c: "c \<in> set new" and e: "returnedError c = Some (sid, err)"
  shows "errorLog s' = errorLog s @ List.map_filter returnedError new
       \<and> (sid, err) \<in> set (List.map_filter returnedError new)
       \<and> indexSnapMap s' = indexSnapMap s \<and> snapshotNotifych s' = snapshotNotifych s
       \<and> waiterReplies s' = waiterReplies s \<and> waitersMap s' = waitersMap s
       \<and> (C err \<longrightarrow> out = Crashed \<and> (\<exists>before. new = before @ [c]))
       \<and> (\<forall>n' lps slc v0 s0 f v1 s1.
            createSnapshotForSlice C n' t h a fc lps slc v0 s0 = (f, v1, s1)
            \<and> (\<exists>new'. sliceCalls s1 = sliceCalls s0 @ new' \<and> c \<in> set new') \<longrightarrow>
              sid = Id slc \<and> f = (if C err then Panic else Continue)
              \<and> sliceSnaps v1 = sliceSnaps v0 \<and> \<not> isSnapCreated v1
              \<and> errorLog s1 = errorLog s0 @ [(sid, err)])
       \<and> (out = Done \<longrightarrow>
            \<not> C err \<and>
            (\<exists>snapC v s2.
               indexSnapMap s i = Some snapC
               \<and> createSnapshotForPartitions C (numVbuckets s) t h a fc (csnap snapC)
                    (case indexPartnMap s i of None \<Rightarrow> [] | Some pm \<Rightarrow> pm)
                    \<lparr>needsCommit = nc, isSnapCreated = True, hasNewSnapshot = False,
                     sliceSnaps = [], partnSnaps = []\<rparr>
                    (CloneIndexSnapshot (csnap snapC) s) = (Continue, v, s2)
               \<and> \<not> isSnapCreated v
               \<and> s' = DestroyIndexSnapshot (csnap snapC)
                        (DestroyIndexSnapshot
                           \<lparr>instId = i, ts = t, partns = partnSnaps v, epoch = False\<rparr> s2)))"
proof -
  have mem: "(sid, err) \<in> set (List.map_filter returnedError new)"
    using c e by (force simp: List.map_filter_def)
  then have ne: "List.map_filter returnedError new \<noteq> []" by auto
  have nonempty: "new \<noteq> []" using c by auto
  have round: "\<forall>n' lps slc v0 s0 f v1 s1.
      createSnapshotForSlice C n' t h a fc lps slc v0 s0 = (f, v1, s1)
      \<and> (\<exists>new'. sliceCalls s1 = sliceCalls s0 @ new' \<and> c \<in> set new') \<longrightarrow>
        sid = Id slc \<and> f = (if C err then Panic else Continue)
        \<and> sliceSnaps v1 = sliceSnaps v0 \<and> \<not> isSnapCreated v1
        \<and> errorLog s1 = errorLog s0 @ [(sid, err)]"
  proof (intro allI impI, elim conjE exE)
    fix n' lps slc v0 s0 f v1 s1 new'
    assume "createSnapshotForSlice C n' t h a fc lps slc v0 s0 = (f, v1, s1)"
      and "sliceCalls s1 = sliceCalls s0 @ new'" and "c \<in> set new'"
    from createSnapshotForSlice_error [OF this e]
    show "sid = Id slc \<and> f = (if C err then Panic else Continue)
        \<and> sliceSnaps v1 = sliceSnaps v0 \<and> \<not> isSnapCreated v1
        \<and> errorLog s1 = errorLog s0 @ [(sid, err)]" by simp
  qed
  show ?thesis
  proof (cases "indexInstMap s i")
    case None
    with run calls nonempty show ?thesis by (simp add: createSnapshotForIndex_def)
  next
    case (Some idxInst)
    show ?thesis
    proof (cases "KeyspaceId idxInst \<noteq> keyspaceId \<or> Stream idxInst \<noteq> streamId
                  \<or> State idxInst = INDEX_STATE_DELETED")
      case True
      with Some run calls nonempty show ?thesis by (auto simp: createSnapshotForIndex_def)
    next
      case match: False
      show ?thesis
      proof (cases "indexSnapMap s i")
        case None
        with Some match run calls nonempty show ?thesis
          by (auto simp: createSnapshotForIndex_def)
      next
        case sc: (Some snapC)
        let ?s1 = "CloneIndexSnapshot (csnap snapC) s"
        let ?pm = "case indexPartnMap s i of None \<Rightarrow> [] | Some pm \<Rightarrow> pm"
        let ?v0 = "\<lparr>needsCommit = nc, isSnapCreated = True, hasNewSnapshot = False,
                     sliceSnaps = [], partnSnaps = []\<rparr>"
        obtain f v s2 where loop:
          "createSnapshotForPartitions C (numVbuckets s) t h a fc (csnap snapC) ?pm ?v0 ?s1 = (f, v, s2)"
          by (metis surj_pair)
        from createSnapshotForPartitions_inv [OF loop] obtain n2 where inv:
          "sliceCalls s2 = sliceCalls s @ n2"
          "errorLog s2 = errorLog s @ List.map_filter returnedError n2"
          "isSnapCreated v = (List.map_filter returnedError n2 = [])"
          "a \<longrightarrow> List.map_filter returnedError n2 = []" "f = Return \<longrightarrow> a"
          "publishedAlike ?s1 s2"
          unfolding sliceInv_def by auto
        let ?is = "\<lparr>instId = i, ts = t, partns = partnSnaps v, epoch = False\<rparr>"
        have pa: "indexSnapMap s2 = indexSnapMap s" "snapshotNotifych s2 = snapshotNotifych s"
          "waiterReplies s2 = waiterReplies s" "waitersMap s2 = waitersMap s"
          using inv(6) by (simp_all add: publishedAlike_def)
        have s': "s' = (case f of
                     Continue \<Rightarrow> DestroyIndexSnapshot (csnap snapC)
                       (if isSnapCreated v then updateSnapMapAndNotify consistent now ?is s2
                        else DestroyIndexSnapshot ?is s2)
                   | other \<Rightarrow> DestroyIndexSnapshot (csnap snapC) s2)"
          and out: "out = (case f of Panic \<Rightarrow> Crashed | other \<Rightarrow> Done)"
          using Some match sc run loop
          by (auto simp: createSnapshotForIndex_def Let_def split: flow.splits)
        have "sliceCalls s' = sliceCalls s2"
          using s' by (auto simp: updateSnapMapAndNotify_calls split: flow.splits)
        with calls inv(1) have n2: "n2 = new" by simp
        with ne inv have nsc: "\<not> isSnapCreated v" and na: "\<not> a" and nr: "f \<noteq> Return"
          by auto
        have el: "errorLog s' = errorLog s @ List.map_filter returnedError new"
          using s' nsc inv(2) n2 by (auto split: flow.splits)
        have same: "indexSnapMap s' = indexSnapMap s \<and> snapshotNotifych s' = snapshotNotifych s
            \<and> waiterReplies s' = waiterReplies s \<and> waitersMap s' = waitersMap s"
          using s' nsc pa by (auto split: flow.splits)
        have fin: "out = Done \<longrightarrow> f = Continue"
          using out nr by (cases f) auto
        from createSnapshotForPartitions_crash [OF loop] inv(1) n2
        have "\<forall>c \<in> set new. \<forall>sid err.
                returnedError c = Some (sid, err) \<and> C err \<longrightarrow>
                  f = Panic \<and> (\<exists>before. new = before @ [c])"
          unfolding crashInv_def by auto
        with c e have "C err \<longrightarrow> f = Panic \<and> (\<exists>before. new = before @ [c])"
          by blast
        with out have crash: "C err \<longrightarrow> out = Crashed \<and> (\<exists>before. new = before @ [c])"
          by auto
        then have ret: "out = Done \<longrightarrow> \<not> C err" by auto
        have built: "out = Done \<longrightarrow>
            (\<exists>snapC v s2.
               indexSnapMap s i = Some snapC
               \<and> createSnapshotForPartitions C (numVbuckets s) t h a fc (csnap snapC)
                    (case indexPartnMap s i of None \<Rightarrow> [] | Some pm \<Rightarrow> pm)
                    \<lparr>needsCommit = nc, isSnapCreated = True, hasNewSnapshot = False,
                     sliceSnaps = [], partnSnaps = []\<rparr>
                    (CloneIndexSnapshot (csnap snapC) s) = (Continue, v, s2)
               \<and> \<not> isSnapCreated v
               \<and> s' = DestroyIndexSnapshot (csnap snapC)
                        (DestroyIndexSnapshot
                           \<lparr>instId = i, ts = t, partns = partnSnaps v, epoch = False\<rparr> s2))"
          using fin loop sc nsc s' by auto
        show ?thesis
          using el mem same crash round ret built by (intro conjI) simp_all
      qed
    qed
  qed
qed


lemmas ex_defs = exMgr_def exSnapshot_def exPartnSnap_def exPartnInst_def exSlice_def exTs_def
  exInst_def exCrash_def exNoCrash_def exConsistent_def exVars_def

lemmas run_defs = createSnapshotForIndex_def createSnapshotForSlice_def
  CloneIndexSnapshot_def DestroyIndexSnapshot_def sliceSnapshots_def Open_def Close_def
  called_def Errorf_def GreaterThan_def Let_def

text \<open>
  The slice of instance 1 fails to make its snapshot for the flush at 5. Where
  \<open>CrashOnError\<close> returns, the pass returns with the error logged and the container as
  it was; where it does not, the pass ends in a panic.
\<close>

theorem createSnapshotForIndex_slice_error_witness:
  "fst (createSnapshotForIndex exNoCrash exConsistent 10 MAINT_STREAM ''b'' 1 (exTs 5 DISK_SNAP)
          False False True False (exMgr exSnapshot [exPartnInst (exSlice True True)] [])) = Done
   \<and> errorLog (snd (createSnapshotForIndex exNoCrash exConsistent 10 MAINT_STREAM ''b'' 1
          (exTs 5 DISK_SNAP) False False True False
          (exMgr exSnapshot [exPartnInst (exSlice True True)] []))) = [(0, SliceError ''disk full'')]
   \<and> indexSnapMap (snd (createSnapshotForIndex exNoCrash exConsistent 10 MAINT_STREAM ''b'' 1
          (exTs 5 DISK_SNAP) False False True False
          (exMgr exSnapshot [exPartnInst (exSlice True True)] []))) =
       [1 \<mapsto> \<lparr>csnap = exSnapshot, deleted = False\<rparr>]
   \<and> fst (createSnapshotForIndex exCrash exConsistent 10 MAINT_STREAM ''b'' 1 (exTs 5 DISK_SNAP)
          False False True False (exMgr exSnapshot [exPartnInst (exSlice True True)] [])) = Crashed"
proof -
  let ?s = "exMgr exSnapshot [exPartnInst (exSlice True True)] []"
  let ?c = "CallNewSnapshot 0 (exTs 5 DISK_SNAP) True (Inl (SliceError ''disk full''))"
  let ?new = "[CallIsDirty 0, CallFlushDone 0, ?c]"
  let ?r = "createSnapshotForIndex exNoCrash exConsistent 10 MAINT_STREAM ''b'' 1
              (exTs 5 DISK_SNAP) False False True False ?s"
  let ?q = "createSnapshotForIndex exCrash exConsistent 10 MAINT_STREAM ''b'' 1
              (exTs 5 DISK_SNAP) False False True False ?s"
  have r: "?r = (fst ?r, snd ?r)" and q: "?q = (fst ?q, snd ?q)" by simp_all
  have rcalls: "sliceCalls (snd ?r) = sliceCalls ?s @ ?new"
    and qcalls: "sliceCalls (snd ?q) = sliceCalls ?s @ ?new"
    by (simp_all add: ex_defs run_defs)
  have c: "?c \<in> set ?new" by simp
  have e: "returnedError ?c = Some (0, SliceError ''disk full'')" by simp
  have fin: "fst ?r = Done" by (simp add: ex_defs run_defs)
  from createSnapshotForIndex_slice_error [OF r rcalls c e]
  have "errorLog (snd ?r) = errorLog ?s @ List.map_filter returnedError ?new"
    and "indexSnapMap (snd ?r) = indexSnapMap ?s"
    by blast+
  then have kept: "errorLog (snd ?r) = [(0, SliceError ''disk full'')]"
    "indexSnapMap (snd ?r) = [1 \<mapsto> \<lparr>csnap = exSnapshot, deleted = False\<rparr>]"
    by (simp_all add: exMgr_def List.map_filter_def)
  from createSnapshotForIndex_slice_error [OF q qcalls c e]
  have "exCrash (SliceError ''disk full'') \<longrightarrow> fst ?q = Crashed" by blast
  then have "fst ?q = Crashed" by (simp add: exCrash_def)
  with fin kept show ?thesis by simp
qed

text \<open>
  Claim C3 as stated has the process go on after the error. The source hands every such
  error to \<open>common.CrashOnError\<close> before it continues with the next slice; when that
  function panics on an error, as \<open>ValidateBucket\<close> relies on, the pass ends there.
\<close>

theorem createSnapshotForIndex_crash_counterexample:
  "NewSnapshot (exSlice True True) (exTs 5 DISK_SNAP) True = Inl (SliceError ''disk full'')
   \<and> exCrash (SliceError ''disk full'')
   \<and> fst (createSnapshotForIndex exCrash exConsistent 10 MAINT_STREAM ''b'' 1 (exTs 5 DISK_SNAP)
          False False True False (exMgr exSnapshot [exPartnInst (exSlice True True)] [])) = Crashed"
  by (simp add: ex_defs run_defs)

subsection \<open>Prune and merge\<close>

lemma update_fresh: "k \<notin> fst ` set al \<Longrightarrow> AList.update k v al = al @ [(k, v)]"
  by (induction al) auto

lemma deepCloneSlices_distinct:
  "distinct (map fst (acc @ xs)) \<Longrightarrow>
   deepCloneSlices xs acc s = (acc @ xs, fold Open (map (\<lambda>(sid, ss). snap ss) xs) s)"
proof (induction xs arbitrary: acc s)
  case Nil
  then show ?case by simp
next
  case (Cons x xs)
  obtain sid ss where x: "x = (sid, ss)" by (cases x)
  from Cons.prems x have fresh: "sid \<notin> fst ` set acc" by auto
  have d: "distinct (map fst ((acc @ [(sid, ss)]) @ xs))" using Cons.prems x by simp
  have ss: "\<lparr>sliceId = sliceId ss, snap = snap ss\<rparr> = ss" by simp
  show ?case
    using Cons.IH [OF d] x by (simp add: update_fresh [OF fresh] ss)
qed

lemma deepClonePartns_distinct:
  "distinct (map fst (acc @ ps)) \<Longrightarrow>
   list_all (\<lambda>(pid, sp). partnId sp = pid \<and> distinct (map fst (slices sp))) ps \<Longrightarrow>
   deepClonePartns doPrune keep ps acc s =
     (acc @ filter (\<lambda>(pid, sp). \<not> doPrune \<or> pid \<in> set keep) ps,
      fold Open (concat (map (\<lambda>(pid, sp). map (\<lambda>(sid, ss). snap ss) (slices sp))
                          (filter (\<lambda>(pid, sp). \<not> doPrune \<or> pid \<in> set keep) ps))) s)"
proof (induction ps arbitrary: acc s)
  case Nil
  then show ?case by simp
next
  case (Cons p ps)
  obtain pid sp where p: "p = (pid, sp)" by (cases p)
  from Cons.prems p have fresh: "pid \<notin> fst ` set acc" and id: "partnId sp = pid"
    and ds: "distinct (map fst ([] @ slices sp))" and rest: "list_all (\<lambda>(pid, sp). partnId sp = pid \<and> distinct (map fst (slices sp))) ps"
    by auto
  show ?case
  proof (cases "\<not> doPrune \<or> pid \<in> set keep")
    case True
    have d: "distinct (map fst ((acc @ [(pid, sp)]) @ ps))" using Cons.prems p by simp
    have sp: "\<lparr>partnId = pid, slices = slices sp\<rparr> = sp" using id by simp
    from True have dc: "(if \<not> doPrune then True else list_ex (\<lambda>keepPartnId. pid = keepPartnId) keep)"
      by (auto simp: list_ex_iff)
    show ?thesis
      using Cons.IH [OF d rest] p True dc deepCloneSlices_distinct [OF ds]
      by (simp add: update_fresh [OF fresh] sp Let_def)
  next
    case False
    have d: "distinct (map fst (acc @ ps))" using Cons.prems p by simp
    from False have dc: "\<not> (if \<not> doPrune then True else list_ex (\<lambda>keepPartnId. pid = keepPartnId) keep)"
      by (auto simp: list_ex_iff)
    show ?thesis
      using Cons.IH [OF d rest] p False dc by (simp add: Let_def)
  qed
qed

lemma deepCloneIndexSnapshot_wellFormed:
  assumes "wellFormed is"
  shows "deepCloneIndexSnapshot is doPrune keep s =
     (is\<lparr>partns := filter (\<lambda>(pid, sp). \<not> doPrune \<or> pid \<in> set keep) (partns is), epoch := False\<rparr>,
      CloneIndexSnapshot
        (is\<lparr>partns := filter (\<lambda>(pid, sp). \<not> doPrune \<or> pid \<in> set keep) (partns is), epoch := False\<rparr>) s)"
  using assms deepClonePartns_distinct [of "[]" "partns is" doPrune keep s]
  by (simp add: wellFormed_def deepCloneIndexSnapshot_def CloneIndexSnapshot_def sliceSnapshots_def)


lemma initSnapshotWaitersForInst_snapMap:
  "initSnapshotWaitersForInst i s = (r, s') \<Longrightarrow> indexSnapMap s' = indexSnapMap s"
  by (auto simp: initSnapshotWaitersForInst_def split: option.splits if_splits)

lemma notifyWaiters_snapMap:
  "notifyWaiters consistent t is ws nw s = (nw', s') \<Longrightarrow> indexSnapMap s' = indexSnapMap s"
  by (drule notifyWaiters_walk) simp

lemma updateSnapMapAndNotify_installs:
  assumes "indexSnapMap s (instId is) = Some sc"
  shows "indexSnapMap (updateSnapMapAndNotify consistent t is s) =
           (indexSnapMap s)(instId is \<mapsto> sc\<lparr>csnap := is\<rparr>)"
  using assms unfolding updateSnapMapAndNotify_def Let_def
  by (auto split: option.splits prod.splits
           dest!: initSnapshotWaitersForInst_snapMap notifyWaiters_snapMap)

lemma kept_filter:
  assumes "list_all (\<lambda>(pid, sp). partnId sp = pid \<and> Q pid sp) ps"
  shows "filter (\<lambda>(pid, sp). pid \<in> set (map (\<lambda>(pid, sp). partnId sp)
                   (filter (\<lambda>(pid, sp). \<not> list_ex (\<lambda>p. p = partnId sp) partitions) ps))) ps
         = filter (\<lambda>(pid, sp). pid \<notin> set partitions) ps"
proof (rule filter_cong [OF refl])
  fix x assume x: "x \<in> set ps"
  obtain pid sp where p: "x = (pid, sp)" by (cases x)
  have ids: "\<And>q sq. (q, sq) \<in> set ps \<Longrightarrow> partnId sq = q"
    using assms by (auto simp: list_all_iff)
  let ?kept = "map (\<lambda>(pid, sp). partnId sp)
                 (filter (\<lambda>(pid, sp). \<not> list_ex (\<lambda>p. p = partnId sp) partitions) ps)"
  have "pid \<in> set ?kept \<longleftrightarrow> pid \<notin> set partitions"
  proof
    assume "pid \<in> set ?kept"
    then obtain q sq where "(q, sq) \<in> set ps" "partnId sq \<notin> set partitions" "partnId sq = pid"
      by (auto simp: list_ex_iff)
    then show "pid \<notin> set partitions" by simp
  next
    assume n: "pid \<notin> set partitions"
    have "partnId sp = pid" using ids x p by simp
    with n x p have "(pid, sp) \<in> set (filter (\<lambda>(pid, sp). \<not> list_ex (\<lambda>p. p = partnId sp) partitions) ps)"
      by (simp add: list_ex_iff)
    then have "(\<lambda>(pid, sp). partnId sp) (pid, sp) \<in> set ?kept"
      unfolding set_map by (rule imageI)
    with \<open>partnId sp = pid\<close> show "pid \<in> set ?kept" by simp
  qed
  with p show "(case x of (pid, sp) \<Rightarrow> pid \<in> set ?kept)
        = (case x of (pid, sp) \<Rightarrow> pid \<notin> set partitions)"
    by simp
qed

text \<open>
  Claim C6, as the code has it. A prune request names an instance and a list of
  partitions. When the instance has a snapshot container whose snapshot is well formed
  and its own, the snapshot published in that container afterwards has exactly the
  partition snapshots of the old one whose ids the list does \<^emph>\<open>not\<close> name. Before it is
  published every slice snapshot in it is opened, which adds to each reference count one
  for every time the snapshot occurs in it. An empty list keeps every partition.
\<close>

theorem handleIndexPruneSnapshot_keeps:
  assumes c: "indexSnapMap s i = Some snapC"
    and i: "instId (csnap snapC) = i"
    and wf: "wellFormed (csnap snapC)"
    and new: "newSnapshot = (csnap snapC)\<lparr>partns := filter (\<lambda>(pid, sp). pid \<notin> set partitions)
                                                    (partns (csnap snapC)), epoch := False\<rparr>"
  shows "handleIndexPruneSnapshot consistent now i partitions s =
           reply MsgSuccess
             (updateSnapMapAndNotify consistent now newSnapshot (CloneIndexSnapshot newSnapshot s))
       \<and> indexSnapMap (handleIndexPruneSnapshot consistent now i partitions s) i =
           Some (snapC\<lparr>csnap := newSnapshot\<rparr>)
       \<and> (\<forall>a. refcount (CloneIndexSnapshot newSnapshot s) a =
                refcount s a + count_list (map addr (sliceSnapshots newSnapshot)) a)"
proof -
  let ?kept = "map (\<lambda>(pid, sp). partnId sp)
                 (filter (\<lambda>(pid, sp). \<not> list_ex (\<lambda>p. p = partnId sp) partitions)
                    (partns (csnap snapC)))"
  have la: "list_all (\<lambda>(pid, sp). partnId sp = pid \<and> distinct (map fst (slices sp)))
              (partns (csnap snapC))"
    using wf by (simp add: wellFormed_def)
  have dc: "deepCloneIndexSnapshot (csnap snapC) True ?kept s =
              (newSnapshot, CloneIndexSnapshot newSnapshot s)"
    using deepCloneIndexSnapshot_wellFormed [OF wf, of True ?kept s] kept_filter [OF la, of partitions]
    by (simp add: new)
  have eq: "handleIndexPruneSnapshot consistent now i partitions s =
           reply MsgSuccess
             (updateSnapMapAndNotify consistent now newSnapshot (CloneIndexSnapshot newSnapshot s))"
    using c dc by (simp add: handleIndexPruneSnapshot_def Let_def)
  have inst: "instId newSnapshot = i" using i new by simp
  have "indexSnapMap (CloneIndexSnapshot newSnapshot s) (instId newSnapshot) = Some snapC"
    using c inst by simp
  from updateSnapMapAndNotify_installs [OF this]
  have "indexSnapMap (handleIndexPruneSnapshot consistent now i partitions s) i =
           Some (snapC\<lparr>csnap := newSnapshot\<rparr>)"
    using inst by (simp add: eq reply_def)
  with eq show ?thesis by (simp add: refcount_CloneIndexSnapshot)
qed

text \<open>
  Claim C5. When source and target both have a snapshot container and the timestamp of
  the source snapshot is not componentwise greater than or equal to that of the target
  snapshot, \<open>handleIndexMergeSnapshot\<close> answers the supervisor with the error
  \<open>ERROR_STORAGE_MGR_MERGE_SNAPSHOT_FAIL\<close> of severity \<open>FATAL\<close> and changes nothing else:
  no container, no reference count, no notification.
\<close>

theorem handleIndexMergeSnapshot_timestamp_mismatch:
  assumes "indexSnapMap s srcInstId = Some sourceC"
    and "indexSnapMap s tgtInstId = Some targetC"
    and "\<not> EqualOrGreater (ts (csnap sourceC)) (ts (csnap targetC)) False"
  shows "handleIndexMergeSnapshot consistent now srcInstId tgtInstId partitions s =
           s\<lparr>supvCmdch := supvCmdch s @
                [MsgError ERROR_STORAGE_MGR_MERGE_SNAPSHOT_FAIL FATAL STORAGE_MGR
                   (TimestampMismatch (ts (csnap targetC)) (ts (csnap sourceC)))]\<rparr>"
  using assms by (simp add: handleIndexMergeSnapshot_def reply_def Let_def)


lemmas publish_defs = updateSnapMapAndNotify_def notifySnapshotCreation_def
  initSnapshotContainerForInst_def initSnapshotWaitersForInst_def reply_def

theorem handleIndexPruneSnapshot_keeps_witness:
  "indexSnapMap (handleIndexPruneSnapshot exConsistent 10 1 [1] (exMgr exSnapshot2 [] [])) 1 =
     Some \<lparr>csnap = exSnapshot, deleted = False\<rparr>"
proof -
  have c: "indexSnapMap (exMgr exSnapshot2 [] []) 1 = Some \<lparr>csnap = exSnapshot2, deleted = False\<rparr>"
    by (simp add: exMgr_def)
  have i: "instId (csnap \<lparr>csnap = exSnapshot2, deleted = False\<rparr>) = 1"
    by (simp add: exSnapshot2_def)
  have wf: "wellFormed (csnap \<lparr>csnap = exSnapshot2, deleted = False\<rparr>)"
    by (simp add: exSnapshot2_def exPartnSnap_def wellFormed_def)
  have new: "exSnapshot =
      (csnap \<lparr>csnap = exSnapshot2, deleted = False\<rparr>)
        \<lparr>partns := filter (\<lambda>(pid, sp). pid \<notin> set [1])
                     (partns (csnap \<lparr>csnap = exSnapshot2, deleted = False\<rparr>)),
         epoch := False\<rparr>"
    by (simp add: exSnapshot2_def exSnapshot_def)
  from handleIndexPruneSnapshot_keeps [OF c i wf new, of exConsistent 10, THEN conjunct2, THEN conjunct1]
  show ?thesis by simp
qed

text \<open>
  Claim C6 as stated takes the list of the request for the partitions to keep. A request
  with the empty list on a snapshot with the partitions 0 and 1 publishes a snapshot with
  both, not with none; a request with the list \<open>[0]\<close> publishes a snapshot with
  partition 1 only.
\<close>

theorem handleIndexPruneSnapshot_counterexample:
  "map fst (partns (csnap (the (indexSnapMap
      (handleIndexPruneSnapshot exConsistent 10 1 [] (exMgr exSnapshot2 [] [])) 1)))) = [0, 1]
   \<and> map fst (partns (csnap (the (indexSnapMap
      (handleIndexPruneSnapshot exConsistent 10 1 [0] (exMgr exSnapshot2 [] [])) 1)))) = [1]"
  by (simp add: handleIndexPruneSnapshot_def deepCloneIndexSnapshot_def publish_defs
        CloneIndexSnapshot_def DestroyIndexSnapshot_def sliceSnapshots_def Open_def Close_def
        exMgr_def exSnapshot2_def exPartnSnap_def exInst_def Let_def)

theorem handleIndexMergeSnapshot_timestamp_mismatch_witness:
  "handleIndexMergeSnapshot exConsistent 10 1 2 [0] exMgr2 =
     exMgr2\<lparr>supvCmdch :=
        [MsgError ERROR_STORAGE_MGR_MERGE_SNAPSHOT_FAIL FATAL STORAGE_MGR
           (TimestampMismatch (exTs 5 DISK_SNAP) (exTs 3 DISK_SNAP))]\<rparr>"
  using handleIndexMergeSnapshot_timestamp_mismatch [of exMgr2 1
      "\<lparr>csnap = exSnapshot, deleted = False\<rparr>" 2
      "\<lparr>csnap = \<lparr>instId = 2, ts = exTs 5 DISK_SNAP, partns = [], epoch = False\<rparr>,
        deleted = False\<rparr>" exConsistent 10 "[0]"]
  by (simp add: exMgr2_def exMgr_def exSnapshot_def exTs_def EqualOrGreater_def)

subsection \<open>The checksum of the published timestamps\<close>

lemma crcInvariant_upd:
  "crcInvariant h s \<Longrightarrow> Crc64 (ts (csnap sc)) = h (Vbuuids (ts (csnap sc))) \<Longrightarrow>
   indexSnapMap s' = (indexSnapMap s)(i \<mapsto> sc) \<Longrightarrow> crcInvariant h s'"
  by (auto simp: crcInvariant_def ran_def split: if_splits)

lemma crcInvariant_same:
  "crcInvariant h s \<Longrightarrow> indexSnapMap s' = indexSnapMap s \<Longrightarrow> crcInvariant h s'"
  by (simp add: crcInvariant_def)

lemma initSnapshotContainerForInst_snapMap:
  "initSnapshotContainerForInst i is s = ((r, u), s') \<Longrightarrow>
   (indexSnapMap s' = indexSnapMap s \<and> (r = None \<or> r = indexSnapMap s i) \<and> (u \<longrightarrow> r = None)
    \<or> indexSnapMap s' = (indexSnapMap s)(i \<mapsto> \<lparr>csnap = is, deleted = False\<rparr>)
       \<and> r = Some \<lparr>csnap = is, deleted = False\<rparr> \<and> u)"
  by (auto simp: initSnapshotContainerForInst_def Let_def split: option.splits if_splits)

lemma updateSnapMapAndNotify_snapMap:
  "indexSnapMap (updateSnapMapAndNotify consistent t is s) = indexSnapMap s
   \<or> (\<exists>sc. csnap sc = is \<and>
         indexSnapMap (updateSnapMapAndNotify consistent t is s) = (indexSnapMap s)(instId is \<mapsto> sc))"
proof (cases "indexSnapMap s (instId is)")
  case (Some sc)
  from updateSnapMapAndNotify_installs [OF Some, of consistent t]
  show ?thesis by (intro disjI2 exI [of _ "sc\<lparr>csnap := is\<rparr>"]) simp
next
  case None
  obtain r u s1 where i: "initSnapshotContainerForInst (instId is) is s = ((r, u), s1)"
    by (metis surj_pair)
  from initSnapshotContainerForInst_snapMap [OF i] consider
    (same) "indexSnapMap s1 = indexSnapMap s" "r = None \<or> r = indexSnapMap s (instId is)"
    | (made) "indexSnapMap s1 = (indexSnapMap s)(instId is \<mapsto> \<lparr>csnap = is, deleted = False\<rparr>)"
        "r = Some \<lparr>csnap = is, deleted = False\<rparr>" "u"
    by blast
  then show ?thesis
  proof cases
    case same
    with None have "r = None" by auto
    with None i same show ?thesis by (simp add: updateSnapMapAndNotify_def)
  next
    case made
    with None i have "indexSnapMap (updateSnapMapAndNotify consistent t is s) = indexSnapMap s1"
      unfolding updateSnapMapAndNotify_def Let_def
      by (auto split: option.splits prod.splits
               dest!: initSnapshotWaitersForInst_snapMap notifyWaiters_snapMap)
    with made show ?thesis by (intro disjI2 exI [of _ "\<lparr>csnap = is, deleted = False\<rparr>"]) simp
  qed
qed

lemma updateSnapMapAndNotify_crc:
  assumes "crcInvariant h s" and "Crc64 (ts is) = h (Vbuuids (ts is))"
  shows "crcInvariant h (updateSnapMapAndNotify consistent t is s)"
  using updateSnapMapAndNotify_snapMap [of consistent t "is" s] assms
  by (auto intro: crcInvariant_same crcInvariant_upd)

lemma createSnapshotForIndex_cases:
  assumes run: "createSnapshotForIndex C consistent now streamId keyspaceId i tsVbuuid hsb a nc fc s = (out, s')"
  obtains (skip) "s' = s"
  | (pass) snapC f v s2 where "indexSnapMap s i = Some snapC"
      "createSnapshotForPartitions C (numVbuckets s) tsVbuuid hsb a fc (csnap snapC)
        (case indexPartnMap s i of None \<Rightarrow> [] | Some pm \<Rightarrow> pm)
        \<lparr>needsCommit = nc, isSnapCreated = True, hasNewSnapshot = False,
          sliceSnaps = [], partnSnaps = []\<rparr> (CloneIndexSnapshot (csnap snapC) s) = (f, v, s2)"
      "s' = (case f of
               Continue \<Rightarrow> DestroyIndexSnapshot (csnap snapC)
                 (if isSnapCreated v
                  then updateSnapMapAndNotify consistent now
                         \<lparr>instId = i, ts = tsVbuuid, partns = partnSnaps v, epoch = False\<rparr> s2
                  else DestroyIndexSnapshot
                         \<lparr>instId = i, ts = tsVbuuid, partns = partnSnaps v, epoch = False\<rparr> s2)
             | other \<Rightarrow> DestroyIndexSnapshot (csnap snapC) s2)"
      "out = (case f of Panic \<Rightarrow> Crashed | other \<Rightarrow> Done)"
proof (cases "indexInstMap s i")
  case None
  with run have "s' = s" by (simp add: createSnapshotForIndex_def)
  then show ?thesis by (rule skip)
next
  case (Some idxInst)
  show ?thesis
  proof (cases "KeyspaceId idxInst \<noteq> keyspaceId \<or> Stream idxInst \<noteq> streamId
                \<or> State idxInst = INDEX_STATE_DELETED")
    case True
    with Some run have "s' = s" by (auto simp: createSnapshotForIndex_def)
    then show ?thesis by (rule skip)
  next
    case match: False
    show ?thesis
    proof (cases "indexSnapMap s i")
      case None
      with Some match run have "s' = s" by (auto simp: createSnapshotForIndex_def)
      then show ?thesis by (rule skip)
    next
      case sc: (Some snapC)
      obtain f v s2 where loop:
        "createSnapshotForPartitions C (numVbuckets s) tsVbuuid hsb a fc (csnap snapC)
          (case indexPartnMap s i of None \<Rightarrow> [] | Some pm \<Rightarrow> pm)
          \<lparr>needsCommit = nc, isSnapCreated = True, hasNewSnapshot = False,
            sliceSnaps = [], partnSnaps = []\<rparr> (CloneIndexSnapshot (csnap snapC) s) = (f, v, s2)"
        by (metis surj_pair)
      show ?thesis
        using Some match sc run loop
        by (intro pass [OF sc loop])
           (auto simp: createSnapshotForIndex_def Let_def split: flow.splits)
    qed
  qed
qed

lemma createSnapshotForIndex_crc:
  assumes inv: "crcInvariant h s" and ok: "Crc64 tsVbuuid = h (Vbuuids tsVbuuid)"
    and run: "createSnapshotForIndex C consistent now streamId keyspaceId i tsVbuuid hsb a nc fc s = (out, s')"
  shows "crcInvariant h s'"
  using run
proof (cases rule: createSnapshotForIndex_cases)
  case skip
  with inv show ?thesis by simp
next
  case (pass snapC f v s2)
  from createSnapshotForPartitions_inv [OF pass(2)] have "publishedAlike (CloneIndexSnapshot (csnap snapC) s) s2"
    by (auto simp: sliceInv_def)
  then have "indexSnapMap s2 = indexSnapMap s" by (simp add: publishedAlike_def)
  with inv have i2: "crcInvariant h s2" by (rule crcInvariant_same)
  let ?is = "\<lparr>instId = i, ts = tsVbuuid, partns = partnSnaps v, epoch = False\<rparr>"
  have i3: "crcInvariant h (updateSnapMapAndNotify consistent now ?is s2)"
    using i2 ok by (intro updateSnapMapAndNotify_crc) simp_all
  show ?thesis
    unfolding pass(3)
    by (cases f) (auto intro: crcInvariant_same [OF i2] crcInvariant_same [OF i3])
qed

lemma createSnapshotForInsts_crc:
  "crcInvariant h s \<Longrightarrow> Crc64 tsVbuuid = h (Vbuuids tsVbuuid) \<Longrightarrow>
   createSnapshotForInsts C consistent now streamId keyspaceId tsVbuuid hsb a nc fc insts s = (out, s')
   \<Longrightarrow> crcInvariant h s'"
proof (induction insts arbitrary: s)
  case Nil
  then show ?case by simp
next
  case (Cons i insts)
  obtain o1 s1 where 1:
    "createSnapshotForIndex C consistent now streamId keyspaceId i tsVbuuid hsb a nc fc s = (o1, s1)"
    by (metis surj_pair)
  from createSnapshotForIndex_crc [OF Cons.prems(1,2) 1] have i1: "crcInvariant h s1" .
  show ?case
  proof (cases o1)
    case Done
    with Cons.prems(3) 1 have
      "createSnapshotForInsts C consistent now streamId keyspaceId tsVbuuid hsb a nc fc insts s1 = (out, s')"
      by simp
    from Cons.IH [OF i1 Cons.prems(2) this] show ?thesis .
  next
    case Crashed
    with Cons.prems(3) 1 i1 show ?thesis by simp
  qed
qed

lemma fold_called_snapMap:
  "indexSnapMap (fold (\<lambda>x. called (g x)) xs s) = indexSnapMap s"
  by (induction xs arbitrary: s) (simp_all add: called_def)

lemma flushDone_snapMap:
  "indexSnapMap (flushDone tuning keys streamId keyspaceId insts t a hsb s) = indexSnapMap s"
  by (simp add: flushDone_def Let_def fold_called_snapMap)

lemma handleCreateSnapshot_crc:
  assumes inv: "crcInvariant h s"
    and run: "handleCreateSnapshot h C consistent now tuning keys streamId keyspaceId t0 a hsb s = (out, s')"
  shows "crcInvariant h s'"
proof -
  let ?s = "s\<lparr>supvCmdch := supvCmdch s @ [MsgSuccess]\<rparr>"
  let ?t = "t0\<lparr>Crc64 := h (Vbuuids t0)\<rparr>"
  have i0: "crcInvariant h ?s" using inv by (rule crcInvariant_same) simp
  have ok: "Crc64 ?t = h (Vbuuids ?t)" by simp
  show ?thesis
  proof (cases "SnapType t0 = NO_SNAP \<or> SnapType t0 = NO_SNAP_OSO")
    case True
    with run have "indexSnapMap s' = indexSnapMap ?s"
      by (auto simp: handleCreateSnapshot_def Let_def flushDone_snapMap)
    with i0 show ?thesis by (rule crcInvariant_same)
  next
    case False
    obtain nc fc where fl: "commitFlags (SnapType ?t) = (nc, fc)" by (metis surj_pair)
    obtain o1 s1 where w:
      "createSnapshotForInsts C consistent now streamId keyspaceId ?t hsb a nc fc
         (concat (instsPerWorker (streamKeyspaceIdInstList ?s streamId keyspaceId)
                    (getNumSnapshotWorkers ?s))) ?s = (o1, s1)"
      by (metis surj_pair)
    from createSnapshotForInsts_crc [OF i0 ok w] have i1: "crcInvariant h s1" .
    from False run fl w have "indexSnapMap s' = indexSnapMap s1"
      by (auto simp: handleCreateSnapshot_def createSnapshotWorker_def Let_def split: outcome.splits)
    with i1 show ?thesis by (rule crcInvariant_same)
  qed
qed


lemma addNilSnapshot_snapMap:
  assumes "indexSnapMap s i = None"
  shows "indexSnapMap (addNilSnapshot i bucket s) =
     (indexSnapMap s)(i \<mapsto> \<lparr>csnap = \<lparr>instId = i, ts = NewTsVbuuid bucket (numVbuckets s),
                                        partns = [], epoch = True\<rparr>, deleted = False\<rparr>)"
  using assms by (simp add: addNilSnapshot_def Let_def)

text \<open>
  Claim C8, as the code has it. Suppose that in every snapshot container the checksum of
  the timestamp of the snapshot is the hash of its vbuuids. Then this is so after
  \<open>handleCreateSnapshot\<close> too, which sets the checksum of the flush timestamp to the hash
  of its vbuuids before any snapshot is made with it. The nil snapshot that
  \<open>addNilSnapshot\<close> gives an instance without a container has the checksum 0 and only
  zero vbuuids, so after it the equation holds in every container exactly if the hash of
  the zero vector of that width is 0.
\<close>

theorem crcInvariant_installs:
  assumes inv: "crcInvariant h s"
  shows "(handleCreateSnapshot h C consistent now tuning keys streamId keyspaceId t0 a hsb s = (out, s')
            \<longrightarrow> crcInvariant h s')
       \<and> (indexSnapMap s i = None \<longrightarrow>
            (\<exists>sc. indexSnapMap (addNilSnapshot i bucket s) i = Some sc
                  \<and> Crc64 (ts (csnap sc)) = 0
                  \<and> Vbuuids (ts (csnap sc)) = replicate (numVbuckets s) 0)
            \<and> (crcInvariant h (addNilSnapshot i bucket s) \<longleftrightarrow> h (replicate (numVbuckets s) 0) = 0))"
proof (intro conjI impI)
  assume "handleCreateSnapshot h C consistent now tuning keys streamId keyspaceId t0 a hsb s = (out, s')"
  from handleCreateSnapshot_crc [OF inv this] show "crcInvariant h s'" .
next
  assume n: "indexSnapMap s i = None"
  show "\<exists>sc. indexSnapMap (addNilSnapshot i bucket s) i = Some sc
                  \<and> Crc64 (ts (csnap sc)) = 0
                  \<and> Vbuuids (ts (csnap sc)) = replicate (numVbuckets s) 0"
    by (simp add: addNilSnapshot_snapMap [OF n] NewTsVbuuid_def)
next
  assume n: "indexSnapMap s i = None"
  have "ran (indexSnapMap (addNilSnapshot i bucket s)) =
     insert \<lparr>csnap = \<lparr>instId = i, ts = NewTsVbuuid bucket (numVbuckets s),
                       partns = [], epoch = True\<rparr>, deleted = False\<rparr> (ran (indexSnapMap s))"
    using n by (simp add: addNilSnapshot_snapMap [OF n])
  with inv show "crcInvariant h (addNilSnapshot i bucket s) \<longleftrightarrow> h (replicate (numVbuckets s) 0) = 0"
    by (auto simp: crcInvariant_def NewTsVbuuid_def)
qed

theorem crcInvariant_installs_witness:
  "crcInvariant exHash exMgrCrc
   \<and> crcInvariant exHash (snd (handleCreateSnapshot exHash exNoCrash exConsistent 10 False [1]
        MAINT_STREAM ''b'' (exTs 5 DISK_SNAP) False False exMgrCrc))
   \<and> indexSnapMap exMgr0 1 = None
   \<and> \<not> crcInvariant exHash (addNilSnapshot 1 ''b'' exMgr0)"
proof -
  have inv: "crcInvariant exHash exMgrCrc"
    by (simp add: crcInvariant_def exMgrCrc_def exMgr_def exTs_def exHash_def)
  have inv0: "crcInvariant exHash exMgr0"
    by (simp add: crcInvariant_def exMgr0_def)
  have n: "indexSnapMap exMgr0 1 = None" by (simp add: exMgr0_def)
  have nv: "numVbuckets exMgr0 = 1" by (simp add: exMgr0_def exMgr_def)
  from crcInvariant_installs [OF inv, of exNoCrash exConsistent 10 False "[1]" MAINT_STREAM "''b''"
      "exTs 5 DISK_SNAP" False False
      "fst (handleCreateSnapshot exHash exNoCrash exConsistent 10 False [1]
        MAINT_STREAM ''b'' (exTs 5 DISK_SNAP) False False exMgrCrc)"
      "snd (handleCreateSnapshot exHash exNoCrash exConsistent 10 False [1]
        MAINT_STREAM ''b'' (exTs 5 DISK_SNAP) False False exMgrCrc)" 1 "''b''"]
  have a: "crcInvariant exHash (snd (handleCreateSnapshot exHash exNoCrash exConsistent 10 False [1]
        MAINT_STREAM ''b'' (exTs 5 DISK_SNAP) False False exMgrCrc))"
    by simp
  from crcInvariant_installs [OF inv0, of exNoCrash exConsistent 10 False "[1]" MAINT_STREAM "''b''"
      "exTs 5 DISK_SNAP" False False Done exMgr0 1 "''b''"] n nv
  have b: "\<not> crcInvariant exHash (addNilSnapshot 1 ''b'' exMgr0)"
    by (simp add: exHash_def)
  from inv a n b show ?thesis by simp
qed

text \<open>
  Claim C8 as stated has the lazy creation of the nil snapshot preserve the equation. The
  source gives the nil snapshot a fresh timestamp and notes that it "should have ZERO
  Crc64"; the hash is not computed. With a hash that does not send the zero vector to 0
  (here the sum of the vbuuids plus one) the new container breaks the equation.
\<close>

theorem crcInvariant_nil_counterexample:
  "crcInvariant exHash exMgr0 \<and> \<not> crcInvariant exHash (addNilSnapshot 1 ''b'' exMgr0)"
  by (simp add: crcInvariant_def exMgr0_def exMgr_def addNilSnapshot_def notifySnapshotCreation_def
        CloneIndexSnapshot_def sliceSnapshots_def NewTsVbuuid_def exHash_def Let_def)

subsection \<open>Rolling back a slice\<close>

lemma find_first:
  "find P xs = Some x \<Longrightarrow>
   P x \<and> (\<exists>newer older. xs = newer @ x # older \<and> (\<forall>y \<in> set newer. \<not> P y))"
proof (induction xs)
  case Nil
  then show ?case by simp
next
  case (Cons a xs)
  show ?case
  proof (cases "P a")
    case True
    with Cons.prems have "a = x" by simp
    with True show ?thesis by (intro conjI exI [of _ "[]"] exI [of _ xs]) simp_all
  next
    case False
    with Cons.prems have "find P xs = Some x" by simp
    from Cons.IH [OF this] obtain newer older where
      "P x" "xs = newer @ x # older" "\<forall>y \<in> set newer. \<not> P y" by blast
    with False show ?thesis
      by (intro conjI exI [of _ "a # newer"] exI [of _ older]) simp_all
  qed
qed

lemma find_none: "find P xs = None \<Longrightarrow> \<forall>y \<in> set xs. \<not> P y"
  by (simp add: find_None_iff)

text \<open>
  Claim C2, as the code has it. For a slice whose \<open>GetSnapshots\<close> lists \<open>infos\<close>: if one of
  them is an OSO snapshot the search picks nothing. If none is and the rollback timestamp
  has no zero sequence number, the search picks the newest info whose timestamp is at
  most the rollback timestamp: the first such info of the list, which is newest first,
  or nothing if there is none. When the search picks an info, \<open>Rollback\<close> is called with
  it, and the restart timestamp is the timestamp of the pick if \<open>Rollback\<close> returns no
  error; if it returns an error there is no restart timestamp and the error is returned.
  When the search picks nothing, \<open>RollbackToZero\<close> is called and there is no restart
  timestamp.
\<close>

theorem rollbackSlice_pick:
  assumes g: "GetSnapshots slc = Inr infos"
    and run: "rollbackSlice slc rollbackTs markAsUsed s = (r, s')"
  shows "(list_ex IsOSOSnap infos \<longrightarrow> findRollbackSnapshot slc rollbackTs = Returns None)
       \<and> (\<not> list_ex IsOSOSnap infos \<and> \<not> HasZeroSeqNum rollbackTs \<longrightarrow>
            findRollbackSnapshot slc rollbackTs = Returns (find (olderThanTS rollbackTs) infos)
            \<and> (case find (olderThanTS rollbackTs) infos of
                 Some pick \<Rightarrow>
                   olderThanTS rollbackTs pick
                   \<and> (\<exists>newer older. infos = newer @ pick # older
                          \<and> (\<forall>info \<in> set newer. \<not> olderThanTS rollbackTs info))
               | None \<Rightarrow> \<forall>info \<in> set infos. \<not> olderThanTS rollbackTs info))
       \<and> (\<forall>pick. findRollbackSnapshot slc rollbackTs = Returns (Some pick) \<longrightarrow>
            (\<exists>rest. sliceCalls s' =
                 sliceCalls s @ CallRollback (Id slc) pick (Rollback slc pick) # rest)
            \<and> r = Returns (case Rollback slc pick of
                             None \<Rightarrow> (Some (infoTimestamp pick), None)
                           | Some err \<Rightarrow> (None, Some err)))
       \<and> (findRollbackSnapshot slc rollbackTs = Returns None \<longrightarrow>
            (\<exists>rest. sliceCalls s' =
                 sliceCalls s @ CallRollbackToZero (Id slc) (RollbackToZero slc) # rest)
            \<and> r = Returns (None, RollbackToZero slc))"
proof (intro conjI impI allI)
  assume "list_ex IsOSOSnap infos"
  with g show "findRollbackSnapshot slc rollbackTs = Returns None"
    by (simp add: findRollbackSnapshot_def)
next
  assume "\<not> list_ex IsOSOSnap infos \<and> \<not> HasZeroSeqNum rollbackTs"
  with g show "findRollbackSnapshot slc rollbackTs = Returns (find (olderThanTS rollbackTs) infos)"
    by (simp add: findRollbackSnapshot_def GetOlderThanTS_def)
  show "case find (olderThanTS rollbackTs) infos of
                 Some pick \<Rightarrow>
                   olderThanTS rollbackTs pick
                   \<and> (\<exists>newer older. infos = newer @ pick # older
                          \<and> (\<forall>info \<in> set newer. \<not> olderThanTS rollbackTs info))
               | None \<Rightarrow> \<forall>info \<in> set infos. \<not> olderThanTS rollbackTs info"
  proof (cases "find (olderThanTS rollbackTs) infos")
    case None
    from find_none [OF this] None show ?thesis by simp
  next
    case (Some pick)
    from find_first [OF this] Some show ?thesis by simp
  qed
next
  fix pick assume p: "findRollbackSnapshot slc rollbackTs = Returns (Some pick)"
  with run show "\<exists>rest. sliceCalls s' =
                 sliceCalls s @ CallRollback (Id slc) pick (Rollback slc pick) # rest"
    by (auto simp: rollbackSlice_def rollbackToSnapshot_def Let_def called_def split: option.splits)
  from p run show "r = Returns (case Rollback slc pick of
                             None \<Rightarrow> (Some (infoTimestamp pick), None)
                           | Some err \<Rightarrow> (None, Some err))"
    by (auto simp: rollbackSlice_def rollbackToSnapshot_def Let_def split: option.splits)
next
  assume p: "findRollbackSnapshot slc rollbackTs = Returns None"
  with run show "\<exists>rest. sliceCalls s' =
                 sliceCalls s @ CallRollbackToZero (Id slc) (RollbackToZero slc) # rest"
    by (auto simp: rollbackSlice_def rollbackToSnapshot_def Let_def called_def split: option.splits)
  from p run show "r = Returns (None, RollbackToZero slc)"
    by (auto simp: rollbackSlice_def rollbackToSnapshot_def Let_def split: option.splits)
qed

lemmas rollback_defs = rollbackSlice_def rollbackToSnapshot_def findRollbackSnapshot_def
  GetOlderThanTS_def olderThanTS_def HasZeroSeqNum_def exRollbackSlice_def exInfo_def
  exSlice_def exTs_def called_def Let_def

theorem rollbackSlice_pick_witness:
  "findRollbackSnapshot (exRollbackSlice None) (exTs 22 NO_SNAP) = Returns (Some (exInfo 20))
   \<and> fst (rollbackSlice (exRollbackSlice None) (exTs 22 NO_SNAP) False exMgr0) =
       Returns (Some (exTs 20 DISK_SNAP), None)
   \<and> sliceCalls (snd (rollbackSlice (exRollbackSlice None) (exTs 22 NO_SNAP) False exMgr0)) =
       [CallRollback 0 (exInfo 20) None]"
  using rollbackSlice_pick [of "exRollbackSlice None" "[exInfo 30, exInfo 20, exInfo 10]"
      "exTs 22 NO_SNAP" False exMgr0
      "fst (rollbackSlice (exRollbackSlice None) (exTs 22 NO_SNAP) False exMgr0)"
      "snd (rollbackSlice (exRollbackSlice None) (exTs 22 NO_SNAP) False exMgr0)"]
  by (simp add: rollback_defs exMgr0_def exMgr_def)

text \<open>
  Claim C2 as stated has the restart timestamp be that of the pick whenever there is a
  pick. Here the search picks the info at 20 for the rollback timestamp 22, \<open>Rollback\<close>
  returns an error, and \<open>rollbackToSnapshot\<close> returns that error and no restart
  timestamp.
\<close>

theorem rollbackSlice_error_counterexample:
  "findRollbackSnapshot (exRollbackSlice (Some (SliceError ''io''))) (exTs 22 NO_SNAP) =
     Returns (Some (exInfo 20))
   \<and> fst (rollbackSlice (exRollbackSlice (Some (SliceError ''io''))) (exTs 22 NO_SNAP) False exMgr0) =
       Returns (None, Some (SliceError ''io''))"
  by (simp add: rollback_defs)

subsection \<open>The end of a rollback\<close>

text \<open>
  The steps that rebuild the snapshot containers leave the waiters, the replies to them
  and the instances as they are; only the steps of the goroutine change them.
\<close>

lemma waitersAlike_refl [simp]: "waitersAlike s s"
  by (simp add: waitersAlike_def)

lemma waitersAlike_trans: "waitersAlike s s1 \<Longrightarrow> waitersAlike s1 s2 \<Longrightarrow> waitersAlike s s2"
  by (simp add: waitersAlike_def)

lemma waitersAlike_simps [simp]:
  "waitersAlike s (called c s)"
  "waitersAlike s (Open sn s)"
  "waitersAlike s (CloneIndexSnapshot is s)"
  "waitersAlike s (DestroyIndexSnapshot is s)"
  "waitersAlike s (notifySnapshotCreation is s)"
  "waitersAlike s (notifySnapshotDeletion i s)"
  "waitersAlike s (addNilSnapshot i bucket s)"
  by (simp_all add: waitersAlike_def called_def Open_def notifySnapshotDeletion_def
        addNilSnapshot_def Let_def split: option.splits)

lemma rollbackToSnapshot_waiters:
  "rollbackToSnapshot slc info m s = (r, s') \<Longrightarrow> waitersAlike s s'"
  by (auto simp: rollbackToSnapshot_def Let_def waitersAlike_def called_def split: option.splits if_splits)

lemma rollbackSlicesToZero_waiters:
  "rollbackSlicesToZero sls s = (r, s') \<Longrightarrow> waitersAlike s s'"
proof (induction sls arbitrary: s)
  case Nil
  then show ?case by simp
next
  case (Cons slc sls)
  obtain rt e s1 where 1: "rollbackToSnapshot slc None False s = ((rt, e), s1)"
    by (metis surj_pair)
  note w1 = rollbackToSnapshot_waiters [OF 1]
  show ?case
  proof (cases e)
    case None
    with Cons.prems 1 have "rollbackSlicesToZero sls s1 = (r, s')" by simp
    from waitersAlike_trans [OF w1 Cons.IH [OF this]] show ?thesis .
  next
    case (Some err)
    with Cons.prems 1 w1 show ?thesis by simp
  qed
qed

lemma openFirstUsable_waiters:
  "openFirstUsable slc infos s = (r, s') \<Longrightarrow> waitersAlike s s'"
proof (induction infos arbitrary: s)
  case Nil
  then show ?case by simp
next
  case (Cons info infos)
  let ?s1 = "called (CallOpenSnapshot (Id slc) info (OpenSnapshot slc info)) s"
  show ?case
  proof (cases "OpenSnapshot slc info")
    case (Inl err)
    show ?thesis
    proof (cases "err = errStorageCorrupted")
      case True
      with Inl Cons.prems have "openFirstUsable slc infos ?s1 = (r, s')" by (simp add: Let_def)
      from waitersAlike_trans [OF _ Cons.IH [OF this]] show ?thesis by simp
    next
      case False
      with Inl Cons.prems show ?thesis by (auto simp: Let_def)
    qed
  next
    case (Inr sn)
    with Cons.prems have "s' = Open sn ?s1" by (auto simp: Let_def)
    then show ?thesis by (simp add: waitersAlike_def called_def Open_def)
  qed
qed

lemma openSnapshot_waiters:
  "openSnapshot p m s = (r, s') \<Longrightarrow> waitersAlike s s'"
  unfolding openSnapshot_def Let_def
  by (auto split: option.splits sum.splits prod.splits orPanic.splits if_splits
           dest: openFirstUsable_waiters)


lemma openPartitions_waiters:
  "openPartitions pm ps m t nr s = (r, s') \<Longrightarrow> waitersAlike s s'"
proof (induction ps arbitrary: m t nr s)
  case Nil
  then show ?case by simp
next
  case (Cons p ps)
  obtain r1 s1 where 1: "openSnapshot p m s = (r1, s1)" by (metis surj_pair)
  note w1 = openSnapshot_waiters [OF 1]
  from Cons.prems 1 consider (stop) "s' = s1"
    | (rec) m' t' nr' where "openPartitions pm ps m' t' nr' s1 = (r, s')"
    | (zero) e where "rollbackSlicesToZero (concat (map GetAllSlices pm)) s1 = (e, s')"
    by (auto split: orPanic.splits option.splits prod.splits if_splits)
  then show ?case
  proof cases
    case stop
    with w1 show ?thesis by simp
  next
    case rec
    from waitersAlike_trans [OF w1 Cons.IH [OF rec]] show ?thesis .
  next
    case zero
    from waitersAlike_trans [OF w1 rollbackSlicesToZero_waiters [OF zero]] show ?thesis .
  qed
qed

lemma updateIndexSnapMapForIndex_waiters:
  assumes "updateIndexSnapMapForIndex bucket i idxInst pm streamId keyspaceId s = (out, s')"
  shows "waitersAlike s s'"
proof (cases "keyspaceId \<noteq> [] \<and> streamId \<noteq> ALL_STREAMS
         \<and> (KeyspaceId idxInst \<noteq> keyspaceId \<or> Stream idxInst \<noteq> streamId
            \<or> State idxInst = INDEX_STATE_DELETED)")
  case True
  with assms show ?thesis by (auto simp: updateIndexSnapMapForIndex_def)
next
  case False
  define s1 where "s1 = (case indexSnapMap s i of
                    None \<Rightarrow> s
                  | Some sc \<Rightarrow>
                      (let d = DestroyIndexSnapshot (csnap sc) s
                       in notifySnapshotDeletion i
                            (d\<lparr>indexSnapMap := (indexSnapMap d)(i := None)\<rparr>)))"
  have w1: "waitersAlike s s1"
    by (simp add: s1_def waitersAlike_def notifySnapshotDeletion_def Let_def split: option.splits)
  obtain r s2 where o: "openPartitions pm pm [] None False s1 = (r, s2)" by (metis surj_pair)
  have w2: "waitersAlike s s2"
    by (rule waitersAlike_trans [OF w1 openPartitions_waiters [OF o]])
  have unf: "updateIndexSnapMapForIndex bucket i idxInst pm streamId keyspaceId s =
     (case (r, s2) of
             (Panics, s2) \<Rightarrow> (Crashed, s2)
           | (Returns (m, tsVbuuid, needRestart), s2) \<Rightarrow>
               if needRestart then (Crashed, s2)
               else
                 (case (m, tsVbuuid) of
                    (Some (e # es), Some t) \<Rightarrow>
                      (let is = \<lparr>instId = i, ts = t, partns = e # es, epoch = False\<rparr>;
                           newC = (case indexSnapMap s i of
                                     None \<Rightarrow> \<lparr>csnap = is, deleted = False\<rparr>
                                   | Some sc \<Rightarrow> sc\<lparr>csnap := is\<rparr>)
                       in (Done, notifySnapshotCreation is
                                   (s2\<lparr>indexSnapMap := (indexSnapMap s2)(i \<mapsto> newC)\<rparr>)))
                  | other \<Rightarrow> (Done, addNilSnapshot i bucket s2)))"
  proof -
    have c: "(if keyspaceId \<noteq> [] \<and> streamId \<noteq> ALL_STREAMS
         \<and> (KeyspaceId idxInst \<noteq> keyspaceId \<or> Stream idxInst \<noteq> streamId
            \<or> State idxInst = INDEX_STATE_DELETED) then x else y) = y" for x y :: "outcome \<times> storageMgr"
      using False by (simp only: if_False)
    show ?thesis
      unfolding updateIndexSnapMapForIndex_def c Let_def o [symmetric] s1_def
      by simp
  qed
  from assms consider (same) "s' = s2"
    | (inst) "is" c where "s' = notifySnapshotCreation is (s2\<lparr>indexSnapMap := c\<rparr>)"
    | (nil) "s' = addNilSnapshot i bucket s2"
    unfolding unf
    by (auto simp: Let_def split: orPanic.splits option.splits list.splits if_splits)
  then show ?thesis
  proof cases
    case same
    with w2 show ?thesis by simp
  next
    case inst
    with w2 show ?thesis by (simp add: waitersAlike_def)
  next
    case nil
    from waitersAlike_trans [OF w2] nil show ?thesis by simp
  qed
qed

lemma drainWaiters_alike:
  "waitersAlike s1 s2 \<Longrightarrow>
   waitersAlike (drainWaiters streamId keyspaceId i s1) (drainWaiters streamId keyspaceId i s2)"
  by (auto simp: waitersAlike_def drainWaiters_def split: option.splits)

lemma runStep_waiters:
  assumes "runStep f d streamId keyspaceId st s = (out, s')"
  shows "waitersAlike (case st of Drain i \<Rightarrow> drainWaiters streamId keyspaceId i s | other \<Rightarrow> s) s'"
proof (cases st)
  case (Drain i)
  with assms show ?thesis by (auto simp: runStep_def)
next
  case (Reconstruct i)
  with assms show ?thesis
    by (auto simp: runStep_def split: option.splits dest: updateIndexSnapMapForIndex_waiters)
next
  case RollbackDone
  with assms show ?thesis by (auto simp: runStep_def waitersAlike_def)
qed

lemma fold_drain_alike:
  "waitersAlike s1 s2 \<Longrightarrow>
   waitersAlike (fold (drainWaiters streamId keyspaceId) is s1) (fold (drainWaiters streamId keyspaceId) is s2)"
  by (induction "is" arbitrary: s1 s2) (simp_all add: drainWaiters_alike)

lemma runSteps_waiters:
  "runSteps f d streamId keyspaceId sched s = (out, s') \<Longrightarrow> out = Done \<Longrightarrow>
   waitersAlike (fold (drainWaiters streamId keyspaceId) (drainsOf sched) s) s'"
proof (induction sched arbitrary: s)
  case Nil
  then show ?case by simp
next
  case (Cons st sched)
  obtain o1 s1 where 1: "runStep f d streamId keyspaceId st s = (o1, s1)" by (metis surj_pair)
  with Cons.prems have o1: "o1 = Done" and rest: "runSteps f d streamId keyspaceId sched s1 = (out, s')"
    by (auto split: outcome.splits)
  note w1 = runStep_waiters [OF 1]
  note w2 = Cons.IH [OF rest Cons.prems(2)]
  have "waitersAlike (fold (drainWaiters streamId keyspaceId) (drainsOf (st # sched)) s)
          (fold (drainWaiters streamId keyspaceId) (drainsOf sched) s1)"
    using fold_drain_alike [OF w1, of streamId keyspaceId "drainsOf sched"]
    by (cases st) simp_all
  from waitersAlike_trans [OF this w2] show ?case .
qed
















section \<open>Properties of the scan planner\<close>

subsection \<open>A filter whose high key is below its low key\<close>

text \<open>
  A filter whose keys decode to a high key below the low key has a key that is not nil,
  so its scan is not taken for a scan of everything.
\<close>

lemma inverted_not_nil:
  assumes "newLowKey c r lo = Inr l" and "newHighKey c r hi = Inr h"
    and "IndexKeyLessThan h l"
  shows "\<not> (isNil r lo \<and> isNil r hi)"
  using assms by (auto simp: newLowKey_def newHighKey_def IndexKeyLessThan_def)

lemma inverted_not_areFiltersNil:
  assumes "fl \<in> set (pFilters S)"
    and "newLowKey c r (pLow fl) = Inr l" and "newHighKey c r (pHigh fl) = Inr h"
    and "IndexKeyLessThan h l"
  shows "\<not> areFiltersNil r S"
  using assms(1) inverted_not_nil [OF assms(2-4)]
  by (auto simp: areFiltersNil_def list_all_iff)

lemma encodeFilters_skip:
  assumes "\<forall>f \<in> set pre. \<exists>l h. newLowKey c r (pLow f) = Inr l \<and> newHighKey c r (pHigh f) = Inr h"
    and "newLowKey c r (pLow fl) = Inr l" and "newHighKey c r (pHigh fl) = Inr h"
    and "IndexKeyLessThan h l"
  shows "encodeFilters c r (pre @ fl # post) compFilters = Inr None"
  using assms
proof (induction pre arbitrary: compFilters)
  case Nil
  then show ?case by simp
next
  case (Cons f pre)
  from Cons.prems(1) obtain l' h' where
    "newLowKey c r (pLow f) = Inr l'" "newHighKey c r (pHigh f) = Inr h'" by auto
  moreover from Cons.prems(1) have
    "\<forall>f \<in> set pre. \<exists>l h. newLowKey c r (pLow f) = Inr l \<and> newHighKey c r (pHigh f) = Inr h"
    by simp
  ultimately show ?case using Cons.IH Cons.prems(2-4) by simp
qed

lemma secondaryScan_skip:
  assumes "pEquals S = []" and "pFilters S = pre @ fl # post"
    and "\<forall>f \<in> set pre. \<exists>l h. newLowKey c r (pLow f) = Inr l \<and> newHighKey c r (pHigh f) = Inr h"
    and "newLowKey c r (pLow fl) = Inr l" and "newHighKey c r (pHigh fl) = Inr h"
    and "IndexKeyLessThan h l"
  shows "secondaryScan c r S st = Finished st"
proof -
  have "fl \<in> set (pFilters S)" using assms(2) by simp
  from inverted_not_areFiltersNil [OF this assms(4-6)] have "\<not> areFiltersNil r S" .
  moreover have "encodeFilters c r (pFilters S) [] = Inr None"
    unfolding assms(2) by (rule encodeFilters_skip [OF assms(3-6)])
  ultimately show ?thesis using assms(1,2)
    by (cases st) (simp add: secondaryScan_def)
qed

lemma secondaryScans_drop:
  assumes "\<And>st. secondaryScan c r S st = Finished st"
  shows "secondaryScans c r (A @ S # B) st = secondaryScans c r (A @ B) st"
  by (induction A arbitrary: st) (simp_all add: assms split: looped.splits)

lemma primaryScan_inverted:
  assumes "pEquals S = []" and "pFilters S = fl # post"
    and "newLowKey c r (pLow fl) = Inr l" and "newHighKey c r (pHigh fl) = Inr h"
    and "IndexKeyLessThan h l"
  shows "primaryScan c r S (scans, filters, points) =
           Finished (scans @ [getEmptyScan c r], filters, points)"
proof -
  have "fl \<in> set (pFilters S)" using assms(2) by simp
  from inverted_not_areFiltersNil [OF this assms(3-5)] have "\<not> areFiltersNil r S" .
  then show ?thesis using assms by (simp add: primaryScan_def)
qed

lemma primaryScans_append:
  "primaryScans c r (A @ B) st =
     (case primaryScans c r A st of
        Finished st' \<Rightarrow> primaryScans c r B st'
      | ReturnedError e \<Rightarrow> ReturnedError e
      | ReturnedScanAll \<Rightarrow> ReturnedScanAll
      | Panicked \<Rightarrow> Panicked)"
  by (induction A arbitrary: st) (simp_all split: looped.splits)

text \<open>The loop for a primary index only appends to the scans.\<close>

lemma primaryScan_grows:
  assumes "primaryScan c r ps (scans, filters, points) = Finished (scans', filters', points')"
  shows "\<exists>new. scans' = scans @ new"
  using assms
  by (auto simp: primaryScan_def Let_def split: if_splits sum.splits)

lemma primaryScans_grows:
  assumes "primaryScans c r B (scans, filters, points) = Finished (scans', filters', points')"
  shows "\<exists>new. scans' = scans @ new"
  using assms
proof (induction B arbitrary: scans filters points)
  case Nil
  then show ?case by simp
next
  case (Cons ps B)
  from Cons.prems obtain st1 where
    one: "primaryScan c r ps (scans, filters, points) = Finished st1"
    and rest: "primaryScans c r B st1 = Finished (scans', filters', points')"
    by (auto split: looped.splits)
  obtain scans1 filters1 points1 where st1: "st1 = (scans1, filters1, points1)"
    by (cases st1) auto
  from primaryScan_grows [OF one [unfolded st1]] obtain new1 where "scans1 = scans @ new1" ..
  moreover from Cons.IH [OF rest [unfolded st1]] obtain new2 where "scans' = scans1 @ new2" ..
  ultimately show ?case by simp
qed

text \<open>The merge of a filter changes the last scan or appends one.\<close>

lemma MergeFiltersForPrimary_keeps:
  assumes "MergeFiltersForPrimary c scans f = Returns out"
  shows "length scans \<le> length out \<and> take (length scans - 1) out = butlast scans"
  using assms
  by (auto simp: MergeFiltersForPrimary_def getNewScans_def Let_def butlast_conv_take
           split: if_splits option.splits prod.splits)

lemma mergeFilters_keeps:
  assumes "mergeFilters c fs scans = Returns out"
  shows "length scans \<le> length out \<and> take (length scans - 1) out = butlast scans"
  using assms
proof (induction fs arbitrary: scans)
  case Nil
  then show ?case by (simp add: butlast_conv_take)
next
  case (Cons f fs)
  from Cons.prems obtain scans1 where
    one: "MergeFiltersForPrimary c scans f = Returns scans1"
    and rest: "mergeFilters c fs scans1 = Returns out"
    by (auto split: orPanic.splits)
  from MergeFiltersForPrimary_keeps [OF one]
  have a: "length scans \<le> length scans1" "take (length scans - 1) scans1 = butlast scans"
    by simp_all
  from Cons.IH [OF rest]
  have b: "length scans1 \<le> length out" "take (length scans1 - 1) out = butlast scans1"
    by simp_all
  have "take (length scans - 1) out = take (length scans - 1) (take (length scans1 - 1) out)"
    using a(1) by (simp add: min_def)
  also have "\<dots> = take (length scans - 1) (butlast scans1)" by (simp only: b(2))
  also have "\<dots> = take (length scans - 1) scans1"
    using a(1) by (simp add: butlast_conv_take min_def)
  finally show ?case using a b by simp
qed

text \<open>
  Claim C10, as the code has it. Let a scan \<open>S\<close> of the request have no equals and a
  filter whose keys decode to a high key below the low key, after filters whose keys
  decode. On a secondary index the scan is dropped: planning the request returns what
  planning it without \<open>S\<close> returns, be it scans, an error of another key or a panic, and
  what the empty loop returns when \<open>S\<close> is the only scan. On a primary index, when that
  filter is the first of \<open>S\<close> and the loop gets through the scans before \<open>S\<close>, the loop
  puts the scan of \<open>getEmptyScan\<close> on its list for \<open>S\<close>, and planning returns what the
  rest of the loop and the merge of the filters make of it; when that is a list of
  scans, the merge has left every scan of the loop but the last as it was.
\<close>

theorem fillScans_inverted_filter:
  assumes eq: "pEquals S = []"
    and fls: "pFilters S = pre @ fl # post"
    and pre: "\<forall>f \<in> set pre. \<exists>l h. newLowKey c r (pLow f) = Inr l
                                   \<and> newHighKey c r (pHigh f) = Inr h"
    and lo: "newLowKey c r (pLow fl) = Inr l"
    and hi: "newHighKey c r (pHigh fl) = Inr h"
    and inv: "IndexKeyLessThan h l"
  shows "(\<not> isPrimary r \<longrightarrow>
            fillScans c r (A @ S # B) =
              (if A @ B = [] then secondaryResult c r (Finished ([], []))
               else fillScans c r (A @ B)))
       \<and> (isPrimary r \<and> pre = [] \<longrightarrow>
            (\<forall>scansA filtersA pointsA.
               primaryScans c r A ([], [], []) = Finished (scansA, filtersA, pointsA) \<longrightarrow>
                 fillScans c r (A @ S # B) =
                   primaryResult c
                     (primaryScans c r B (scansA @ [getEmptyScan c r], filtersA, pointsA))
                 \<and> (\<forall>scans filters points out.
                      primaryScans c r B (scansA @ [getEmptyScan c r], filtersA, pointsA) =
                        Finished (scans, filters, points)
                      \<and> fillScans c r (A @ S # B) = Returns (Inr out) \<longrightarrow>
                        length scansA < length scans
                        \<and> scans ! length scansA = getEmptyScan c r
                        \<and> take (length scans - 1) out = butlast scans)))"
proof (intro conjI impI allI)
  assume "\<not> isPrimary r"
  moreover have "secondaryScans c r (A @ S # B) ([], []) = secondaryScans c r (A @ B) ([], [])"
    by (rule secondaryScans_drop) (rule secondaryScan_skip [OF eq fls pre lo hi inv])
  ultimately show "fillScans c r (A @ S # B) =
      (if A @ B = [] then secondaryResult c r (Finished ([], []))
       else fillScans c r (A @ B))"
    by (auto simp: fillScans_def)
next
  fix scansA filtersA pointsA
  assume p: "isPrimary r \<and> pre = []"
    and a: "primaryScans c r A ([], [], []) = Finished (scansA, filtersA, pointsA)"
  from p fls have fls': "pFilters S = fl # post" by simp
  have loop: "primaryScans c r (A @ S # B) ([], [], []) =
      primaryScans c r B (scansA @ [getEmptyScan c r], filtersA, pointsA)"
    by (simp add: primaryScans_append a primaryScan_inverted [OF eq fls' lo hi inv])
  with p show res: "fillScans c r (A @ S # B) =
      primaryResult c (primaryScans c r B (scansA @ [getEmptyScan c r], filtersA, pointsA))"
    by (simp add: fillScans_def)
  fix scans filters points out
  assume b: "primaryScans c r B (scansA @ [getEmptyScan c r], filtersA, pointsA) =
               Finished (scans, filters, points)
             \<and> fillScans c r (A @ S # B) = Returns (Inr out)"
  from primaryScans_grows [OF b [THEN conjunct1]] obtain new
    where new: "scans = scansA @ [getEmptyScan c r] @ new" by auto
  then show "length scansA < length scans" by simp
  from new show "scans ! length scansA = getEmptyScan c r" by (simp add: nth_append)
  from b res have "mergeFilters c (sortFilters c filters) scans = Returns out"
    by (auto simp: primaryResult_def split: orPanic.splits)
  from mergeFilters_keeps [OF this]
  show "take (length scans - 1) out = butlast scans" by simp
qed

lemmas planner_defs = fillScans_def primaryResult_def secondaryResult_def primaryScan_def
  secondaryScan_def fillFilterLowHigh_def fillFilterEquals_def joined_def composeScans_def
  composePoint_def comparePrefix_def filtersAt_def finishScan_def flipInclusion_def
  MergeFiltersForPrimary_def getNewScans_def lowInclude_def highInclude_def
  inclusionMatrix_def lowPoint_def highPoint_def getEmptyScan_def getScanAll_def
  areFiltersNil_def newLowKey_def newHighKey_def newKey_def isNil_def IndexKeyLessThan_def
  FilterLessThan_def IndexPointLessThan_def minlen_def AllReq_def LookupReq_def RangeReq_def
  FilterRangeReq_def Let_def

lemmas planner_ex_defs = exExternals_def exRequest_def exRange_def exScan_def exSort_def
  exCompare_def

text \<open>
  The scan of the filter from b to a before the scan of the filter from a to c. On the
  secondary index the plan is that of the second scan alone, the one range from a to c;
  on the primary index it is the empty range followed by the range from a to c.
\<close>

theorem fillScans_inverted_filter_witness:
  "fillScans exExternals (exRequest False) [exScan [exRange 98 97], exScan [exRange 97 99]] =
     fillScans exExternals (exRequest False) [exScan [exRange 97 99]]
   \<and> fillScans exExternals (exRequest False) [exScan [exRange 97 99]] =
       Returns (Inr [\<lparr>sLow = Some (Key [97]), sHigh = Some (Key [99]), Incl = Both,
                       ScanType = ''range'',
                       Filters = [\<lparr>CompositeFilters =
                                     [\<lparr>cefLow = Key [97], cefHigh = Key [99],
                                       cefInclusion = Both\<rparr>],
                                   fLow = Key [97], fHigh = Key [99], fInclusion = Both,
                                   fScanType = []\<rparr>],
                       Equals = None\<rparr>])
   \<and> fillScans exExternals (exRequest True) [exScan [exRange 98 97], exScan [exRange 97 99]] =
       Returns (Inr [\<lparr>sLow = Some (Key []), sHigh = Some (Key []), Incl = Neither,
                       ScanType = ''range'', Filters = [], Equals = None\<rparr>,
                     \<lparr>sLow = Some (Key [97]), sHigh = Some (Key [99]), Incl = Both,
                       ScanType = ''range'', Filters = [], Equals = None\<rparr>])"
proof -
  have secondary:
    "fillScans exExternals (exRequest False) [exScan [exRange 98 97], exScan [exRange 97 99]] =
       fillScans exExternals (exRequest False) [exScan [exRange 97 99]]"
    using fillScans_inverted_filter [of "exScan [exRange 98 97]" "[]" "exRange 98 97" "[]"
        exExternals "exRequest False" "Key [98]" "Key [97]" "[]" "[exScan [exRange 97 99]]"]
    by (simp add: planner_ex_defs newLowKey_def newHighKey_def newKey_def isNil_def
        IndexKeyLessThan_def)
  have plan:
    "fillScans exExternals (exRequest False) [exScan [exRange 97 99]] =
       Returns (Inr [\<lparr>sLow = Some (Key [97]), sHigh = Some (Key [99]), Incl = Both,
                       ScanType = ''range'',
                       Filters = [\<lparr>CompositeFilters =
                                     [\<lparr>cefLow = Key [97], cefHigh = Key [99],
                                       cefInclusion = Both\<rparr>],
                                   fLow = Key [97], fHigh = Key [99], fInclusion = Both,
                                   fScanType = []\<rparr>],
                       Equals = None\<rparr>])"
    by (simp add: planner_defs planner_ex_defs)
  have primary:
    "fillScans exExternals (exRequest True) [exScan [exRange 98 97], exScan [exRange 97 99]] =
       Returns (Inr [\<lparr>sLow = Some (Key []), sHigh = Some (Key []), Incl = Neither,
                       ScanType = ''range'', Filters = [], Equals = None\<rparr>,
                     \<lparr>sLow = Some (Key [97]), sHigh = Some (Key [99]), Incl = Both,
                       ScanType = ''range'', Filters = [], Equals = None\<rparr>])"
    using fillScans_inverted_filter [of "exScan [exRange 98 97]" "[]" "exRange 98 97" "[]"
        exExternals "exRequest True" "Key [98]" "Key [97]" "[]" "[exScan [exRange 97 99]]"]
    by (simp add: planner_defs planner_ex_defs)
  from secondary plan primary show ?thesis by simp
qed

text \<open>
  Claim C10 as stated has planning succeed for every request with such a filter, with
  an empty range for the filter on a primary index. On the primary index the filter
  from b to a is the second of its scan here, after the filter from a to z: the loop
  reads the first filter only, and the plan is the one range from a to z. And where the
  scan of the filter from b to a is followed by a scan whose equal key is nil,
  \<open>newKey\<close> refuses the key and planning returns the error, on the primary and on the
  secondary index.
\<close>

theorem fillScans_inverted_filter_counterexample:
  "IndexKeyLessThan (Key [97]) (Key [98])
   \<and> fillScans exExternals (exRequest True) [exScan [exRange 97 122, exRange 98 97]] =
       Returns (Inr [\<lparr>sLow = Some (Key [97]), sHigh = Some (Key [122]), Incl = Both,
                       ScanType = ''range'', Filters = [], Equals = None\<rparr>])
   \<and> fillScans exExternals (exRequest True)
         [exScan [exRange 98 97], \<lparr>pFilters = [], pEquals = [None]\<rparr>] =
       Returns (Inl (InvalidKey ''equal'' None KeyIsNull))
   \<and> fillScans exExternals (exRequest False)
         [exScan [exRange 98 97], \<lparr>pFilters = [], pEquals = [None]\<rparr>] =
       Returns (Inl (InvalidKey ''equal'' None KeyIsNull))"
  by (simp add: planner_defs planner_ex_defs)

end
